theory Spec2Isabelle
  imports Main
begin

section \<open>JavaScript values used by the synchronizer\<close>

text \<open>
  Strings are lists of code units; the model covers code units 0..255 (ISO-8859-1), which
  is where HOL's \<open>char\<close> lives. Numbers that the program only uses as integers are \<open>int\<close>
  or \<open>nat\<close>. A thrown value is a \<open>js_error\<close>: the two properties \<open>withRateLimit\<close> reads.
\<close>

record js_error =
  message :: string
  status :: "nat option"

definition Error :: "string \<Rightarrow> js_error" where
  \<comment> \<open>\<open>new Error(msg)\<close>: a message and no \<open>status\<close> property.\<close>
  "Error msg = \<lparr>message = msg, status = None\<rparr>"

fun show_nat :: "nat \<Rightarrow> string" where
  \<comment> \<open>A non-negative integer inside a template literal: its decimal digits.\<close>
  "show_nat n =
     (if n < 10 then [''0123456789'' ! n]
      else show_nat (n div 10) @ [''0123456789'' ! (n mod 10)])"

declare show_nat.simps [simp del]

fun startsWith :: "string \<Rightarrow> string \<Rightarrow> bool" where
  "startsWith s [] = True"
| "startsWith [] (c # cs) = False"
| "startsWith (x # xs) (c # cs) = (x = c \<and> startsWith xs cs)"

fun str_includes :: "string \<Rightarrow> string \<Rightarrow> bool" where
  \<comment> \<open>\<open>String.prototype.includes\<close>: the argument occurs somewhere as a substring.\<close>
  "str_includes [] sub = (sub = [])"
| "str_includes (x # xs) sub = (startsWith (x # xs) sub \<or> str_includes xs sub)"

definition is_js_space :: "char \<Rightarrow> bool" where
  \<comment> \<open>White space and line terminators (what \<open>\s\<close>, \<open>trim\<close> and \<open>parseInt\<close> skip): TAB, LF, VT,
      FF, CR, SPACE and NBSP are the ones below 256.\<close>
  "is_js_space c = (of_char c \<in> {9, 10, 11, 12, 13, 32, 160 :: nat})"

definition is_line_terminator :: "char \<Rightarrow> bool" where
  \<comment> \<open>What the regular expression dot does not match: LF and CR below 256.\<close>
  "is_line_terminator c = (of_char c \<in> {10, 13 :: nat})"

definition newline :: char where
  "newline = CHR 0x0A"

definition dquote :: char where
  "dquote = CHR 0x22"

definition toLowerCase_char :: "char \<Rightarrow> char" where
  \<comment> \<open>A..Z and the capital letters of ISO-8859-1 (all of 0xC0..0xDE but the multiplication sign)
      move up by 32.\<close>
  "toLowerCase_char c =
     (let n = of_char c :: nat
      in if (65 \<le> n \<and> n \<le> 90) \<or> (192 \<le> n \<and> n \<le> 222 \<and> n \<noteq> 215)
         then char_of (n + 32) else c)"

definition toLowerCase :: "string \<Rightarrow> string" where
  "toLowerCase s = map toLowerCase_char s"

definition trim :: "string \<Rightarrow> string" where
  "trim s = rev (dropWhile is_js_space (rev (dropWhile is_js_space s)))"

definition truthy :: "string option \<Rightarrow> bool" where
  \<comment> \<open>A string, \<open>null\<close> or \<open>undefined\<close> in a boolean position: only a non-empty string counts.\<close>
  "truthy v = (case v of None \<Rightarrow> False | Some s \<Rightarrow> s \<noteq> [])"

definition js_or :: "string option \<Rightarrow> string option \<Rightarrow> string option" where
  \<comment> \<open>\<open>a || b\<close>\<close>
  "js_or a b = (if truthy a then a else b)"

subsection \<open>parseInt\<close>

definition digit_value :: "char \<Rightarrow> nat option" where
  "digit_value c =
     (let n = of_char c :: nat
      in if 48 \<le> n \<and> n \<le> 57 then Some (n - 48)
         else if 97 \<le> n \<and> n \<le> 102 then Some (n - 87)
         else if 65 \<le> n \<and> n \<le> 70 then Some (n - 55)
         else None)"

definition is_digit_of :: "nat \<Rightarrow> char \<Rightarrow> bool" where
  "is_digit_of R c = (case digit_value c of None \<Rightarrow> False | Some d \<Rightarrow> d < R)"

definition digits_value :: "nat \<Rightarrow> string \<Rightarrow> nat" where
  "digits_value R Z =
     foldl (\<lambda>acc c. acc * R + (case digit_value c of None \<Rightarrow> 0 | Some d \<Rightarrow> d)) 0 Z"

definition parseInt :: "string option \<Rightarrow> int option" where
  \<comment> \<open>\<open>parseInt(x)\<close> with no radix; \<open>None\<close> is NaN. An absent variable is \<open>undefined\<close>, which is
      converted to the string "undefined" first. The result is the mathematical integer (the
      Number is this integer rounded to a double, which keeps its sign and whether it is zero).\<close>
  "parseInt arg =
     (let inputString = (case arg of None \<Rightarrow> ''undefined'' | Some s \<Rightarrow> s);
          S = dropWhile is_js_space inputString;
          sign = (case S of [] \<Rightarrow> 1 | c # _ \<Rightarrow> if c = CHR ''-'' then - 1 else (1 :: int));
          S1 = (case S of [] \<Rightarrow> S | c # t \<Rightarrow> if c = CHR ''+'' \<or> c = CHR ''-'' then t else S);
          hex = (case S1 of a # b # _ \<Rightarrow> a = CHR ''0'' \<and> (b = CHR ''x'' \<or> b = CHR ''X'') | _ \<Rightarrow> False);
          R = (if hex then 16 else 10);
          S2 = (if hex then drop 2 S1 else S1);
          Z = takeWhile (is_digit_of R) S2
      in if Z = [] then None else Some (sign * int (digits_value R Z)))"

section \<open>Content normalizer\<close>

text \<open>
  \<open>cleanMastodonContent\<close> is five \<open>String.prototype.replace\<close> calls with global regular
  expressions and a \<open>trim\<close>. Each regular expression is written as a backtracking matcher in
  continuation style, built from the combinators below: a matcher tried at the start of a
  string answers the replacement text and the rest of the string after the match.
\<close>

definition ascii_lower :: "char \<Rightarrow> char" where
  "ascii_lower c =
     (let n = of_char c :: nat in if 65 \<le> n \<and> n \<le> 90 then char_of (n + 32) else c)"

fun ci_prefix :: "string \<Rightarrow> string \<Rightarrow> string option" where
  \<comment> \<open>A literal under the \<open>i\<close> flag, the pattern given in lower case: the rest after it.\<close>
  "ci_prefix [] s = Some s"
| "ci_prefix (p # ps) [] = None"
| "ci_prefix (p # ps) (c # cs) = (if ascii_lower c = p then ci_prefix ps cs else None)"

fun star_greedy ::
  "(char \<Rightarrow> bool) \<Rightarrow> (string \<Rightarrow> string \<Rightarrow> 'a option) \<Rightarrow> string \<Rightarrow> 'a option" where
  \<comment> \<open>\<open>[class]*\<close> followed by \<open>k\<close>: the longest run first, one character given back at a time.
      \<open>k\<close> receives the run and the rest.\<close>
  "star_greedy P k [] = k [] []"
| "star_greedy P k (c # cs) =
     (if P c then
        (case star_greedy P (\<lambda>g. k (c # g)) cs of
           Some r \<Rightarrow> Some r
         | None \<Rightarrow> k [] (c # cs))
      else k [] (c # cs))"

fun star_lazy ::
  "(char \<Rightarrow> bool) \<Rightarrow> (string \<Rightarrow> string \<Rightarrow> 'a option) \<Rightarrow> string \<Rightarrow> 'a option" where
  \<comment> \<open>\<open>[class]*?\<close> followed by \<open>k\<close>: the shortest run first.\<close>
  "star_lazy P k [] = k [] []"
| "star_lazy P k (c # cs) =
     (case k [] (c # cs) of
        Some r \<Rightarrow> Some r
      | None \<Rightarrow> if P c then star_lazy P (\<lambda>g. k (c # g)) cs else None)"

definition opt_char :: "char \<Rightarrow> (string \<Rightarrow> 'a option) \<Rightarrow> string \<Rightarrow> 'a option" where
  \<comment> \<open>\<open>x?\<close> followed by \<open>k\<close>\<close>
  "opt_char x k s =
     (case s of
        [] \<Rightarrow> k s
      | c # cs \<Rightarrow> if c = x then (case k cs of Some r \<Rightarrow> Some r | None \<Rightarrow> k s) else k s)"

function replace_all :: "(string \<Rightarrow> (string \<times> string) option) \<Rightarrow> string \<Rightarrow> string" where
  \<comment> \<open>\<open>s.replace(/re/g, replacement)\<close>: the matcher is tried at each position from the left;
      after a match the scan goes on behind it. Every expression below consumes at least one
      character, so the length test always holds; it is what makes the recursion terminate.\<close>
  "replace_all m [] = []"
| "replace_all m (c # cs) =
     (case m (c # cs) of
        None \<Rightarrow> c # replace_all m cs
      | Some (rep, rest) \<Rightarrow>
          if length rest \<le> length cs then rep @ replace_all m rest
          else c # replace_all m cs)"
  by pat_completeness auto
termination
  by (relation "measure (\<lambda>(m, s). length s)") auto

definition match_br :: "string \<Rightarrow> (string \<times> string) option" where
  \<comment> \<open>\<open>/<br\s*\/?>/gi\<close> replaced by a newline\<close>
  "match_br s =
     Option.bind (ci_prefix ''<br'' s)
       (star_greedy is_js_space (\<lambda>_.
          opt_char CHR ''/'' (\<lambda>t.
            Option.bind (ci_prefix ''>'' t) (\<lambda>rest. Some ([newline], rest)))))"

definition match_p :: "string \<Rightarrow> (string \<times> string) option" where
  \<comment> \<open>\<open>/<p>(.*?)<\/p>/gi\<close> replaced by \<open>$1\n\n\<close>\<close>
  "match_p s =
     Option.bind (ci_prefix ''<p>'' s)
       (star_lazy (\<lambda>c. \<not> is_line_terminator c) (\<lambda>g1 t.
          Option.bind (ci_prefix ''</p>'' t) (\<lambda>rest. Some (g1 @ [newline, newline], rest))))"

definition match_a :: "string \<Rightarrow> (string \<times> string) option" where
  \<comment> \<open>\<open>/<a[^>]*href="([^"]*)"[^>]*>(.*?)<\/a>/gi\<close> replaced by \<open>$2 ($1)\<close>\<close>
  "match_a s =
     Option.bind (ci_prefix ''<a'' s)
       (star_greedy (\<lambda>c. c \<noteq> CHR ''>'') (\<lambda>_ t.
          Option.bind (ci_prefix (''href='' @ [dquote]) t)
            (star_greedy (\<lambda>c. c \<noteq> dquote) (\<lambda>g1 t.
               Option.bind (ci_prefix [dquote] t)
                 (star_greedy (\<lambda>c. c \<noteq> CHR ''>'') (\<lambda>_ t.
                    Option.bind (ci_prefix ''>'' t)
                      (star_lazy (\<lambda>c. \<not> is_line_terminator c) (\<lambda>g2 t.
                         Option.bind (ci_prefix ''</a>'' t)
                           (\<lambda>rest. Some (g2 @ '' ('' @ g1 @ '')'', rest))))))))))"

definition match_tag :: "string \<Rightarrow> (string \<times> string) option" where
  \<comment> \<open>\<open>/<[^>]*>/g\<close> replaced by the empty string\<close>
  "match_tag s =
     Option.bind (ci_prefix ''<'' s)
       (star_greedy (\<lambda>c. c \<noteq> CHR ''>'') (\<lambda>_ t.
          Option.bind (ci_prefix ''>'' t) (\<lambda>rest. Some ([], rest))))"

definition match_newlines :: "string \<Rightarrow> (string \<times> string) option" where
  \<comment> \<open>\<open>/\n{3,}/g\<close> replaced by two newlines\<close>
  "match_newlines s =
     Option.bind (ci_prefix [newline, newline, newline] s)
       (star_greedy (\<lambda>c. c = newline) (\<lambda>_ rest. Some ([newline, newline], rest)))"

definition cleanMastodonContent :: "string \<Rightarrow> string" where
  "cleanMastodonContent html =
     (let text1 = replace_all match_br html;
          text2 = replace_all match_p text1;
          text3 = replace_all match_a text2;
          text4 = replace_all match_tag text3;
          text5 = replace_all match_newlines text4
      in trim text5)"

section \<open>The outside world\<close>

text \<open>
  Everything the worker reaches over the network or reads from its host is a parameter of the
  model: an operation takes the state of the outside world and returns its answer (or the
  error it throws) with the new state. The model keeps, beside that state, the sequence of
  the calls it made, so that a theorem can say which calls happened and in which order.
\<close>

record http_request =
  req_base :: string
  req_endpoint :: string
  req_method :: string
  req_bearer :: "string option"
  req_status_text :: "string option"
    \<comment> \<open>the \<open>status\<close> member of the JSON body \<open>{status, visibility: 'public'}\<close>, when there is a body\<close>

record 'j http_response =
  ok :: bool
  http_status :: nat
  body_text :: string
  body_json :: "js_error + 'j"

record bsky_feed_item =
  uri :: string                \<comment> \<open>\<open>post.post.uri\<close>\<close>
  indexedAt :: string          \<comment> \<open>\<open>post.post.indexedAt\<close>\<close>
  reason_repost :: bool
    \<comment> \<open>\<open>post.reason\<close> is present: the mark of a repost in an author feed
        (\<open>app.bsky.feed.defs#reasonRepost\<close>). The source never reads it.\<close>
  record_reply :: bool         \<comment> \<open>\<open>post.post.record.reply\<close> is present\<close>
  record_text :: string        \<comment> \<open>\<open>post.post.record.text\<close>\<close>

record mastodon_status =
  status_id :: string          \<comment> \<open>\<open>post.id\<close>\<close>
  created_at :: string
  reblog :: bool               \<comment> \<open>\<open>post.reblog\<close> is not null\<close>
  account_username :: string   \<comment> \<open>\<open>post.account.username\<close>\<close>
  content :: string

datatype call =
    Fetch http_request
  | BskyLogin string string
  | BskyGetAuthorFeed string int
  | BskyPost string string
  | SetTimeout nat
  | KvGet string
  | KvPut string string

record 's platform =
  date_value :: "string \<Rightarrow> int option"
    \<comment> \<open>the time value of \<open>new Date(s)\<close>; \<open>None\<close> for an invalid date\<close>
  clock :: "'s \<Rightarrow> string"
    \<comment> \<open>\<open>new Date().toISOString()\<close>\<close>
  timer :: "nat \<Rightarrow> 's \<Rightarrow> 's"
    \<comment> \<open>the world after a \<open>setTimeout\<close> of so many milliseconds has fired\<close>
  kv_get :: "string \<Rightarrow> 's \<Rightarrow> (js_error + string option) \<times> 's"
  kv_put :: "string \<Rightarrow> string \<Rightarrow> 's \<Rightarrow> (js_error + unit) \<times> 's"
  fetch_instance :: "http_request \<Rightarrow> 's \<Rightarrow> (js_error + unit http_response) \<times> 's"
  fetch_account :: "http_request \<Rightarrow> 's \<Rightarrow> (js_error + unit http_response) \<times> 's"
  fetch_timeline :: "http_request \<Rightarrow> 's \<Rightarrow> (js_error + mastodon_status list http_response) \<times> 's"
  fetch_created :: "http_request \<Rightarrow> 's \<Rightarrow> (js_error + string http_response) \<times> 's"
    \<comment> \<open>\<open>fetch\<close>, by what the answer's JSON is read as: the instance and the account (nothing
        of them is used), the list of statuses, and the created status (its \<open>id\<close>)\<close>
  bsky_login :: "string \<Rightarrow> string \<Rightarrow> 's \<Rightarrow> (js_error + unit) \<times> 's"
  bsky_getAuthorFeed :: "string \<Rightarrow> int \<Rightarrow> 's \<Rightarrow> (js_error + bsky_feed_item list) \<times> 's"
  bsky_post :: "string \<Rightarrow> string \<Rightarrow> 's \<Rightarrow> (js_error + string) \<times> 's"
    \<comment> \<open>\<open>bsky.post({text, createdAt})\<close>; the answer's \<open>uri\<close>\<close>

record 's world =
  remote :: 's
  trace :: "call list"

definition perform :: "call \<Rightarrow> ('s \<Rightarrow> 'a \<times> 's) \<Rightarrow> 's world \<Rightarrow> 'a \<times> 's world" where
  "perform c op w =
     (case op (remote w) of (r, s') \<Rightarrow> (r, \<lparr>remote = s', trace = trace w @ [c]\<rparr>))"

definition setTimeout :: "'s platform \<Rightarrow> nat \<Rightarrow> 's world \<Rightarrow> 's world" where
  \<comment> \<open>\<open>await new Promise(resolve => setTimeout(resolve, waitTime))\<close>\<close>
  "setTimeout E waitTime w =
     \<lparr>remote = timer E waitTime (remote w), trace = trace w @ [SetTimeout waitTime]\<rparr>"

definition is_publish :: "call \<Rightarrow> bool" where
  \<comment> \<open>The calls that create a post: a POST request to Mastodon, \<open>bsky.post\<close>.\<close>
  "is_publish c =
     (case c of
        Fetch request \<Rightarrow> req_method request = ''POST''
      | BskyPost _ _ \<Rightarrow> True
      | _ \<Rightarrow> False)"

definition date_le :: "'s platform \<Rightarrow> string \<Rightarrow> string \<Rightarrow> bool" where
  \<comment> \<open>\<open>new Date(a) <= new Date(b)\<close>: the time values are compared, and a comparison with the NaN
      of an invalid date is false.\<close>
  "date_le E a b =
     (case (date_value E a, date_value E b) of
        (Some x, Some y) \<Rightarrow> x \<le> y
      | _ \<Rightarrow> False)"

section \<open>The service\<close>

record SyncConfig =
  debug :: bool
  postsToSync :: int
  ignoreReposts :: bool
  lastSync :: "string option"
  mastodonUrl :: string
  mastodonUsername :: string
  mastodonAccessToken :: string
  blueskyUsername :: string
  blueskyPassword :: string
  dryRun :: bool

record SyncedPost =
  source :: string
  sourceId :: string
  targetId :: string
  synced_text :: string        \<comment> \<open>the field \<open>text\<close>\<close>
  simulated :: bool
  timestamp :: string

record SyncResults =
  results_timestamp :: string  \<comment> \<open>the field \<open>timestamp\<close>\<close>
  blueskyToMastodon :: "SyncedPost list"
  mastodonToBluesky :: "SyncedPost list"
  results_dryRun :: bool       \<comment> \<open>the field \<open>dryRun\<close>\<close>

record SocialSyncService =
  this_config :: SyncConfig
  this_debug :: bool
  this_postsToSync :: int
  this_ignoreReposts :: bool
  this_lastSync :: "string option"
  this_dryRun :: bool

definition constructor :: "SyncConfig \<Rightarrow> SocialSyncService" where
  "constructor config =
     \<lparr>this_config = config,
      this_debug = debug config,
      this_postsToSync = postsToSync config,
      this_ignoreReposts = ignoreReposts config,
      this_lastSync = lastSync config,
      this_dryRun = (dryRun config \<or> False)\<rparr>"

definition mastodonRequest ::
  "(http_request \<Rightarrow> 's \<Rightarrow> (js_error + 'j http_response) \<times> 's) \<Rightarrow> SocialSyncService \<Rightarrow>
   string \<Rightarrow> string \<Rightarrow> string option \<Rightarrow> 's world \<Rightarrow> (js_error + 'j) \<times> 's world" where
  \<comment> \<open>\<open>mastodonRequest(endpoint, options)\<close>, with the method and the body of \<open>options\<close>\<close>
  "mastodonRequest fetch this endpoint method body w =
     (let request =
            \<lparr>req_base = mastodonUrl (this_config this), req_endpoint = endpoint,
             req_method = method,
             req_bearer = Some (mastodonAccessToken (this_config this)),
             req_status_text = body\<rparr>
      in case perform (Fetch request) (fetch request) w of
           (Inl error, w') \<Rightarrow> (Inl error, w')
         | (Inr response, w') \<Rightarrow>
             if \<not> ok response then
               (Inl (Error (''Mastodon API error: '' @ show_nat (http_status response) @ '' ''
                            @ body_text response)), w')
             else (body_json response, w'))"

definition initialize :: "'s platform \<Rightarrow> SocialSyncService \<Rightarrow> 's world \<Rightarrow> (js_error + unit) \<times> 's world" where
  "initialize E this w =
     (let request =
            \<lparr>req_base = mastodonUrl (this_config this), req_endpoint = ''/api/v1/instance'',
             req_method = ''GET'', req_bearer = None, req_status_text = None\<rparr>
      in case perform (Fetch request) (fetch_instance E request) w of
           (Inl error, w1) \<Rightarrow> (Inl error, w1)
         | (Inr instanceResponse, w1) \<Rightarrow>
             if \<not> ok instanceResponse then
               (Inl (Error (''Cannot reach Mastodon instance: ''
                            @ show_nat (http_status instanceResponse))), w1)
             else
               (case body_json instanceResponse of
                  Inl error \<Rightarrow> (Inl error, w1)
                | Inr instance \<Rightarrow>
                    (case mastodonRequest (fetch_account E) this
                            ''/api/v1/accounts/verify_credentials'' ''GET'' None w1 of
                       (Inl error, w2) \<Rightarrow> (Inl error, w2)
                     | (Inr account, w2) \<Rightarrow>
                         perform
                           (BskyLogin (blueskyUsername (this_config this))
                                      (blueskyPassword (this_config this)))
                           (bsky_login E (blueskyUsername (this_config this))
                                         (blueskyPassword (this_config this))) w2)))"

definition is_rate_limited :: "js_error \<Rightarrow> bool" where
  \<comment> \<open>\<open>error.message.includes('rate limit') || error.status === 429\<close>\<close>
  "is_rate_limited error = (str_includes (message error) ''rate limit'' \<or> status error = Some 429)"

function withRateLimit_loop ::
  "'s platform \<Rightarrow> ('s world \<Rightarrow> (js_error + 'a) \<times> 's world) \<Rightarrow> nat \<Rightarrow> nat \<Rightarrow> 's world \<Rightarrow>
   (js_error + 'a) \<times> 's world" where
  \<comment> \<open>the \<open>for\<close> loop of \<open>withRateLimit\<close> from the value \<open>i\<close> of its counter on, and the
      \<open>throw\<close> behind it\<close>
  "withRateLimit_loop E fn retries i w =
     (if i < retries then
        (case fn w of
           (Inr result, w') \<Rightarrow> (Inr result, w')
         | (Inl error, w') \<Rightarrow>
             if is_rate_limited error
             then withRateLimit_loop E fn retries (Suc i) (setTimeout E (2 ^ i * 1000) w')
             else (Inl error, w'))
      else (Inl (Error (''Failed after '' @ show_nat retries @ '' retries'')), w))"
  by pat_completeness auto
termination
  by (relation "measure (\<lambda>(E, fn, retries, i, w). retries - i)") auto

declare withRateLimit_loop.simps [simp del]

definition withRateLimit ::
  "'s platform \<Rightarrow> ('s world \<Rightarrow> (js_error + 'a) \<times> 's world) \<Rightarrow> nat \<Rightarrow> 's world \<Rightarrow>
   (js_error + 'a) \<times> 's world" where
  \<comment> \<open>\<open>withRateLimit(fn, retries = 3)\<close>; every call in the source leaves \<open>retries\<close> at 3\<close>
  "withRateLimit E fn retries w = withRateLimit_loop E fn retries 0 w"

subsection \<open>The two directions\<close>

definition older_than_lastSync :: "'s platform \<Rightarrow> SocialSyncService \<Rightarrow> string \<Rightarrow> bool" where
  \<comment> \<open>\<open>this.lastSync && new Date(t) <= new Date(this.lastSync)\<close>\<close>
  "older_than_lastSync E this t =
     (case this_lastSync this of
        None \<Rightarrow> False
      | Some ls \<Rightarrow> ls \<noteq> [] \<and> date_le E t ls)"

definition publish_to_mastodon ::
  "'s platform \<Rightarrow> SocialSyncService \<Rightarrow> string \<Rightarrow> 's world \<Rightarrow> (js_error + string) \<times> 's world" where
  \<comment> \<open>the guarded \<open>POST /api/v1/statuses\<close> of \<open>syncFromBluesky\<close>; the answer's \<open>id\<close>\<close>
  "publish_to_mastodon E this text =
     withRateLimit E
       (mastodonRequest (fetch_created E) this ''/api/v1/statuses'' ''POST'' (Some text)) 3"

definition publish_to_bluesky ::
  "'s platform \<Rightarrow> string \<Rightarrow> 's world \<Rightarrow> (js_error + string) \<times> 's world" where
  \<comment> \<open>the guarded \<open>bsky.post\<close> of \<open>syncFromMastodon\<close>; \<open>createdAt\<close> is read from the clock at
      each attempt; the answer's \<open>uri\<close>\<close>
  "publish_to_bluesky E text =
     withRateLimit E
       (\<lambda>w. perform (BskyPost text (clock E (remote w)))
                    (bsky_post E text (clock E (remote w))) w) 3"

definition bluesky_record :: "SocialSyncService \<Rightarrow> bsky_feed_item \<Rightarrow> string \<Rightarrow> SyncedPost" where
  \<comment> \<open>the object pushed to \<open>syncedPosts\<close> in \<open>syncFromBluesky\<close>, for a given \<open>targetId\<close>\<close>
  "bluesky_record this post target =
     \<lparr>source = ''bluesky'', sourceId = uri post, targetId = target,
      synced_text = record_text post, simulated = this_dryRun this,
      timestamp = indexedAt post\<rparr>"

definition bluesky_post_step ::
  "'s platform \<Rightarrow> SocialSyncService \<Rightarrow> bsky_feed_item \<Rightarrow> 's world \<Rightarrow> SyncedPost option \<times> 's world" where
  \<comment> \<open>The body of the loop of \<open>syncFromBluesky\<close> for one post: the record it pushes, if any.
      \<open>None\<close> is a \<open>continue\<close>, also the one of the \<open>catch\<close>.\<close>
  "bluesky_post_step E this post w =
     (if older_than_lastSync E this (indexedAt post) then (None, w)
      else if this_ignoreReposts this \<and> record_reply post then (None, w)
      else
        let text = record_text post in
        if \<not> this_dryRun this then
          (case publish_to_mastodon E this text w of
             (Inl error, w') \<Rightarrow> (None, w')
           | (Inr mastoPost_id, w') \<Rightarrow> (Some (bluesky_record this post mastoPost_id), w'))
        else (Some (bluesky_record this post ''DRY_RUN''), w))"

fun bluesky_loop ::
  "'s platform \<Rightarrow> SocialSyncService \<Rightarrow> bsky_feed_item list \<Rightarrow> SyncedPost list \<Rightarrow> 's world \<Rightarrow>
   SyncedPost list \<times> 's world" where
  \<comment> \<open>\<open>for (const post of bskyPosts.data.feed)\<close> with \<open>syncedPosts\<close> so far\<close>
  "bluesky_loop E this [] syncedPosts w = (syncedPosts, w)"
| "bluesky_loop E this (post # feed) syncedPosts w =
     (case bluesky_post_step E this post w of
        (None, w') \<Rightarrow> bluesky_loop E this feed syncedPosts w'
      | (Some synced, w') \<Rightarrow> bluesky_loop E this feed (syncedPosts @ [synced]) w')"

definition fetch_bluesky ::
  "'s platform \<Rightarrow> SocialSyncService \<Rightarrow> 's world \<Rightarrow> (js_error + bsky_feed_item list) \<times> 's world" where
  \<comment> \<open>the guarded \<open>bsky.getAuthorFeed\<close>; \<open>bskyPosts.data.feed\<close>\<close>
  "fetch_bluesky E this =
     withRateLimit E
       (perform (BskyGetAuthorFeed (blueskyUsername (this_config this)) (this_postsToSync this))
          (bsky_getAuthorFeed E (blueskyUsername (this_config this)) (this_postsToSync this))) 3"

definition syncFromBluesky ::
  "'s platform \<Rightarrow> SocialSyncService \<Rightarrow> 's world \<Rightarrow> (js_error + SyncedPost list) \<times> 's world" where
  "syncFromBluesky E this w =
     (case fetch_bluesky E this w of
        (Inl error, w') \<Rightarrow> (Inl error, w')
      | (Inr feed, w') \<Rightarrow>
          (case bluesky_loop E this feed [] w' of
             (syncedPosts, w'') \<Rightarrow> (Inr syncedPosts, w'')))"

definition mastodon_record :: "SocialSyncService \<Rightarrow> mastodon_status \<Rightarrow> string \<Rightarrow> SyncedPost" where
  \<comment> \<open>the object pushed to \<open>syncedPosts\<close> in \<open>syncFromMastodon\<close>, for a given \<open>targetId\<close>\<close>
  "mastodon_record this post target =
     \<lparr>source = ''mastodon'', sourceId = status_id post, targetId = target,
      synced_text = cleanMastodonContent (content post), simulated = this_dryRun this,
      timestamp = created_at post\<rparr>"

definition mastodon_post_step ::
  "'s platform \<Rightarrow> SocialSyncService \<Rightarrow> mastodon_status \<Rightarrow> 's world \<Rightarrow> SyncedPost option \<times> 's world" where
  \<comment> \<open>The body of the loop of \<open>syncFromMastodon\<close> for one post.\<close>
  "mastodon_post_step E this post w =
     (if older_than_lastSync E this (created_at post) then (None, w)
      else if this_ignoreReposts this \<and> reblog post then (None, w)
      else if toLowerCase (account_username post)
              \<noteq> toLowerCase (mastodonUsername (this_config this)) then (None, w)
      else
        let text = cleanMastodonContent (content post) in
        if \<not> this_dryRun this then
          (case publish_to_bluesky E text w of
             (Inl error, w') \<Rightarrow> (None, w')
           | (Inr bskyPost_uri, w') \<Rightarrow> (Some (mastodon_record this post bskyPost_uri), w'))
        else (Some (mastodon_record this post ''DRY_RUN''), w))"

fun mastodon_loop ::
  "'s platform \<Rightarrow> SocialSyncService \<Rightarrow> mastodon_status list \<Rightarrow> SyncedPost list \<Rightarrow> 's world \<Rightarrow>
   SyncedPost list \<times> 's world" where
  \<comment> \<open>\<open>for (const post of timelinePosts)\<close> with \<open>syncedPosts\<close> so far\<close>
  "mastodon_loop E this [] syncedPosts w = (syncedPosts, w)"
| "mastodon_loop E this (post # timelinePosts) syncedPosts w =
     (case mastodon_post_step E this post w of
        (None, w') \<Rightarrow> mastodon_loop E this timelinePosts syncedPosts w'
      | (Some synced, w') \<Rightarrow> mastodon_loop E this timelinePosts (syncedPosts @ [synced]) w')"

definition fetch_mastodon ::
  "'s platform \<Rightarrow> SocialSyncService \<Rightarrow> 's world \<Rightarrow> (js_error + mastodon_status list) \<times> 's world" where
  \<comment> \<open>the guarded \<open>GET /api/v1/timelines/home\<close>. The \<open>params\<close> member of its options is not
      something \<open>fetch\<close> reads, so the limit does not reach the request.\<close>
  "fetch_mastodon E this =
     withRateLimit E
       (mastodonRequest (fetch_timeline E) this ''/api/v1/timelines/home'' ''GET'' None) 3"

definition syncFromMastodon ::
  "'s platform \<Rightarrow> SocialSyncService \<Rightarrow> 's world \<Rightarrow> (js_error + SyncedPost list) \<times> 's world" where
  "syncFromMastodon E this w =
     (case fetch_mastodon E this w of
        (Inl error, w') \<Rightarrow> (Inl error, w')
      | (Inr timelinePosts, w') \<Rightarrow>
          (case mastodon_loop E this timelinePosts [] w' of
             (syncedPosts, w'') \<Rightarrow> (Inr syncedPosts, w'')))"

definition sync :: "'s platform \<Rightarrow> SocialSyncService \<Rightarrow> 's world \<Rightarrow> (js_error + SyncResults) \<times> 's world" where
  "sync E this w =
     (case initialize E this w of
        (Inl error, w1) \<Rightarrow> (Inl error, w1)
      | (Inr _, w1) \<Rightarrow>
          let currentTime = clock E (remote w1) in
          (case syncFromBluesky E this w1 of
             (Inl error, w2) \<Rightarrow> (Inl error, w2)
           | (Inr fromBluesky, w2) \<Rightarrow>
               (case syncFromMastodon E this w2 of
                  (Inl error, w3) \<Rightarrow> (Inl error, w3)
                | (Inr fromMastodon, w3) \<Rightarrow>
                    (Inr \<lparr>results_timestamp = currentTime,
                          blueskyToMastodon = fromBluesky,
                          mastodonToBluesky = fromMastodon,
                          results_dryRun = this_dryRun this\<rparr>, w3))))"

text \<open>
  What the loops keep: the conditions under which the body of a loop goes on to publish.
\<close>

abbreviation bluesky_kept :: "'s platform \<Rightarrow> SocialSyncService \<Rightarrow> bsky_feed_item \<Rightarrow> bool" where
  "bluesky_kept E this p \<equiv>
     \<not> older_than_lastSync E this (indexedAt p) \<and> \<not> (this_ignoreReposts this \<and> record_reply p)"

abbreviation mastodon_kept :: "'s platform \<Rightarrow> SocialSyncService \<Rightarrow> mastodon_status \<Rightarrow> bool" where
  "mastodon_kept E this p \<equiv>
     \<not> older_than_lastSync E this (created_at p) \<and> \<not> (this_ignoreReposts this \<and> reblog p)
     \<and> toLowerCase (account_username p) = toLowerCase (mastodonUsername (this_config this))"

definition is_kv_put :: "call \<Rightarrow> bool" where
  "is_kv_put c = (case c of KvPut _ _ \<Rightarrow> True | _ \<Rightarrow> False)"

definition kv_puts :: "'s world \<Rightarrow> call list" where
  \<comment> \<open>the writes to the store made so far\<close>
  "kv_puts w = filter is_kv_put (trace w)"

definition publishes :: "'s world \<Rightarrow> call list" where
  \<comment> \<open>the publishing calls made so far\<close>
  "publishes w = filter is_publish (trace w)"

section \<open>The worker\<close>

record worker_env =
  DEBUG :: "string option"
  POSTS_TO_SYNC :: "string option"
  IGNORE_REPOSTS :: "string option"
  DRY_RUN :: "string option"
  LAST_SYNC :: "string option"
  MASTODON_URL :: string
  MASTODON_USERNAME :: string
  MASTODON_ACCESS_TOKEN :: string
  BLUESKY_USERNAME :: string
  BLUESKY_PASSWORD :: string

datatype report =
    Succeeded bool string nat nat "SyncResults option"
      \<comment> \<open>\<open>{success: true, dryRun, timestamp, stats: {blueskyToMastodon, mastodonToBluesky}, details}\<close>\<close>
  | Failed bool string "js_error option"
      \<comment> \<open>\<open>{success: false, dryRun, error, details}\<close>; \<open>details\<close> is the stack of the error\<close>

fun success :: "report \<Rightarrow> bool" where
  "success (Succeeded _ _ _ _ _) = True"
| "success (Failed _ _ _) = False"

definition posts_to_sync :: "string option \<Rightarrow> int" where
  \<comment> \<open>\<open>parseInt(env.POSTS_TO_SYNC) || 10\<close>: NaN and 0 are the numbers that give way to 10.\<close>
  "posts_to_sync v = (case parseInt v of None \<Rightarrow> 10 | Some n \<Rightarrow> if n = 0 then 10 else n)"

definition make_config :: "worker_env \<Rightarrow> string option \<Rightarrow> SyncConfig" where
  \<comment> \<open>the object \<open>config\<close> of \<open>handleSync\<close>, given what \<open>SYNC_STORE.get('lastSync')\<close> answered\<close>
  "make_config env stored =
     \<lparr>debug = (DEBUG env = Some ''true''),
      postsToSync = posts_to_sync (POSTS_TO_SYNC env),
      ignoreReposts = (IGNORE_REPOSTS env = Some ''true''),
      lastSync = js_or (js_or stored (LAST_SYNC env)) None,
      mastodonUrl = MASTODON_URL env,
      mastodonUsername = MASTODON_USERNAME env,
      mastodonAccessToken = MASTODON_ACCESS_TOKEN env,
      blueskyUsername = BLUESKY_USERNAME env,
      blueskyPassword = BLUESKY_PASSWORD env,
      dryRun = (DRY_RUN env = Some ''true'')\<rparr>"

definition handleSync :: "'s platform \<Rightarrow> worker_env \<Rightarrow> 's world \<Rightarrow> (js_error + report) \<times> 's world" where
  \<comment> \<open>\<open>Inl\<close>: the promise of \<open>handleSync\<close> is rejected, which only the read of the store, made
      outside the \<open>try\<close>, can cause.\<close>
  "handleSync E env w =
     (case perform (KvGet ''lastSync'') (kv_get E ''lastSync'') w of
        (Inl error, w0) \<Rightarrow> (Inl error, w0)
      | (Inr stored, w0) \<Rightarrow>
          let config = make_config env stored;
              syncService = constructor config
          in
          (case sync E syncService w0 of
             (Inl error, w1) \<Rightarrow>
               (Inr (Failed (dryRun config) (message error)
                       (if debug config then Some error else None)), w1)
           | (Inr results, w1) \<Rightarrow>
               if \<not> dryRun config then
                 (case perform (KvPut ''lastSync'' (results_timestamp results))
                         (kv_put E ''lastSync'' (results_timestamp results)) w1 of
                    (Inl error, w2) \<Rightarrow>
                      (Inr (Failed (dryRun config) (message error)
                              (if debug config then Some error else None)), w2)
                  | (Inr _, w2) \<Rightarrow>
                      (Inr (Succeeded (dryRun config) (results_timestamp results)
                              (length (blueskyToMastodon results))
                              (length (mastodonToBluesky results))
                              (if debug config then Some results else None)), w2))
               else
                 (Inr (Succeeded (dryRun config) (results_timestamp results)
                         (length (blueskyToMastodon results))
                         (length (mastodonToBluesky results))
                         (if debug config then Some results else None)), w1)))"

section \<open>A scripted world for concrete runs\<close>

text \<open>
  The concrete runs below use a world whose state is the number of calls made so far.
  Every operation counts one call; \<open>failing\<close> tells which calls throw, and what. The clock
  shows the count, and a date is the number a string starts with.
\<close>

definition answer :: "(nat \<Rightarrow> js_error option) \<Rightarrow> 'a \<Rightarrow> nat \<Rightarrow> (js_error + 'a) \<times> nat" where
  "answer failing v s = (case failing s of Some e \<Rightarrow> (Inl e, Suc s) | None \<Rightarrow> (Inr v, Suc s))"

definition http_ok :: "'j \<Rightarrow> 'j http_response" where
  "http_ok j = \<lparr>ok = True, http_status = 200, body_text = [], body_json = Inr j\<rparr>"

definition scripted ::
  "bsky_feed_item list \<Rightarrow> mastodon_status list \<Rightarrow> string option \<Rightarrow> (nat \<Rightarrow> js_error option) \<Rightarrow> nat platform" where
  "scripted feed timeline stored failing =
     \<lparr>date_value = (\<lambda>s. parseInt (Some s)),
      clock = show_nat,
      timer = (\<lambda>ms s. s),
      kv_get = (\<lambda>key. answer failing stored),
      kv_put = (\<lambda>key v. answer failing ()),
      fetch_instance = (\<lambda>request. answer failing (http_ok ())),
      fetch_account = (\<lambda>request. answer failing (http_ok ())),
      fetch_timeline = (\<lambda>request. answer failing (http_ok timeline)),
      fetch_created = (\<lambda>request s. answer failing (http_ok (''m'' @ show_nat s)) s),
      bsky_login = (\<lambda>identifier password. answer failing ()),
      bsky_getAuthorFeed = (\<lambda>actor limit. answer failing feed),
      bsky_post = (\<lambda>text createdAt s. answer failing (''at://'' @ show_nat s) s)\<rparr>"

definition too_many :: js_error where
  "too_many = \<lparr>message = ''Too Many Requests'', status = Some 429\<rparr>"

definition refused :: js_error where
  "refused = Error ''Mastodon API error: 422 Validation failed''"

definition start :: "nat world" where
  "start = \<lparr>remote = 0, trace = []\<rparr>"


definition demo_config :: "bool \<Rightarrow> bool \<Rightarrow> string option \<Rightarrow> SyncConfig" where
  "demo_config dry ignore since =
     \<lparr>debug = False, postsToSync = 10, ignoreReposts = ignore, lastSync = since,
      mastodonUrl = ''https://m.example'', mastodonUsername = ''jerdog'',
      mastodonAccessToken = ''token'', blueskyUsername = ''jerdog.dev'',
      blueskyPassword = ''secret'', dryRun = dry\<rparr>"

definition skeet :: "string \<Rightarrow> string \<Rightarrow> bool \<Rightarrow> string \<Rightarrow> bsky_feed_item" where
  \<comment> \<open>a post of the account itself\<close>
  "skeet u t r x =
     \<lparr>uri = u, indexedAt = t, reason_repost = False, record_reply = r, record_text = x\<rparr>"

definition reposted :: "string \<Rightarrow> string \<Rightarrow> string \<Rightarrow> bsky_feed_item" where
  \<comment> \<open>a repost in the feed of the account: the post of another account, with a reason\<close>
  "reposted u t x =
     \<lparr>uri = u, indexedAt = t, reason_repost = True, record_reply = False, record_text = x\<rparr>"

definition reposting :: "nat platform" where
  "reposting = scripted [reposted ''at://b/7'' ''9'' ''a post of somebody else''] [] None (\<lambda>n. None)"

definition toot :: "string \<Rightarrow> string \<Rightarrow> bool \<Rightarrow> string \<Rightarrow> string \<Rightarrow> mastodon_status" where
  "toot i t r a x = \<lparr>status_id = i, created_at = t, reblog = r, account_username = a, content = x\<rparr>"

definition skeets :: "bsky_feed_item list" where
  "skeets =
     [skeet ''at://a/3'' ''9'' False ''third'',
      skeet ''at://a/2'' ''8'' True ''second, a reply'',
      skeet ''at://a/1'' ''3'' False ''first'']"

definition toots :: "mastodon_status list" where
  "toots =
     [toot ''103'' ''9'' False ''JerDog'' ''<p>Hi</p>'',
      toot ''102'' ''8'' True ''jerdog'' ''<p>boost</p>'',
      toot ''101'' ''7'' False ''alice'' ''<p>other</p>'',
      toot ''100'' ''3'' False ''jerdog'' ''old'']"

definition quiet :: "nat platform" where
  "quiet = scripted skeets toots None (\<lambda>n. None)"

definition flaky :: "nat platform" where
  "flaky =
     scripted
       [skeet ''at://a/3'' ''9'' False ''third'', skeet ''at://a/2'' ''8'' False ''second'',
        skeet ''at://a/1'' ''7'' False ''first'']
       [toot ''103'' ''9'' False ''jerdog'' ''<p>three</p>'',
        toot ''102'' ''8'' False ''jerdog'' ''<p>two</p>'',
        toot ''101'' ''7'' False ''jerdog'' ''<p>one</p>'']
       None (\<lambda>n. if n = 2 then Some refused else None)"

definition down :: "nat platform" where
  "down =
     scripted [skeet ''at://a/2'' ''8'' True ''second, a reply'']
       [toot ''102'' ''8'' True ''jerdog'' ''<p>boost</p>'']
       None (\<lambda>n. if n = 1 then Some refused else None)"

definition demo_env :: "string option \<Rightarrow> string option \<Rightarrow> worker_env" where
  "demo_env posts dry =
     \<lparr>DEBUG = Some ''false'', POSTS_TO_SYNC = posts, IGNORE_REPOSTS = Some ''true'',
      DRY_RUN = dry, LAST_SYNC = None, MASTODON_URL = ''https://m.example'',
      MASTODON_USERNAME = ''jerdog'', MASTODON_ACCESS_TOKEN = ''token'',
      BLUESKY_USERNAME = ''jerdog.dev'', BLUESKY_PASSWORD = ''secret''\<rparr>"

section \<open>Properties of the rate-limit guard\<close>

lemma withRateLimit_loop_success:
  "i < retries \<Longrightarrow> fn w = (Inr v, w') \<Longrightarrow> withRateLimit_loop E fn retries i w = (Inr v, w')"
  by (simp add: withRateLimit_loop.simps)

lemma withRateLimit_loop_retry:
  "i < retries \<Longrightarrow> fn w = (Inl e, w') \<Longrightarrow> is_rate_limited e \<Longrightarrow>
   withRateLimit_loop E fn retries i w =
     withRateLimit_loop E fn retries (Suc i) (setTimeout E (2 ^ i * 1000) w')"
  by (subst withRateLimit_loop.simps) simp

lemma withRateLimit_loop_other:
  "i < retries \<Longrightarrow> fn w = (Inl e, w') \<Longrightarrow> \<not> is_rate_limited e \<Longrightarrow>
   withRateLimit_loop E fn retries i w = (Inl e, w')"
  by (simp add: withRateLimit_loop.simps)

lemma withRateLimit_loop_exhausted:
  "\<not> i < retries \<Longrightarrow>
   withRateLimit_loop E fn retries i w =
     (Inl (Error (''Failed after '' @ show_nat retries @ '' retries'')), w)"
  by (simp add: withRateLimit_loop.simps)

lemma set_show_nat: "set (show_nat n) \<subseteq> set ''0123456789''"
proof (induction n rule: show_nat.induct)
  case (1 n)
  show ?case
  proof (cases "n < 10")
    case True
    then have "n \<in> {0,1,2,3,4,5,6,7,8,9}" by auto
    then show ?thesis by (subst show_nat.simps) auto
  next
    case False
    have "n mod 10 \<in> {0,1,2,3,4,5,6,7,8,9}" by (simp; presburger)
    then have "''0123456789'' ! (n mod 10) \<in> set ''0123456789''" by auto
    with 1 False show ?thesis by (subst show_nat.simps) auto
  qed
qed

lemma startsWith_set: "startsWith s p \<Longrightarrow> set p \<subseteq> set s"
  by (induction s p rule: startsWith.induct) auto

lemma str_includes_set: "str_includes s p \<Longrightarrow> set p \<subseteq> set s"
proof (induction s p rule: str_includes.induct)
  case (1 sub)
  then show ?case by simp
next
  case (2 x xs sub)
  from 2(2) have "startsWith (x # xs) sub \<or> str_includes xs sub" by simp
  then show ?case
  proof
    assume "startsWith (x # xs) sub"
    then show ?thesis by (rule startsWith_set)
  next
    assume "str_includes xs sub"
    then have "set sub \<subseteq> set xs" by (rule 2(1))
    then show ?thesis by auto
  qed
qed

lemma exhausted_error_not_rate_limited:
  "\<not> is_rate_limited (Error (''Failed after '' @ show_nat retries @ '' retries''))"
proof -
  have "CHR ''m'' \<notin> set (''Failed after '' @ show_nat retries @ '' retries'')"
    using set_show_nat [of retries] by auto
  moreover have "CHR ''m'' \<in> set ''rate limit''" by simp
  ultimately have "\<not> str_includes (''Failed after '' @ show_nat retries @ '' retries'') ''rate limit''"
    using str_includes_set by blast
  then show ?thesis by (simp add: is_rate_limited_def Error_def)
qed

lemma withRateLimit_twice_429:
  fixes E :: "'s platform" and op :: "'s \<Rightarrow> (js_error + 'a) \<times> 's"
  assumes "op s0 = (Inl e1, s1)" "status e1 = Some 429"
    and "op (timer E 1000 s1) = (Inl e2, s2)" "status e2 = Some 429"
    and "op (timer E 2000 s2) = (Inr v, s3)"
  shows "withRateLimit E (perform c op) 3 \<lparr>remote = s0, trace = t\<rparr>
         = (Inr v, \<lparr>remote = s3, trace = t @ [c, SetTimeout 1000, c, SetTimeout 2000, c]\<rparr>)"
  using assms
  by (simp add: withRateLimit_def withRateLimit_loop.simps perform_def setTimeout_def
        is_rate_limited_def)

lemma withRateLimit_loop_attempts:
  fixes E :: "'s platform" and op :: "'s \<Rightarrow> (js_error + 'a) \<times> 's"
  assumes "\<And>ms. c \<noteq> SetTimeout ms"
  shows "length (filter (\<lambda>x. x = c) (trace (snd (withRateLimit_loop E (perform c op) retries i w))))
         \<le> length (filter (\<lambda>x. x = c) (trace w)) + (retries - i)"
proof (induction E "perform c op :: 's world \<Rightarrow> (js_error + 'a) \<times> 's world" retries i w
       rule: withRateLimit_loop.induct)
  case (1 E retries i w)
  show ?case
  proof (cases "i < retries")
    case False
    then show ?thesis by (simp add: withRateLimit_loop.simps)
  next
    case True
    obtain r s' where op: "op (remote w) = (r, s')" by (cases "op (remote w)")
    let ?w' = "\<lparr>remote = s', trace = trace w @ [c]\<rparr>"
    have pf: "perform c op w = (r, ?w')" by (simp add: perform_def op)
    show ?thesis
    proof (cases r)
      case (Inr v)
      with True pf show ?thesis by (simp add: withRateLimit_loop.simps)
    next
      case (Inl e)
      show ?thesis
      proof (cases "is_rate_limited e")
        case False
        with True pf Inl show ?thesis by (simp add: withRateLimit_loop.simps)
      next
        case rl: True
        have IH: "length (filter (\<lambda>x. x = c)
                    (trace (snd (withRateLimit_loop E (perform c op) retries (Suc i)
                                   (setTimeout E (2 ^ i * 1000) ?w')))))
                  \<le> length (filter (\<lambda>x. x = c) (trace (setTimeout E (2 ^ i * 1000) ?w')))
                    + (retries - Suc i)"
          using "1.hyps" [OF True pf [unfolded Inl, symmetric] refl rl] by simp
        have "withRateLimit_loop E (perform c op) retries i w
              = withRateLimit_loop E (perform c op) retries (Suc i) (setTimeout E (2 ^ i * 1000) ?w')"
          using True pf Inl rl by (simp add: withRateLimit_loop_retry)
        moreover have "SetTimeout (2 ^ i * 1000) \<noteq> c" using assms [of "2 ^ i * 1000"] by auto
        ultimately show ?thesis using IH True by (simp add: setTimeout_def)
      qed
    qed
  qed
qed

lemma withRateLimit_loop_always_limited:
  fixes E :: "'s platform" and op :: "'s \<Rightarrow> (js_error + 'a) \<times> 's"
  assumes "\<And>s. \<exists>e s'. op s = (Inl e, s') \<and> is_rate_limited e"
  shows "fst (withRateLimit_loop E (perform c op) retries i w)
           = Inl (Error (''Failed after '' @ show_nat retries @ '' retries''))
         \<and> trace (snd (withRateLimit_loop E (perform c op) retries i w))
           = trace w @ concat (map (\<lambda>j. [c, SetTimeout (2 ^ j * 1000)]) [i..<retries])"
proof (induction E "perform c op :: 's world \<Rightarrow> (js_error + 'a) \<times> 's world" retries i w
       rule: withRateLimit_loop.induct)
  case (1 E retries i w)
  show ?case
  proof (cases "i < retries")
    case False
    then show ?thesis by (simp add: withRateLimit_loop.simps)
  next
    case True
    obtain e s' where op: "op (remote w) = (Inl e, s')" and rl: "is_rate_limited e"
      using assms by blast
    let ?w' = "\<lparr>remote = s', trace = trace w @ [c]\<rparr>"
    have pf: "perform c op w = (Inl e, ?w')" by (simp add: perform_def op)
    have IH: "fst (withRateLimit_loop E (perform c op) retries (Suc i) (setTimeout E (2 ^ i * 1000) ?w'))
                = Inl (Error (''Failed after '' @ show_nat retries @ '' retries''))
              \<and> trace (snd (withRateLimit_loop E (perform c op) retries (Suc i) (setTimeout E (2 ^ i * 1000) ?w')))
                = trace (setTimeout E (2 ^ i * 1000) ?w')
                  @ concat (map (\<lambda>j. [c, SetTimeout (2 ^ j * 1000)]) [Suc i..<retries])"
      using "1.hyps" [OF True pf [symmetric] refl rl] by simp
    have step: "withRateLimit_loop E (perform c op) retries i w
              = withRateLimit_loop E (perform c op) retries (Suc i) (setTimeout E (2 ^ i * 1000) ?w')"
      using True pf rl by (simp add: withRateLimit_loop_retry)
    have "[i..<retries] = i # [Suc i..<retries]" using True by (simp add: upt_conv_Cons)
    with IH step show ?thesis by (simp add: setTimeout_def)
  qed
qed

section \<open>Properties of the two directions\<close>

subsection \<open>publish-free traces\<close>

lemma withRateLimit_loop_publishes:
  assumes "\<And>w. publishes (snd (fn w)) = publishes w"
  shows "publishes (snd (withRateLimit_loop E fn retries i w)) = publishes w"
  using assms
proof (induction E fn retries i w rule: withRateLimit_loop.induct)
  case (1 E fn retries i w)
  note inv = "1.prems"
  show ?case
  proof (cases "i < retries")
    case False
    then show ?thesis by (simp add: withRateLimit_loop.simps)
  next
    case True
    obtain r w' where fw: "fn w = (r, w')" by (cases "fn w")
    have pw': "publishes w' = publishes w" using inv [of w] fw by simp
    show ?thesis
    proof (cases r)
      case (Inr v)
      with True fw pw' show ?thesis by (simp add: withRateLimit_loop.simps)
    next
      case (Inl e)
      show ?thesis
      proof (cases "is_rate_limited e")
        case False
        with True fw Inl pw' show ?thesis by (simp add: withRateLimit_loop.simps)
      next
        case rl: True
        have "publishes (snd (withRateLimit_loop E fn retries (Suc i) (setTimeout E (2 ^ i * 1000) w')))
              = publishes (setTimeout E (2 ^ i * 1000) w')"
          using "1.IH" [OF True fw [unfolded Inl, symmetric] refl rl inv] .
        moreover have "publishes (setTimeout E (2 ^ i * 1000) w') = publishes w'"
          by (simp add: publishes_def setTimeout_def is_publish_def)
        ultimately show ?thesis
          using True fw Inl rl pw' by (simp add: withRateLimit_loop_retry)
      qed
    qed
  qed
qed

lemma perform_publishes:
  "\<not> is_publish c \<Longrightarrow> publishes (snd (perform c op w)) = publishes w"
  by (simp add: perform_def publishes_def split: prod.splits)

lemma mastodonRequest_GET_publishes:
  "publishes (snd (mastodonRequest fetch this endpoint ''GET'' body w)) = publishes w"
  by (simp add: mastodonRequest_def perform_def publishes_def is_publish_def Let_def
      split: prod.splits sum.splits)

lemma fetch_bluesky_publishes: "publishes (snd (fetch_bluesky E this w)) = publishes w"
  unfolding fetch_bluesky_def withRateLimit_def
  by (rule withRateLimit_loop_publishes) (simp add: perform_publishes is_publish_def)

lemma fetch_mastodon_publishes: "publishes (snd (fetch_mastodon E this w)) = publishes w"
  unfolding fetch_mastodon_def withRateLimit_def
  by (rule withRateLimit_loop_publishes) (rule mastodonRequest_GET_publishes)

subsection \<open>Bluesky loop\<close>

lemma bluesky_step_skip:
  "older_than_lastSync E this (indexedAt p) \<or> (this_ignoreReposts this \<and> record_reply p) \<Longrightarrow>
   bluesky_post_step E this p w = (None, w)"
  by (auto simp: bluesky_post_step_def)

lemma bluesky_step_dry:
  "\<not> older_than_lastSync E this (indexedAt p) \<Longrightarrow> \<not> (this_ignoreReposts this \<and> record_reply p) \<Longrightarrow>
   this_dryRun this \<Longrightarrow>
   bluesky_post_step E this p w = (Some (bluesky_record this p ''DRY_RUN''), w)"
  by (auto simp: bluesky_post_step_def)

lemma bluesky_step_published:
  "\<not> older_than_lastSync E this (indexedAt p) \<Longrightarrow> \<not> (this_ignoreReposts this \<and> record_reply p) \<Longrightarrow>
   \<not> this_dryRun this \<Longrightarrow> publish_to_mastodon E this (record_text p) w = (Inr target, w') \<Longrightarrow>
   bluesky_post_step E this p w = (Some (bluesky_record this p target), w')"
  by (auto simp: bluesky_post_step_def)

lemma bluesky_step_failed:
  "\<not> this_dryRun this \<Longrightarrow> publish_to_mastodon E this (record_text p) w = (Inl e, w') \<Longrightarrow>
   \<exists>w''. bluesky_post_step E this p w = (None, w'')"
  by (auto simp: bluesky_post_step_def)

lemma bluesky_step_failed_eq:
  "\<not> older_than_lastSync E this (indexedAt p) \<Longrightarrow> \<not> (this_ignoreReposts this \<and> record_reply p) \<Longrightarrow>
   \<not> this_dryRun this \<Longrightarrow> publish_to_mastodon E this (record_text p) w = (Inl e, w') \<Longrightarrow>
   bluesky_post_step E this p w = (None, w')"
  by (auto simp: bluesky_post_step_def)

lemma bluesky_step_Some:
  assumes "bluesky_post_step E this p w = (Some sp, w')"
  shows "\<not> older_than_lastSync E this (indexedAt p) \<and> \<not> (this_ignoreReposts this \<and> record_reply p)
         \<and> (\<exists>target. sp = bluesky_record this p target
              \<and> (if this_dryRun this then target = ''DRY_RUN'' \<and> w' = w
                  else publish_to_mastodon E this (record_text p) w = (Inr target, w')))"
  using assms
  by (auto simp: bluesky_post_step_def Let_def split: if_splits prod.splits sum.splits)

lemma bluesky_loop_acc:
  "bluesky_loop E this feed acc w
   = (acc @ fst (bluesky_loop E this feed [] w), snd (bluesky_loop E this feed [] w))"
proof (induction feed arbitrary: acc w)
  case Nil
  then show ?case by simp
next
  case (Cons p feed)
  obtain r w' where st: "bluesky_post_step E this p w = (r, w')"
    by (cases "bluesky_post_step E this p w")
  show ?case
  proof (cases r)
    case None
    with st Cons [of acc w'] show ?thesis by simp
  next
    case (Some sp)
    with st Cons [of "acc @ [sp]" w'] Cons [of "[sp]" w'] show ?thesis by simp
  qed
qed

lemma bluesky_loop_append:
  "bluesky_loop E this (xs @ ys) acc w
   = (case bluesky_loop E this xs acc w of (acc', w') \<Rightarrow> bluesky_loop E this ys acc' w')"
  by (induction xs arbitrary: acc w) (auto split: prod.splits option.splits)

lemma bluesky_loop_filter:
  assumes "\<And>p w. p \<in> set feed \<Longrightarrow> \<not> keep p \<Longrightarrow> bluesky_post_step E this p w = (None, w)"
  shows "bluesky_loop E this (filter keep feed) acc w = bluesky_loop E this feed acc w"
  using assms by (induction feed arbitrary: acc w) (auto split: prod.splits option.splits)

lemma bluesky_loop_mem:
  assumes "sp \<in> set (fst (bluesky_loop E this feed acc w))"
  shows "sp \<in> set acc \<or> (\<exists>p \<in> set feed. \<exists>w1 w2. bluesky_post_step E this p w1 = (Some sp, w2))"
  using assms
proof (induction feed arbitrary: acc w)
  case Nil
  then show ?case by simp
next
  case (Cons p feed)
  obtain r w' where st: "bluesky_post_step E this p w = (r, w')"
    by (cases "bluesky_post_step E this p w")
  show ?case
  proof (cases r)
    case None
    with st Cons.prems have "sp \<in> set (fst (bluesky_loop E this feed acc w'))" by simp
    from Cons.IH [OF this] show ?thesis by auto
  next
    case (Some x)
    with st Cons.prems have "sp \<in> set (fst (bluesky_loop E this feed (acc @ [x]) w'))" by simp
    from Cons.IH [OF this] st Some show ?thesis by auto
  qed
qed

lemma bluesky_step_dry_publishes:
  "this_dryRun this \<Longrightarrow> snd (bluesky_post_step E this p w) = w"
  by (auto simp: bluesky_post_step_def)

lemma bluesky_loop_dry_world:
  "this_dryRun this \<Longrightarrow> snd (bluesky_loop E this feed acc w) = w"
proof (induction feed arbitrary: acc w)
  case Nil
  then show ?case by simp
next
  case (Cons p feed)
  obtain r w' where st: "bluesky_post_step E this p w = (r, w')"
    by (cases "bluesky_post_step E this p w")
  with bluesky_step_dry_publishes [OF Cons.prems, of E p w] have "w' = w" by simp
  with st Cons show ?case by (cases r) auto
qed

lemma syncFromBluesky_split:
  assumes "fetch_bluesky E this w = (Inr (pre @ p # post), w0)"
    and "bluesky_loop E this pre [] w0 = (out1, w1)"
    and "bluesky_post_step E this p w1 = (r, w2)"
  shows "syncFromBluesky E this w
         = (Inr (out1 @ (case r of None \<Rightarrow> [] | Some sp \<Rightarrow> [sp]) @ fst (bluesky_loop E this post [] w2)),
            snd (bluesky_loop E this post [] w2))"
proof -
  have "bluesky_loop E this (pre @ p # post) [] w0
        = bluesky_loop E this post (out1 @ (case r of None \<Rightarrow> [] | Some sp \<Rightarrow> [sp])) w2"
    using assms(2,3) by (simp add: bluesky_loop_append split: option.splits)
  also have "\<dots> = (out1 @ (case r of None \<Rightarrow> [] | Some sp \<Rightarrow> [sp]) @ fst (bluesky_loop E this post [] w2),
                   snd (bluesky_loop E this post [] w2))"
    by (subst bluesky_loop_acc) simp
  finally show ?thesis using assms(1) by (simp add: syncFromBluesky_def)
qed

lemma mastodon_step_skip:
  "older_than_lastSync E this (created_at p) \<or> (this_ignoreReposts this \<and> reblog p)
   \<or> toLowerCase (account_username p) \<noteq> toLowerCase (mastodonUsername (this_config this)) \<Longrightarrow>
   mastodon_post_step E this p w = (None, w)"
  by (auto simp: mastodon_post_step_def)

lemma mastodon_step_dry:
  "\<not> older_than_lastSync E this (created_at p) \<Longrightarrow> \<not> (this_ignoreReposts this \<and> reblog p) \<Longrightarrow>
   toLowerCase (account_username p) = toLowerCase (mastodonUsername (this_config this)) \<Longrightarrow>
   this_dryRun this \<Longrightarrow>
   mastodon_post_step E this p w = (Some (mastodon_record this p ''DRY_RUN''), w)"
  by (auto simp: mastodon_post_step_def)

lemma mastodon_step_published:
  "\<not> older_than_lastSync E this (created_at p) \<Longrightarrow> \<not> (this_ignoreReposts this \<and> reblog p) \<Longrightarrow>
   toLowerCase (account_username p) = toLowerCase (mastodonUsername (this_config this)) \<Longrightarrow>
   \<not> this_dryRun this \<Longrightarrow>
   publish_to_bluesky E (cleanMastodonContent (content p)) w = (Inr target, w') \<Longrightarrow>
   mastodon_post_step E this p w = (Some (mastodon_record this p target), w')"
  by (auto simp: mastodon_post_step_def)

lemma mastodon_step_failed_eq:
  "\<not> older_than_lastSync E this (created_at p) \<Longrightarrow> \<not> (this_ignoreReposts this \<and> reblog p) \<Longrightarrow>
   toLowerCase (account_username p) = toLowerCase (mastodonUsername (this_config this)) \<Longrightarrow>
   \<not> this_dryRun this \<Longrightarrow>
   publish_to_bluesky E (cleanMastodonContent (content p)) w = (Inl e, w') \<Longrightarrow>
   mastodon_post_step E this p w = (None, w')"
  by (auto simp: mastodon_post_step_def)

lemma mastodon_step_Some:
  assumes "mastodon_post_step E this p w = (Some sp, w')"
  shows "\<not> older_than_lastSync E this (created_at p) \<and> \<not> (this_ignoreReposts this \<and> reblog p)
         \<and> toLowerCase (account_username p) = toLowerCase (mastodonUsername (this_config this))
         \<and> (\<exists>target. sp = mastodon_record this p target
              \<and> (if this_dryRun this then target = ''DRY_RUN'' \<and> w' = w
                  else publish_to_bluesky E (cleanMastodonContent (content p)) w = (Inr target, w')))"
  using assms
  by (auto simp: mastodon_post_step_def Let_def split: if_splits prod.splits sum.splits)

lemma mastodon_loop_acc:
  "mastodon_loop E this tml acc w
   = (acc @ fst (mastodon_loop E this tml [] w), snd (mastodon_loop E this tml [] w))"
proof (induction tml arbitrary: acc w)
  case Nil
  then show ?case by simp
next
  case (Cons p tml)
  obtain r w' where st: "mastodon_post_step E this p w = (r, w')"
    by (cases "mastodon_post_step E this p w")
  show ?case
  proof (cases r)
    case None
    with st Cons [of acc w'] show ?thesis by simp
  next
    case (Some sp)
    with st Cons [of "acc @ [sp]" w'] Cons [of "[sp]" w'] show ?thesis by simp
  qed
qed

lemma mastodon_loop_append:
  "mastodon_loop E this (xs @ ys) acc w
   = (case mastodon_loop E this xs acc w of (acc', w') \<Rightarrow> mastodon_loop E this ys acc' w')"
  by (induction xs arbitrary: acc w) (auto split: prod.splits option.splits)

lemma mastodon_loop_filter:
  assumes "\<And>p w. p \<in> set tml \<Longrightarrow> \<not> keep p \<Longrightarrow> mastodon_post_step E this p w = (None, w)"
  shows "mastodon_loop E this (filter keep tml) acc w = mastodon_loop E this tml acc w"
  using assms by (induction tml arbitrary: acc w) (auto split: prod.splits option.splits)

lemma mastodon_loop_mem:
  assumes "sp \<in> set (fst (mastodon_loop E this tml acc w))"
  shows "sp \<in> set acc \<or> (\<exists>p \<in> set tml. \<exists>w1 w2. mastodon_post_step E this p w1 = (Some sp, w2))"
  using assms
proof (induction tml arbitrary: acc w)
  case Nil
  then show ?case by simp
next
  case (Cons p tml)
  obtain r w' where st: "mastodon_post_step E this p w = (r, w')"
    by (cases "mastodon_post_step E this p w")
  show ?case
  proof (cases r)
    case None
    with st Cons.prems have "sp \<in> set (fst (mastodon_loop E this tml acc w'))" by simp
    from Cons.IH [OF this] show ?thesis by auto
  next
    case (Some x)
    with st Cons.prems have "sp \<in> set (fst (mastodon_loop E this tml (acc @ [x]) w'))" by simp
    from Cons.IH [OF this] st Some show ?thesis by auto
  qed
qed

lemma mastodon_step_dry_world:
  "this_dryRun this \<Longrightarrow> snd (mastodon_post_step E this p w) = w"
  by (auto simp: mastodon_post_step_def)

lemma mastodon_loop_dry_world:
  "this_dryRun this \<Longrightarrow> snd (mastodon_loop E this tml acc w) = w"
proof (induction tml arbitrary: acc w)
  case Nil
  then show ?case by simp
next
  case (Cons p tml)
  obtain r w' where st: "mastodon_post_step E this p w = (r, w')"
    by (cases "mastodon_post_step E this p w")
  with mastodon_step_dry_world [OF Cons.prems, of E p w] have "w' = w" by simp
  with st Cons show ?case by (cases r) auto
qed

lemma syncFromMastodon_split:
  assumes "fetch_mastodon E this w = (Inr (pre @ p # post), w0)"
    and "mastodon_loop E this pre [] w0 = (out1, w1)"
    and "mastodon_post_step E this p w1 = (r, w2)"
  shows "syncFromMastodon E this w
         = (Inr (out1 @ (case r of None \<Rightarrow> [] | Some sp \<Rightarrow> [sp]) @ fst (mastodon_loop E this post [] w2)),
            snd (mastodon_loop E this post [] w2))"
proof -
  have "mastodon_loop E this (pre @ p # post) [] w0
        = mastodon_loop E this post (out1 @ (case r of None \<Rightarrow> [] | Some sp \<Rightarrow> [sp])) w2"
    using assms(2,3) by (simp add: mastodon_loop_append split: option.splits)
  also have "\<dots> = (out1 @ (case r of None \<Rightarrow> [] | Some sp \<Rightarrow> [sp]) @ fst (mastodon_loop E this post [] w2),
                   snd (mastodon_loop E this post [] w2))"
    by (subst mastodon_loop_acc) simp
  finally show ?thesis using assms(1) by (simp add: syncFromMastodon_def)
qed

lemma constructor_simps [simp]:
  "this_config (constructor config) = config"
  "this_debug (constructor config) = debug config"
  "this_postsToSync (constructor config) = postsToSync config"
  "this_ignoreReposts (constructor config) = ignoreReposts config"
  "this_lastSync (constructor config) = lastSync config"
  "this_dryRun (constructor config) = dryRun config"
  by (simp_all add: constructor_def)

lemma syncFromBluesky_dry_publishes:
  assumes "this_dryRun this"
  shows "publishes (snd (syncFromBluesky E this w)) = publishes w"
proof (cases "fetch_bluesky E this w")
  case (Pair r w0)
  have p0: "publishes w0 = publishes w" using fetch_bluesky_publishes [of E this w] Pair by simp
  show ?thesis
  proof (cases r)
    case (Inl e)
    with Pair p0 show ?thesis by (simp add: syncFromBluesky_def)
  next
    case (Inr feed)
    have "snd (bluesky_loop E this feed [] w0) = w0" by (rule bluesky_loop_dry_world [OF assms])
    with Pair Inr p0 show ?thesis by (auto simp: syncFromBluesky_def split: prod.splits)
  qed
qed

lemma syncFromMastodon_dry_publishes:
  assumes "this_dryRun this"
  shows "publishes (snd (syncFromMastodon E this w)) = publishes w"
proof (cases "fetch_mastodon E this w")
  case (Pair r w0)
  have p0: "publishes w0 = publishes w" using fetch_mastodon_publishes [of E this w] Pair by simp
  show ?thesis
  proof (cases r)
    case (Inl e)
    with Pair p0 show ?thesis by (simp add: syncFromMastodon_def)
  next
    case (Inr tml)
    have "snd (mastodon_loop E this tml [] w0) = w0" by (rule mastodon_loop_dry_world [OF assms])
    with Pair Inr p0 show ?thesis by (auto simp: syncFromMastodon_def split: prod.splits)
  qed
qed

lemma syncFromBluesky_out:
  assumes "syncFromBluesky E this w = (Inr out, w')" "sp \<in> set out"
  shows "\<exists>feed w0. fetch_bluesky E this w = (Inr feed, w0)
           \<and> (\<exists>p \<in> set feed. \<exists>w1 w2. bluesky_post_step E this p w1 = (Some sp, w2))"
proof (cases "fetch_bluesky E this w")
  case (Pair r w0)
  show ?thesis
  proof (cases r)
    case (Inl e)
    with Pair assms show ?thesis by (simp add: syncFromBluesky_def)
  next
    case (Inr feed)
    with Pair assms have "sp \<in> set (fst (bluesky_loop E this feed [] w0))"
      by (auto simp: syncFromBluesky_def split: prod.splits)
    from bluesky_loop_mem [OF this] Pair Inr show ?thesis by auto
  qed
qed

lemma syncFromMastodon_out:
  assumes "syncFromMastodon E this w = (Inr out, w')" "sp \<in> set out"
  shows "\<exists>tml w0. fetch_mastodon E this w = (Inr tml, w0)
           \<and> (\<exists>p \<in> set tml. \<exists>w1 w2. mastodon_post_step E this p w1 = (Some sp, w2))"
proof (cases "fetch_mastodon E this w")
  case (Pair r w0)
  show ?thesis
  proof (cases r)
    case (Inl e)
    with Pair assms show ?thesis by (simp add: syncFromMastodon_def)
  next
    case (Inr tml)
    with Pair assms have "sp \<in> set (fst (mastodon_loop E this tml [] w0))"
      by (auto simp: syncFromMastodon_def split: prod.splits)
    from mastodon_loop_mem [OF this] Pair Inr show ?thesis by auto
  qed
qed

section \<open>Properties of the content normalizer\<close>

lemma ci_prefix_Some:
  "ci_prefix p s = Some r \<Longrightarrow> \<exists>u. s = u @ r \<and> map ascii_lower u = p"
proof (induction p s rule: ci_prefix.induct)
  case (1 s)
  then show ?case by simp
next
  case (2 p ps)
  then show ?case by simp
next
  case (3 p ps c cs)
  then have eq: "ascii_lower c = p" and rest: "ci_prefix ps cs = Some r"
    by (auto split: if_splits)
  from "3.IH" [OF eq rest] obtain u where "cs = u @ r" "map ascii_lower u = ps" by blast
  with eq have "c # cs = (c # u) @ r \<and> map ascii_lower (c # u) = p # ps" by simp
  then show ?case by (rule exI)
qed

lemma star_greedy_Some:
  "star_greedy P k s = Some r \<Longrightarrow> \<exists>g rest. s = g @ rest \<and> k g rest = Some r"
proof (induction s arbitrary: k)
  case Nil
  then show ?case by simp
next
  case (Cons c cs)
  show ?case
  proof (cases "P c \<and> star_greedy P (\<lambda>g. k (c # g)) cs \<noteq> None")
    case True
    with Cons.prems have "star_greedy P (\<lambda>g. k (c # g)) cs = Some r" by auto
    from Cons.IH [OF this] obtain g rest where "cs = g @ rest" "k (c # g) rest = Some r" by blast
    then have "c # cs = (c # g) @ rest \<and> k (c # g) rest = Some r" by simp
    then show ?thesis by blast
  next
    case False
    with Cons.prems have "k [] (c # cs) = Some r" by (auto split: if_splits option.splits)
    then have "c # cs = [] @ (c # cs) \<and> k [] (c # cs) = Some r" by simp
    then show ?thesis by blast
  qed
qed

lemma star_lazy_Some:
  "star_lazy P k s = Some r \<Longrightarrow> \<exists>g rest. s = g @ rest \<and> k g rest = Some r"
proof (induction s arbitrary: k)
  case Nil
  then show ?case by simp
next
  case (Cons c cs)
  show ?case
  proof (cases "k [] (c # cs)")
    case (Some x)
    with Cons.prems have "k [] (c # cs) = Some r" by simp
    then have "c # cs = [] @ (c # cs) \<and> k [] (c # cs) = Some r" by simp
    then show ?thesis by blast
  next
    case None
    with Cons.prems have "star_lazy P (\<lambda>g. k (c # g)) cs = Some r" by (auto split: if_splits)
    from Cons.IH [OF this] obtain g rest where "cs = g @ rest" "k (c # g) rest = Some r" by blast
    then have "c # cs = (c # g) @ rest \<and> k (c # g) rest = Some r" by simp
    then show ?thesis by blast
  qed
qed

lemma star_greedy_finds_gt:
  assumes "CHR ''>'' \<in> set s"
    and "\<And>g rest. k g (CHR ''>'' # rest) \<noteq> None"
  shows "star_greedy (\<lambda>c. c \<noteq> CHR ''>'') k s \<noteq> None"
  using assms
proof (induction s arbitrary: k)
  case Nil
  then show ?case by simp
next
  case (Cons c cs)
  show ?case
  proof (cases "c = CHR ''>''")
    case True
    with Cons.prems(2) [of "[]" cs] show ?thesis by simp
  next
    case False
    with Cons.prems(1) have "CHR ''>'' \<in> set cs" by simp
    from Cons.IH [OF this, of "\<lambda>g. k (c # g)"] Cons.prems(2)
    have "star_greedy (\<lambda>c. c \<noteq> CHR ''>'') (\<lambda>g. k (c # g)) cs \<noteq> None" by simp
    with False show ?thesis by (auto split: option.splits)
  qed
qed

lemma ascii_lower_fixed:
  assumes "of_char p < (65 :: nat)"
  shows "ascii_lower c = p \<longleftrightarrow> c = p"
proof (cases "65 \<le> (of_char c :: nat) \<and> (of_char c :: nat) \<le> 90")
  case False
  then show ?thesis by (auto simp: ascii_lower_def Let_def)
next
  case True
  then have "of_char (ascii_lower c) = (of_char c :: nat) + 32"
    by (simp add: ascii_lower_def Let_def)
  with True assms have "ascii_lower c \<noteq> p" "c \<noteq> p" by auto
  then show ?thesis by simp
qed

lemma ascii_lower_eq_lt [simp]: "ascii_lower c = CHR ''<'' \<longleftrightarrow> c = CHR ''<''"
  by (rule ascii_lower_fixed) simp

lemma ascii_lower_eq_gt [simp]: "ascii_lower c = CHR ''>'' \<longleftrightarrow> c = CHR ''>''"
  by (rule ascii_lower_fixed) simp

lemma ascii_lower_eq_newline [simp]: "ascii_lower c = newline \<longleftrightarrow> c = newline"
  by (rule ascii_lower_fixed) (simp add: newline_def)

lemma bind_SomeD: "Option.bind x f = Some r \<Longrightarrow> \<exists>y. x = Some y \<and> f y = Some r"
  by (simp add: Option.bind_eq_Some_conv)

lemma match_tag_iff: "match_tag s \<noteq> None \<longleftrightarrow> (\<exists>u. s = CHR ''<'' # u \<and> CHR ''>'' \<in> set u)"
proof
  assume "match_tag s \<noteq> None"
  then obtain r where m: "match_tag s = Some r" by auto
  then obtain t where p: "ci_prefix ''<'' s = Some t"
    and g: "star_greedy (\<lambda>c. c \<noteq> CHR ''>'')
              (\<lambda>_ t. Option.bind (ci_prefix ''>'' t) (\<lambda>rest. Some ([], rest))) t = Some r"
    using bind_SomeD [OF m [unfolded match_tag_def]] by blast
  from p have s: "s = CHR ''<'' # t" by (cases s) (auto split: if_splits)
  from star_greedy_Some [OF g] obtain g' rest where
    t: "t = g' @ rest" and br: "Option.bind (ci_prefix ''>'' rest) (\<lambda>rest. Some ([], rest)) = Some r"
    by blast
  from bind_SomeD [OF br] obtain r' where "ci_prefix ''>'' rest = Some r'" by blast
  then have "rest = CHR ''>'' # r'" by (cases rest) (auto split: if_splits)
  with t s show "\<exists>u. s = CHR ''<'' # u \<and> CHR ''>'' \<in> set u" by auto
next
  assume "\<exists>u. s = CHR ''<'' # u \<and> CHR ''>'' \<in> set u"
  then obtain u where s: "s = CHR ''<'' # u" and gt: "CHR ''>'' \<in> set u" by blast
  have "star_greedy (\<lambda>c. c \<noteq> CHR ''>'')
          (\<lambda>_ t. Option.bind (ci_prefix ''>'' t) (\<lambda>rest. Some ([], rest))) u \<noteq> None"
    by (rule star_greedy_finds_gt [OF gt]) simp
  with s show "match_tag s \<noteq> None" by (simp add: match_tag_def)
qed

lemma ci_prefix_lt_head:
  "ci_prefix (CHR ''<'' # ps) s = Some t \<Longrightarrow> \<exists>u. s = CHR ''<'' # u \<and> ci_prefix ps u = Some t"
  by (cases s) (auto split: if_splits)

lemma ci_prefix_gt_in:
  "ci_prefix p s = Some t \<Longrightarrow> CHR ''>'' \<in> set p \<Longrightarrow> CHR ''>'' \<in> set s"
proof -
  assume a: "ci_prefix p s = Some t" and b: "CHR ''>'' \<in> set p"
  from ci_prefix_Some [OF a] obtain u where u: "s = u @ t" "map ascii_lower u = p" by blast
  from b u(2) have "CHR ''>'' \<in> ascii_lower ` set u" by auto
  then obtain c where c: "c \<in> set u" "CHR ''>'' = ascii_lower c" by auto
  from c(2) have "c = CHR ''>''" using ascii_lower_eq_gt [of c] by auto
  with c(1) have "CHR ''>'' \<in> set u" by simp
  with u(1) show ?thesis by simp
qed

lemma ci_prefix_suffix_set: "ci_prefix p s = Some t \<Longrightarrow> set t \<subseteq> set s"
  using ci_prefix_Some by fastforce

lemma opt_char_Some:
  "opt_char x k s = Some r \<Longrightarrow> \<exists>t. k t = Some r \<and> set t \<subseteq> set s"
proof (cases s)
  case Nil
  assume "opt_char x k s = Some r"
  with Nil show ?thesis by (simp add: opt_char_def)
next
  case (Cons c cs)
  assume a: "opt_char x k s = Some r"
  show ?thesis
  proof (cases "c = x \<and> k cs \<noteq> None")
    case True
    with a Cons have "k cs = Some r" by (auto simp: opt_char_def)
    with Cons show ?thesis by auto
  next
    case False
    with a Cons have "k s = Some r" by (auto simp: opt_char_def split: if_splits option.splits)
    then show ?thesis by auto
  qed
qed

lemma match_br_tag: "match_br s \<noteq> None \<Longrightarrow> match_tag s \<noteq> None"
proof -
  assume "match_br s \<noteq> None"
  then obtain r where m: "match_br s = Some r" by auto
  then obtain t where p: "ci_prefix ''<br'' s = Some t"
    and g: "star_greedy is_js_space (\<lambda>_.
              opt_char CHR ''/'' (\<lambda>t.
                Option.bind (ci_prefix ''>'' t) (\<lambda>rest. Some ([newline], rest)))) t = Some r"
    using bind_SomeD [OF m [unfolded match_br_def]] by blast
  from ci_prefix_lt_head [OF p] obtain u where s: "s = CHR ''<'' # u" and pu: "ci_prefix ''br'' u = Some t"
    by blast
  from star_greedy_Some [OF g] obtain g' t1 where t: "t = g' @ t1"
    and o: "opt_char CHR ''/'' (\<lambda>t. Option.bind (ci_prefix ''>'' t) (\<lambda>rest. Some ([newline], rest))) t1 = Some r"
    by blast
  from opt_char_Some [OF o] obtain t2 where
    b2: "Option.bind (ci_prefix ''>'' t2) (\<lambda>rest. Some ([newline], rest)) = Some r"
    and sub: "set t2 \<subseteq> set t1"
    by blast
  from bind_SomeD [OF b2] obtain r' where "ci_prefix ''>'' t2 = Some r'" by blast
  note this sub
  then have "CHR ''>'' \<in> set t1" using ci_prefix_gt_in [of "''>''" t2 r'] by auto
  with t have "CHR ''>'' \<in> set t" by simp
  with ci_prefix_suffix_set [OF pu] have "CHR ''>'' \<in> set u" by auto
  with s show ?thesis using match_tag_iff [of s] by blast
qed

lemma match_p_tag: "match_p s \<noteq> None \<Longrightarrow> match_tag s \<noteq> None"
proof -
  assume "match_p s \<noteq> None"
  then obtain r where m: "match_p s = Some r" by auto
  from bind_SomeD [OF m [unfolded match_p_def]] obtain t where p: "ci_prefix ''<p>'' s = Some t"
    by blast
  from ci_prefix_lt_head [OF p] obtain u where s: "s = CHR ''<'' # u" and pu: "ci_prefix ''p>'' u = Some t"
    by blast
  from ci_prefix_gt_in [OF pu] have "CHR ''>'' \<in> set u" by simp
  with s show ?thesis using match_tag_iff [of s] by blast
qed

lemma match_a_tag: "match_a s \<noteq> None \<Longrightarrow> match_tag s \<noteq> None"
proof -
  assume "match_a s \<noteq> None"
  then obtain r where m: "match_a s = Some r" by auto
  then obtain t where p: "ci_prefix ''<a'' s = Some t"
    and g: "star_greedy (\<lambda>c. c \<noteq> CHR ''>'') (\<lambda>_ t.
          Option.bind (ci_prefix (''href='' @ [dquote]) t)
            (star_greedy (\<lambda>c. c \<noteq> dquote) (\<lambda>g1 t.
               Option.bind (ci_prefix [dquote] t)
                 (star_greedy (\<lambda>c. c \<noteq> CHR ''>'') (\<lambda>_ t.
                    Option.bind (ci_prefix ''>'' t)
                      (star_lazy (\<lambda>c. \<not> is_line_terminator c) (\<lambda>g2 t.
                         Option.bind (ci_prefix ''</a>'' t)
                           (\<lambda>rest. Some (g2 @ '' ('' @ g1 @ '')'', rest))))))))) t = Some r"
    using bind_SomeD [OF m [unfolded match_a_def]] by blast
  from ci_prefix_lt_head [OF p] obtain u where s: "s = CHR ''<'' # u" and pu: "ci_prefix ''a'' u = Some t"
    by blast
  from star_greedy_Some [OF g] obtain a1 t1 where t: "t = a1 @ t1"
    and b1: "Option.bind (ci_prefix (''href='' @ [dquote]) t1)
            (star_greedy (\<lambda>c. c \<noteq> dquote) (\<lambda>g1 t.
               Option.bind (ci_prefix [dquote] t)
                 (star_greedy (\<lambda>c. c \<noteq> CHR ''>'') (\<lambda>_ t.
                    Option.bind (ci_prefix ''>'' t)
                      (star_lazy (\<lambda>c. \<not> is_line_terminator c) (\<lambda>g2 t.
                         Option.bind (ci_prefix ''</a>'' t)
                           (\<lambda>rest. Some (g2 @ '' ('' @ g1 @ '')'', rest)))))))) = Some r"
    by blast
  from b1 obtain t2 where p2: "ci_prefix (''href='' @ [dquote]) t1 = Some t2"
    and g2: "star_greedy (\<lambda>c. c \<noteq> dquote) (\<lambda>g1 t.
               Option.bind (ci_prefix [dquote] t)
                 (star_greedy (\<lambda>c. c \<noteq> CHR ''>'') (\<lambda>_ t.
                    Option.bind (ci_prefix ''>'' t)
                      (star_lazy (\<lambda>c. \<not> is_line_terminator c) (\<lambda>g2 t.
                         Option.bind (ci_prefix ''</a>'' t)
                           (\<lambda>rest. Some (g2 @ '' ('' @ g1 @ '')'', rest))))))) t2 = Some r"
    using bind_SomeD [OF b1] by blast
  from star_greedy_Some [OF g2] obtain url t3 where t2: "t2 = url @ t3"
    and b3: "Option.bind (ci_prefix [dquote] t3)
                 (star_greedy (\<lambda>c. c \<noteq> CHR ''>'') (\<lambda>_ t.
                    Option.bind (ci_prefix ''>'' t)
                      (star_lazy (\<lambda>c. \<not> is_line_terminator c) (\<lambda>g2 t.
                         Option.bind (ci_prefix ''</a>'' t)
                           (\<lambda>rest. Some (g2 @ '' ('' @ url @ '')'', rest)))))) = Some r"
    by blast
  from b3 obtain t4 where p4: "ci_prefix [dquote] t3 = Some t4"
    and g4: "star_greedy (\<lambda>c. c \<noteq> CHR ''>'') (\<lambda>_ t.
                    Option.bind (ci_prefix ''>'' t)
                      (star_lazy (\<lambda>c. \<not> is_line_terminator c) (\<lambda>g2 t.
                         Option.bind (ci_prefix ''</a>'' t)
                           (\<lambda>rest. Some (g2 @ '' ('' @ url @ '')'', rest))))) t4 = Some r"
    using bind_SomeD [OF b3] by blast
  from star_greedy_Some [OF g4] obtain a5 t5 where t4: "t4 = a5 @ t5"
    and b5: "Option.bind (ci_prefix ''>'' t5)
                      (star_lazy (\<lambda>c. \<not> is_line_terminator c) (\<lambda>g2 t.
                         Option.bind (ci_prefix ''</a>'' t)
                           (\<lambda>rest. Some (g2 @ '' ('' @ url @ '')'', rest)))) = Some r"
    by blast
  from bind_SomeD [OF b5] obtain t6 where "ci_prefix ''>'' t5 = Some t6" by blast
  from ci_prefix_gt_in [OF this] have "CHR ''>'' \<in> set t5" by simp
  with t4 have "CHR ''>'' \<in> set t4" by simp
  with ci_prefix_suffix_set [OF p4] have "CHR ''>'' \<in> set t3" by auto
  with t2 have "CHR ''>'' \<in> set t2" by simp
  with ci_prefix_suffix_set [OF p2] have "CHR ''>'' \<in> set t1" by auto
  with t have "CHR ''>'' \<in> set t" by simp
  with ci_prefix_suffix_set [OF pu] have "CHR ''>'' \<in> set u" by auto
  with s show ?thesis using match_tag_iff [of s] by blast
qed

lemma replace_all_id: "(\<And>i. m (drop i s) = None) \<Longrightarrow> replace_all m s = s"
proof (induction s)
  case Nil
  then show ?case by simp
next
  case (Cons c cs)
  from Cons.prems [of 0] have h: "m (c # cs) = None" by simp
  have "\<And>i. m (drop i cs) = None" using Cons.prems [of "Suc _"] by simp
  from Cons.IH [OF this] h show ?case by simp
qed

lemma ci_prefix_startsWith:
  "ci_prefix p s = Some t \<Longrightarrow> \<forall>c \<in> set p. of_char c < (65 :: nat) \<Longrightarrow> startsWith s p"
proof (induction p s rule: ci_prefix.induct)
  case (1 s)
  then show ?case by simp
next
  case (2 p ps)
  then show ?case by simp
next
  case (3 p ps c cs)
  from "3.prems"(1) have eq: "ascii_lower c = p" and rest: "ci_prefix ps cs = Some t"
    by (auto split: if_splits)
  from "3.prems"(2) have "of_char p < (65 :: nat)" by simp
  from ascii_lower_fixed [OF this, of c] eq have "c = p" by simp
  moreover from "3.IH" [OF eq rest] "3.prems"(2) have "startsWith cs ps" by simp
  ultimately show ?case by simp
qed

lemma match_newlines_None:
  assumes "\<not> startsWith s [newline, newline, newline]"
  shows "match_newlines s = None"
proof (cases "ci_prefix [newline, newline, newline] s")
  case None
  then show ?thesis by (simp add: match_newlines_def)
next
  case (Some t)
  have "\<forall>c \<in> set [newline, newline, newline]. of_char c < (65 :: nat)" by (simp add: newline_def)
  from ci_prefix_startsWith [OF Some this] assms show ?thesis by simp
qed

lemma replace_all_newlines_id:
  "\<not> str_includes s [newline, newline, newline] \<Longrightarrow> replace_all match_newlines s = s"
proof (induction s)
  case Nil
  then show ?case by simp
next
  case (Cons c cs)
  from Cons.prems have a: "\<not> startsWith (c # cs) [newline, newline, newline]"
    and b: "\<not> str_includes cs [newline, newline, newline]" by simp_all
  from match_newlines_None [OF a] Cons.IH [OF b] show ?case by simp
qed

lemma clean_tag_free:
  assumes "\<And>i. match_tag (drop i s) = None"
  shows "cleanMastodonContent s = trim (replace_all match_newlines s)"
proof -
  have 1: "replace_all match_br s = s"
    by (rule replace_all_id) (use assms match_br_tag in blast)
  have 2: "replace_all match_p s = s"
    by (rule replace_all_id) (use assms match_p_tag in blast)
  have 3: "replace_all match_a s = s"
    by (rule replace_all_id) (use assms match_a_tag in blast)
  have 4: "replace_all match_tag s = s"
    by (rule replace_all_id) (use assms in blast)
  show ?thesis by (simp add: cleanMastodonContent_def 1 2 3 4)
qed

lemma no_lt_tag_free: "CHR ''<'' \<notin> set s \<Longrightarrow> match_tag (drop i s) = None"
proof -
  assume a: "CHR ''<'' \<notin> set s"
  have "\<not> (\<exists>u. drop i s = CHR ''<'' # u \<and> CHR ''>'' \<in> set u)"
  proof
    assume "\<exists>u. drop i s = CHR ''<'' # u \<and> CHR ''>'' \<in> set u"
    then have "CHR ''<'' \<in> set (drop i s)" by auto
    then have "CHR ''<'' \<in> set s" by (rule in_set_dropD)
    with a show False by simp
  qed
  then show ?thesis using match_tag_iff [of "drop i s"] by blast
qed

subsection \<open>Where an output record comes from\<close>

lemma syncFromBluesky_origin:
  assumes "syncFromBluesky E this w = (Inr out, w')" "sp \<in> set out"
  shows "\<exists>feed w0. fetch_bluesky E this w = (Inr feed, w0)
           \<and> (\<exists>p \<in> set feed. bluesky_kept E this p
                \<and> (\<exists>target. sp = bluesky_record this p target
                      \<and> (this_dryRun this \<longrightarrow> target = ''DRY_RUN'')))"
proof -
  from syncFromBluesky_out [OF assms] obtain feed w0 p w1 w2 where
    f: "fetch_bluesky E this w = (Inr feed, w0)" and p: "p \<in> set feed"
    and st: "bluesky_post_step E this p w1 = (Some sp, w2)" by blast
  from bluesky_step_Some [OF st] obtain target where
    "bluesky_kept E this p" "sp = bluesky_record this p target"
    "this_dryRun this \<longrightarrow> target = ''DRY_RUN''"
    by (auto split: if_splits)
  with f p show ?thesis by blast
qed

lemma syncFromMastodon_origin:
  assumes "syncFromMastodon E this w = (Inr out, w')" "sp \<in> set out"
  shows "\<exists>tml w0. fetch_mastodon E this w = (Inr tml, w0)
           \<and> (\<exists>p \<in> set tml. mastodon_kept E this p
                \<and> (\<exists>target. sp = mastodon_record this p target
                      \<and> (this_dryRun this \<longrightarrow> target = ''DRY_RUN'')))"
proof -
  from syncFromMastodon_out [OF assms] obtain tml w0 p w1 w2 where
    f: "fetch_mastodon E this w = (Inr tml, w0)" and p: "p \<in> set tml"
    and st: "mastodon_post_step E this p w1 = (Some sp, w2)" by blast
  from mastodon_step_Some [OF st] obtain target where
    "mastodon_kept E this p" "sp = mastodon_record this p target"
    "this_dryRun this \<longrightarrow> target = ''DRY_RUN''"
    by (auto split: if_splits)
  with f p show ?thesis by blast
qed

lemma syncFromBluesky_at:
  assumes "fetch_bluesky E this w = (Inr (pre @ p # post), w0)"
    and "bluesky_loop E this pre [] w0 = (out1, w1)"
    and "bluesky_post_step E this p w1 = (Some sp, w2)"
  shows "\<exists>rest w'. syncFromBluesky E this w = (Inr (out1 @ sp # rest), w')"
  using syncFromBluesky_split [OF assms] by simp

lemma syncFromBluesky_past:
  assumes "fetch_bluesky E this w = (Inr (pre @ p # post), w0)"
    and "bluesky_loop E this pre [] w0 = (out1, w1)"
    and "bluesky_post_step E this p w1 = (None, w2)"
  shows "syncFromBluesky E this w
         = (case bluesky_loop E this post out1 w2 of (out, w') \<Rightarrow> (Inr out, w'))"
proof -
  have "bluesky_loop E this (pre @ p # post) [] w0 = bluesky_loop E this post out1 w2"
    using assms(2,3) by (simp add: bluesky_loop_append)
  with assms(1) show ?thesis by (simp add: syncFromBluesky_def)
qed

lemma syncFromMastodon_at:
  assumes "fetch_mastodon E this w = (Inr (pre @ p # post), w0)"
    and "mastodon_loop E this pre [] w0 = (out1, w1)"
    and "mastodon_post_step E this p w1 = (Some sp, w2)"
  shows "\<exists>rest w'. syncFromMastodon E this w = (Inr (out1 @ sp # rest), w')"
  using syncFromMastodon_split [OF assms] by simp

lemma syncFromMastodon_past:
  assumes "fetch_mastodon E this w = (Inr (pre @ p # post), w0)"
    and "mastodon_loop E this pre [] w0 = (out1, w1)"
    and "mastodon_post_step E this p w1 = (None, w2)"
  shows "syncFromMastodon E this w
         = (case mastodon_loop E this post out1 w2 of (out, w') \<Rightarrow> (Inr out, w'))"
proof -
  have "mastodon_loop E this (pre @ p # post) [] w0 = mastodon_loop E this post out1 w2"
    using assms(2,3) by (simp add: mastodon_loop_append)
  with assms(1) show ?thesis by (simp add: syncFromMastodon_def)
qed

lemma older_than_lastSync_iff:
  "this_lastSync this = Some ls \<Longrightarrow> ls \<noteq> [] \<Longrightarrow> older_than_lastSync E this t = date_le E t ls"
  by (simp add: older_than_lastSync_def)


subsection \<open>Tag-free text\<close>

lemma no_gt_tag_free: "CHR ''>'' \<notin> set s \<Longrightarrow> match_tag (drop i s) = None"
proof -
  assume a: "CHR ''>'' \<notin> set s"
  have "\<not> (\<exists>u. drop i s = CHR ''<'' # u \<and> CHR ''>'' \<in> set u)"
  proof
    assume "\<exists>u. drop i s = CHR ''<'' # u \<and> CHR ''>'' \<in> set u"
    then have "CHR ''>'' \<in> set (drop i s)" by auto
    then have "CHR ''>'' \<in> set s" by (rule in_set_dropD)
    with a show False by simp
  qed
  then show ?thesis using match_tag_iff [of "drop i s"] by blast
qed

lemma tag_free_iff:
  "(\<exists>pre mid post. s = pre @ CHR ''<'' # mid @ CHR ''>'' # post)
   \<longleftrightarrow> (\<exists>i. match_tag (drop i s) \<noteq> None)"
proof
  assume "\<exists>pre mid post. s = pre @ CHR ''<'' # mid @ CHR ''>'' # post"
  then obtain pre mid post where s: "s = pre @ CHR ''<'' # mid @ CHR ''>'' # post" by blast
  then have "drop (length pre) s = CHR ''<'' # (mid @ CHR ''>'' # post)" by simp
  moreover have "CHR ''>'' \<in> set (mid @ CHR ''>'' # post)" by simp
  ultimately have "match_tag (drop (length pre) s) \<noteq> None"
    using match_tag_iff [of "drop (length pre) s"] by blast
  then show "\<exists>i. match_tag (drop i s) \<noteq> None" by (rule exI)
next
  assume "\<exists>i. match_tag (drop i s) \<noteq> None"
  then obtain i where "match_tag (drop i s) \<noteq> None" by blast
  with match_tag_iff [of "drop i s"] obtain u where
    d: "drop i s = CHR ''<'' # u" and g: "CHR ''>'' \<in> set u" by blast
  from g obtain mid post where u: "u = mid @ CHR ''>'' # post" by (auto simp: in_set_conv_decomp)
  have "s = take i s @ drop i s" by simp
  with d u have "s = take i s @ CHR ''<'' # mid @ CHR ''>'' # post" by simp
  then show "\<exists>pre mid post. s = pre @ CHR ''<'' # mid @ CHR ''>'' # post" by blast
qed

subsection \<open>parseInt\<close>

lemma parseInt_undefined: "parseInt None = None"
  by code_simp

lemma parseInt_negative:
  assumes "parseInt v = Some n" "n < 0"
  shows "\<exists>t. dropWhile is_js_space (case v of None \<Rightarrow> ''undefined'' | Some s \<Rightarrow> s) = CHR ''-'' # t"
proof -
  let ?S = "dropWhile is_js_space (case v of None \<Rightarrow> ''undefined'' | Some s \<Rightarrow> s)"
  show ?thesis
  proof (cases ?S)
    case Nil
    with assms show ?thesis by (simp add: parseInt_def Let_def split: if_splits)
  next
    case (Cons c t)
    show ?thesis
    proof (cases "c = CHR ''-''")
      case True
      with Cons show ?thesis by simp
    next
      case False
      with Cons assms(1) have "0 \<le> n"
        by (auto simp: parseInt_def Let_def split: if_splits)
      with assms(2) show ?thesis by simp
    qed
  qed
qed

section \<open>Properties of the worker\<close>

lemma withRateLimit_loop_kv_puts:
  assumes "\<And>w. kv_puts (snd (fn w)) = kv_puts w"
  shows "kv_puts (snd (withRateLimit_loop E fn retries i w)) = kv_puts w"
  using assms
proof (induction E fn retries i w rule: withRateLimit_loop.induct)
  case (1 E fn retries i w)
  note inv = "1.prems"
  show ?case
  proof (cases "i < retries")
    case False
    then show ?thesis by (simp add: withRateLimit_loop.simps)
  next
    case True
    obtain r w' where fw: "fn w = (r, w')" by (cases "fn w")
    have pw': "kv_puts w' = kv_puts w" using inv [of w] fw by simp
    show ?thesis
    proof (cases r)
      case (Inr v)
      with True fw pw' show ?thesis by (simp add: withRateLimit_loop.simps)
    next
      case (Inl e)
      show ?thesis
      proof (cases "is_rate_limited e")
        case False
        with True fw Inl pw' show ?thesis by (simp add: withRateLimit_loop.simps)
      next
        case rl: True
        have "kv_puts (snd (withRateLimit_loop E fn retries (Suc i) (setTimeout E (2 ^ i * 1000) w')))
              = kv_puts (setTimeout E (2 ^ i * 1000) w')"
          using "1.IH" [OF True fw [unfolded Inl, symmetric] refl rl inv] .
        moreover have "kv_puts (setTimeout E (2 ^ i * 1000) w') = kv_puts w'"
          by (simp add: kv_puts_def setTimeout_def is_kv_put_def)
        ultimately show ?thesis
          using True fw Inl rl pw' by (simp add: withRateLimit_loop_retry)
      qed
    qed
  qed
qed

lemma perform_kv_puts:
  "\<not> is_kv_put c \<Longrightarrow> kv_puts (snd (perform c op w)) = kv_puts w"
  by (simp add: perform_def kv_puts_def split: prod.splits)

lemma mastodonRequest_kv_puts:
  "kv_puts (snd (mastodonRequest fetch this endpoint method body w)) = kv_puts w"
  by (simp add: mastodonRequest_def perform_def kv_puts_def is_kv_put_def Let_def
      split: prod.splits sum.splits)

lemma initialize_kv_puts: "kv_puts (snd (initialize E this w)) = kv_puts w"
proof -
  let ?request = "\<lparr>req_base = mastodonUrl (this_config this), req_endpoint = ''/api/v1/instance'',
             req_method = ''GET'', req_bearer = None, req_status_text = None\<rparr>"
  obtain r w1 where p: "perform (Fetch ?request) (fetch_instance E ?request) w = (r, w1)"
    by (cases "perform (Fetch ?request) (fetch_instance E ?request) w")
  have k1: "kv_puts w1 = kv_puts w"
    using perform_kv_puts [of "Fetch ?request" "fetch_instance E ?request" w] p
    by (simp add: is_kv_put_def)
  obtain r2 w2 where m: "mastodonRequest (fetch_account E) this
                            ''/api/v1/accounts/verify_credentials'' ''GET'' None w1 = (r2, w2)"
    by (cases "mastodonRequest (fetch_account E) this
                 ''/api/v1/accounts/verify_credentials'' ''GET'' None w1")
  have k2: "kv_puts w2 = kv_puts w1"
    using mastodonRequest_kv_puts
            [of "fetch_account E" this "''/api/v1/accounts/verify_credentials''" "''GET''" None w1] m
    by simp
  have k3: "kv_puts (snd (perform (BskyLogin (blueskyUsername (this_config this))
                                      (blueskyPassword (this_config this)))
                           (bsky_login E (blueskyUsername (this_config this))
                                         (blueskyPassword (this_config this))) w2)) = kv_puts w2"
    by (rule perform_kv_puts) (simp add: is_kv_put_def)
  show ?thesis
    using p m k1 k2 k3
    by (auto simp: initialize_def Let_def split: sum.splits)
qed

lemma publish_to_mastodon_kv_puts:
  "kv_puts (snd (publish_to_mastodon E this text w)) = kv_puts w"
  unfolding publish_to_mastodon_def withRateLimit_def
  by (rule withRateLimit_loop_kv_puts) (rule mastodonRequest_kv_puts)

lemma publish_to_bluesky_kv_puts:
  "kv_puts (snd (publish_to_bluesky E text w)) = kv_puts w"
  unfolding publish_to_bluesky_def withRateLimit_def
  by (rule withRateLimit_loop_kv_puts) (simp add: perform_kv_puts is_kv_put_def)

lemma fetch_bluesky_kv_puts: "kv_puts (snd (fetch_bluesky E this w)) = kv_puts w"
  unfolding fetch_bluesky_def withRateLimit_def
  by (rule withRateLimit_loop_kv_puts) (simp add: perform_kv_puts is_kv_put_def)

lemma fetch_mastodon_kv_puts: "kv_puts (snd (fetch_mastodon E this w)) = kv_puts w"
  unfolding fetch_mastodon_def withRateLimit_def
  by (rule withRateLimit_loop_kv_puts) (rule mastodonRequest_kv_puts)

lemma bluesky_step_kv_puts: "kv_puts (snd (bluesky_post_step E this p w)) = kv_puts w"
  using publish_to_mastodon_kv_puts [of E this "record_text p" w]
  by (auto simp: bluesky_post_step_def Let_def split: prod.splits sum.splits)

lemma mastodon_step_kv_puts: "kv_puts (snd (mastodon_post_step E this p w)) = kv_puts w"
  using publish_to_bluesky_kv_puts [of E "cleanMastodonContent (content p)" w]
  by (auto simp: mastodon_post_step_def Let_def split: prod.splits sum.splits)

lemma bluesky_loop_kv_puts: "kv_puts (snd (bluesky_loop E this feed acc w)) = kv_puts w"
proof (induction feed arbitrary: acc w)
  case Nil
  then show ?case by simp
next
  case (Cons p feed)
  obtain r w' where st: "bluesky_post_step E this p w = (r, w')"
    by (cases "bluesky_post_step E this p w")
  with bluesky_step_kv_puts [of E this p w] have "kv_puts w' = kv_puts w" by simp
  with st Cons show ?case by (cases r) auto
qed

lemma mastodon_loop_kv_puts: "kv_puts (snd (mastodon_loop E this tml acc w)) = kv_puts w"
proof (induction tml arbitrary: acc w)
  case Nil
  then show ?case by simp
next
  case (Cons p tml)
  obtain r w' where st: "mastodon_post_step E this p w = (r, w')"
    by (cases "mastodon_post_step E this p w")
  with mastodon_step_kv_puts [of E this p w] have "kv_puts w' = kv_puts w" by simp
  with st Cons show ?case by (cases r) auto
qed

lemma syncFromBluesky_kv_puts: "kv_puts (snd (syncFromBluesky E this w)) = kv_puts w"
proof (cases "fetch_bluesky E this w")
  case (Pair r w0)
  have p0: "kv_puts w0 = kv_puts w" using fetch_bluesky_kv_puts [of E this w] Pair by simp
  show ?thesis
  proof (cases r)
    case (Inl e)
    with Pair p0 show ?thesis by (simp add: syncFromBluesky_def)
  next
    case (Inr feed)
    have "kv_puts (snd (bluesky_loop E this feed [] w0)) = kv_puts w0" by (rule bluesky_loop_kv_puts)
    with Pair Inr p0 show ?thesis by (auto simp: syncFromBluesky_def split: prod.splits)
  qed
qed

lemma syncFromMastodon_kv_puts: "kv_puts (snd (syncFromMastodon E this w)) = kv_puts w"
proof (cases "fetch_mastodon E this w")
  case (Pair r w0)
  have p0: "kv_puts w0 = kv_puts w" using fetch_mastodon_kv_puts [of E this w] Pair by simp
  show ?thesis
  proof (cases r)
    case (Inl e)
    with Pair p0 show ?thesis by (simp add: syncFromMastodon_def)
  next
    case (Inr tml)
    have "kv_puts (snd (mastodon_loop E this tml [] w0)) = kv_puts w0" by (rule mastodon_loop_kv_puts)
    with Pair Inr p0 show ?thesis by (auto simp: syncFromMastodon_def split: prod.splits)
  qed
qed

lemma sync_kv_puts: "kv_puts (snd (sync E this w)) = kv_puts w"
proof -
  obtain r1 w1 where i: "initialize E this w = (r1, w1)" by (cases "initialize E this w")
  have k1: "kv_puts w1 = kv_puts w" using initialize_kv_puts [of E this w] i by simp
  obtain r2 w2 where b: "syncFromBluesky E this w1 = (r2, w2)" by (cases "syncFromBluesky E this w1")
  have k2: "kv_puts w2 = kv_puts w1" using syncFromBluesky_kv_puts [of E this w1] b by simp
  obtain r3 w3 where m: "syncFromMastodon E this w2 = (r3, w3)" by (cases "syncFromMastodon E this w2")
  have k3: "kv_puts w3 = kv_puts w2" using syncFromMastodon_kv_puts [of E this w2] m by simp
  show ?thesis using i b m k1 k2 k3
    by (auto simp: sync_def Let_def split: sum.splits)
qed

lemma sync_timestamp:
  assumes "sync E this w = (Inr results, w')"
  shows "\<exists>w1. initialize E this w = (Inr (), w1) \<and> results_timestamp results = clock E (remote w1)"
  using assms
  by (auto simp: sync_def Let_def split: prod.splits sum.splits)

section \<open>The claims\<close>

text \<open>
  C5. \<open>withRateLimit\<close> returns the result of the first invocation that succeeds. When an
  invocation fails with a rate-limit error (status 429, or a message that includes
  "rate limit"), attempt number \<open>i\<close> (from 0) waits \<open>2 ^ i * 1000\<close> ms and the next attempt
  follows; there are at most \<open>retries\<close> invocations. An operation that fails twice with 429
  and then succeeds is invoked three times, with waits of 1000 and 2000 ms in between, and
  its value is returned. Any other failure is thrown on at once. When every attempt is
  rate limited, the error is \<open>Failed after n retries\<close>, which is not a rate-limit error
  itself, so it is none of the errors of the operation.
\<close>

theorem withRateLimit_retries_rate_limits:
  fixes E :: "'s platform" and fn :: "'s world \<Rightarrow> (js_error + 'a) \<times> 's world"
    and op :: "'s \<Rightarrow> (js_error + 'a) \<times> 's"
  shows
   "(i < retries \<longrightarrow> fn w = (Inr v, w') \<longrightarrow> withRateLimit_loop E fn retries i w = (Inr v, w'))
  \<and> (i < retries \<longrightarrow> fn w = (Inl e, w') \<longrightarrow> is_rate_limited e \<longrightarrow>
       withRateLimit_loop E fn retries i w
       = withRateLimit_loop E fn retries (Suc i) (setTimeout E (2 ^ i * 1000) w'))
  \<and> (i < retries \<longrightarrow> fn w = (Inl e, w') \<longrightarrow> \<not> is_rate_limited e \<longrightarrow>
       withRateLimit_loop E fn retries i w = (Inl e, w'))
  \<and> ((\<forall>ms. c \<noteq> SetTimeout ms) \<longrightarrow>
       length (filter (\<lambda>x. x = c) (trace (snd (withRateLimit E (perform c op) retries u))))
       \<le> length (filter (\<lambda>x. x = c) (trace u)) + retries)
  \<and> (op s0 = (Inl e1, s1) \<longrightarrow> status e1 = Some 429 \<longrightarrow>
     op (timer E 1000 s1) = (Inl e2, s2) \<longrightarrow> status e2 = Some 429 \<longrightarrow>
     op (timer E 2000 s2) = (Inr v, s3) \<longrightarrow>
       withRateLimit E (perform c op) 3 \<lparr>remote = s0, trace = t\<rparr>
       = (Inr v, \<lparr>remote = s3, trace = t @ [c, SetTimeout 1000, c, SetTimeout 2000, c]\<rparr>))
  \<and> ((\<forall>s. \<exists>e s'. op s = (Inl e, s') \<and> is_rate_limited e) \<longrightarrow>
       fst (withRateLimit E (perform c op) retries u)
       = Inl (Error (''Failed after '' @ show_nat retries @ '' retries''))
     \<and> trace (snd (withRateLimit E (perform c op) retries u))
       = trace u @ concat (map (\<lambda>j. [c, SetTimeout (2 ^ j * 1000)]) [0..<retries]))
  \<and> \<not> is_rate_limited (Error (''Failed after '' @ show_nat retries @ '' retries''))
  \<and> withRateLimit E fn retries w = withRateLimit_loop E fn retries 0 w"
proof (intro conjI impI, goal_cases)
  case 1
  then show ?case by (rule withRateLimit_loop_success)
next
  case 2
  then show ?case by (rule withRateLimit_loop_retry)
next
  case 3
  then show ?case by (rule withRateLimit_loop_other)
next
  case 4
  then have "\<And>ms. c \<noteq> SetTimeout ms" by simp
  from withRateLimit_loop_attempts [OF this, where E = E and op = op and retries = retries and i = 0 and w = u]
  show ?case by (simp add: withRateLimit_def)
next
  case 5
  then show ?case by (rule withRateLimit_twice_429)
next
  case 6
  then have "\<And>s. \<exists>e s'. op s = (Inl e, s') \<and> is_rate_limited e" by simp
  from withRateLimit_loop_always_limited [OF this, where E = E and c = c and retries = retries and i = 0 and w = u]
  show ?case unfolding withRateLimit_def by (rule conjunct1)
next
  case 7
  then have "\<And>s. \<exists>e s'. op s = (Inl e, s') \<and> is_rate_limited e" by simp
  from withRateLimit_loop_always_limited [OF this, where E = E and c = c and retries = retries and i = 0 and w = u]
  show ?case unfolding withRateLimit_def by (rule conjunct2)
next
  case 8
  show ?case by (rule exhausted_error_not_rate_limited)
next
  case 9
  show ?case by (rule withRateLimit_def)
qed

theorem withRateLimit_retries_rate_limits_witness:
  "withRateLimit_loop (scripted [] [] None (\<lambda>n. None))
       (perform (BskyGetAuthorFeed ''jerdog.dev'' 10)
          (bsky_getAuthorFeed (scripted [] [] None (\<lambda>n. None)) ''jerdog.dev'' 10)) 3 0 start
     = (Inr [], \<lparr>remote = 1, trace = [BskyGetAuthorFeed ''jerdog.dev'' 10]\<rparr>)
   \<and> withRateLimit (scripted [] [] None (\<lambda>n. if n < 2 then Some too_many else None))
       (perform (BskyGetAuthorFeed ''jerdog.dev'' 10)
          (bsky_getAuthorFeed (scripted [] [] None (\<lambda>n. if n < 2 then Some too_many else None))
             ''jerdog.dev'' 10)) 3 start
     = (Inr [], \<lparr>remote = 3,
          trace = [BskyGetAuthorFeed ''jerdog.dev'' 10, SetTimeout 1000,
                   BskyGetAuthorFeed ''jerdog.dev'' 10, SetTimeout 2000,
                   BskyGetAuthorFeed ''jerdog.dev'' 10]\<rparr>)
   \<and> withRateLimit_loop (scripted [] [] None (\<lambda>n. Some refused))
       (perform (BskyGetAuthorFeed ''jerdog.dev'' 10)
          (bsky_getAuthorFeed (scripted [] [] None (\<lambda>n. Some refused)) ''jerdog.dev'' 10)) 3 0 start
     = (Inl refused, \<lparr>remote = 1, trace = [BskyGetAuthorFeed ''jerdog.dev'' 10]\<rparr>)
   \<and> fst (withRateLimit (scripted [] [] None (\<lambda>n. Some too_many))
       (perform (BskyGetAuthorFeed ''jerdog.dev'' 10)
          (bsky_getAuthorFeed (scripted [] [] None (\<lambda>n. Some too_many)) ''jerdog.dev'' 10)) 3 start)
     = Inl (Error ''Failed after 3 retries'')
   \<and> trace (snd (withRateLimit (scripted [] [] None (\<lambda>n. Some too_many))
       (perform (BskyGetAuthorFeed ''jerdog.dev'' 10)
          (bsky_getAuthorFeed (scripted [] [] None (\<lambda>n. Some too_many)) ''jerdog.dev'' 10)) 3 start))
     = [BskyGetAuthorFeed ''jerdog.dev'' 10, SetTimeout 1000,
        BskyGetAuthorFeed ''jerdog.dev'' 10, SetTimeout 2000,
        BskyGetAuthorFeed ''jerdog.dev'' 10, SetTimeout 4000]"
proof -
  let ?c = "BskyGetAuthorFeed ''jerdog.dev'' 10"
  let ?Eok = "scripted [] [] None (\<lambda>n. None)"
  let ?E2 = "scripted [] [] None (\<lambda>n. if n < 2 then Some too_many else None)"
  let ?Eno = "scripted [] [] None (\<lambda>n. Some refused)"
  let ?Elim = "scripted [] [] None (\<lambda>n. Some too_many)"
  have ok: "perform ?c (bsky_getAuthorFeed ?Eok ''jerdog.dev'' 10) start
            = (Inr [], \<lparr>remote = 1, trace = [?c]\<rparr>)"
    by (simp add: perform_def scripted_def answer_def start_def)
  have c1: "withRateLimit_loop ?Eok (perform ?c (bsky_getAuthorFeed ?Eok ''jerdog.dev'' 10)) 3 0 start
            = (Inr [], \<lparr>remote = 1, trace = [?c]\<rparr>)"
    using withRateLimit_retries_rate_limits
      [where i = 0 and retries = 3 and E = ?Eok and w = start
         and fn = "perform ?c (bsky_getAuthorFeed ?Eok ''jerdog.dev'' 10)", THEN conjunct1] ok
    by simp
  have c5: "withRateLimit ?E2 (perform ?c (bsky_getAuthorFeed ?E2 ''jerdog.dev'' 10)) 3 start
     = (Inr [], \<lparr>remote = 3, trace = [?c, SetTimeout 1000, ?c, SetTimeout 2000, ?c]\<rparr>)"
    using withRateLimit_retries_rate_limits
      [where E = ?E2 and op = "bsky_getAuthorFeed ?E2 ''jerdog.dev'' 10" and c = ?c
         and ?s0.0 = 0 and ?s1.0 = 1 and ?s2.0 = 2 and ?s3.0 = 3 and ?e1.0 = too_many
         and ?e2.0 = too_many and v = "[]" and t = "[]",
       THEN conjunct2, THEN conjunct2, THEN conjunct2, THEN conjunct2, THEN conjunct1]
    by (simp add: scripted_def answer_def too_many_def start_def)
  have no: "perform ?c (bsky_getAuthorFeed ?Eno ''jerdog.dev'' 10) start
            = (Inl refused, \<lparr>remote = 1, trace = [?c]\<rparr>)"
    by (simp add: perform_def scripted_def answer_def start_def)
  have nrl: "\<not> is_rate_limited refused"
    by (simp add: is_rate_limited_def refused_def Error_def)
  have c3: "withRateLimit_loop ?Eno (perform ?c (bsky_getAuthorFeed ?Eno ''jerdog.dev'' 10)) 3 0 start
            = (Inl refused, \<lparr>remote = 1, trace = [?c]\<rparr>)"
    using withRateLimit_retries_rate_limits
      [where i = 0 and retries = 3 and E = ?Eno and w = start and e = refused
         and fn = "perform ?c (bsky_getAuthorFeed ?Eno ''jerdog.dev'' 10)",
       THEN conjunct2, THEN conjunct2, THEN conjunct1] no nrl
    by simp
  have lim: "\<forall>s. \<exists>e s'. bsky_getAuthorFeed ?Elim ''jerdog.dev'' 10 s = (Inl e, s') \<and> is_rate_limited e"
    by (simp add: scripted_def answer_def too_many_def is_rate_limited_def)
  have c6: "fst (withRateLimit ?Elim (perform ?c (bsky_getAuthorFeed ?Elim ''jerdog.dev'' 10)) 3 start)
       = Inl (Error ''Failed after 3 retries'')
     \<and> trace (snd (withRateLimit ?Elim (perform ?c (bsky_getAuthorFeed ?Elim ''jerdog.dev'' 10)) 3 start))
       = [?c, SetTimeout 1000, ?c, SetTimeout 2000, ?c, SetTimeout 4000]"
    using withRateLimit_retries_rate_limits
      [where E = ?Elim and op = "bsky_getAuthorFeed ?Elim ''jerdog.dev'' 10" and c = ?c
         and retries = 3 and u = start,
       THEN conjunct2, THEN conjunct2, THEN conjunct2, THEN conjunct2, THEN conjunct2,
       THEN conjunct1] lim
    by (simp add: start_def show_nat.simps upt_rec numeral_3_eq_3)
  from c1 c5 c3 c6 show ?thesis by simp
qed

text \<open>
  C1. In a dry run neither direction makes a publishing call (the publishing calls in the
  trace are those that were there before), and every record of either output has
  \<open>targetId = 'DRY_RUN'\<close> and \<open>simulated = true\<close>. Outside a dry run every record has
  \<open>simulated = false\<close>, and a post that the loop keeps and whose guarded publish call returns
  an identifier gets the record with that identifier as \<open>targetId\<close>, right behind the records
  of the posts before it.
\<close>

theorem dry_run_sentinel_published_target:
  fixes E :: "'s platform" and config :: SyncConfig
  defines "this \<equiv> constructor config"
  shows
   "(dryRun config \<longrightarrow>
        filter is_publish (trace (snd (syncFromBluesky E this w))) = filter is_publish (trace w)
      \<and> filter is_publish (trace (snd (syncFromMastodon E this w))) = filter is_publish (trace w)
      \<and> (\<forall>out w'. syncFromBluesky E this w = (Inr out, w') \<longrightarrow>
            (\<forall>sp \<in> set out. targetId sp = ''DRY_RUN'' \<and> simulated sp))
      \<and> (\<forall>out w'. syncFromMastodon E this w = (Inr out, w') \<longrightarrow>
            (\<forall>sp \<in> set out. targetId sp = ''DRY_RUN'' \<and> simulated sp)))
  \<and> (\<not> dryRun config \<longrightarrow>
        (\<forall>out w'. syncFromBluesky E this w = (Inr out, w') \<longrightarrow> (\<forall>sp \<in> set out. \<not> simulated sp))
      \<and> (\<forall>out w'. syncFromMastodon E this w = (Inr out, w') \<longrightarrow> (\<forall>sp \<in> set out. \<not> simulated sp))
      \<and> (\<forall>pre p post w0 out1 w1 target w2.
            fetch_bluesky E this w = (Inr (pre @ p # post), w0) \<longrightarrow>
            bluesky_loop E this pre [] w0 = (out1, w1) \<longrightarrow>
            bluesky_kept E this p \<longrightarrow>
            publish_to_mastodon E this (record_text p) w1 = (Inr target, w2) \<longrightarrow>
            (\<exists>rest w'. syncFromBluesky E this w
               = (Inr (out1 @ \<lparr>source = ''bluesky'', sourceId = uri p, targetId = target,
                               synced_text = record_text p, simulated = False,
                               timestamp = indexedAt p\<rparr> # rest), w')))
      \<and> (\<forall>pre p post w0 out1 w1 target w2.
            fetch_mastodon E this w = (Inr (pre @ p # post), w0) \<longrightarrow>
            mastodon_loop E this pre [] w0 = (out1, w1) \<longrightarrow>
            mastodon_kept E this p \<longrightarrow>
            publish_to_bluesky E (cleanMastodonContent (content p)) w1 = (Inr target, w2) \<longrightarrow>
            (\<exists>rest w'. syncFromMastodon E this w
               = (Inr (out1 @ \<lparr>source = ''mastodon'', sourceId = status_id p, targetId = target,
                               synced_text = cleanMastodonContent (content p), simulated = False,
                               timestamp = created_at p\<rparr> # rest), w'))))"
proof (intro conjI impI allI ballI, goal_cases)
  case 1
  then have "this_dryRun this" by (simp add: this_def)
  from syncFromBluesky_dry_publishes [OF this] show ?case by (simp add: publishes_def)
next
  case 2
  then have "this_dryRun this" by (simp add: this_def)
  from syncFromMastodon_dry_publishes [OF this] show ?case by (simp add: publishes_def)
next
  case (3 out w' sp)
  from syncFromBluesky_origin [OF 3(2,3)] 3(1) show ?case
    by (auto simp: this_def bluesky_record_def)
next
  case (4 out w' sp)
  from syncFromBluesky_origin [OF 4(2,3)] 4(1) show ?case
    by (auto simp: this_def bluesky_record_def)
next
  case (5 out w' sp)
  from syncFromMastodon_origin [OF 5(2,3)] 5(1) show ?case
    by (auto simp: this_def mastodon_record_def)
next
  case (6 out w' sp)
  from syncFromMastodon_origin [OF 6(2,3)] 6(1) show ?case
    by (auto simp: this_def mastodon_record_def)
next
  case (7 out w' sp)
  from syncFromBluesky_origin [OF 7(2,3)] 7(1) show ?case
    by (auto simp: this_def bluesky_record_def)
next
  case (8 out w' sp)
  from syncFromMastodon_origin [OF 8(2,3)] 8(1) show ?case
    by (auto simp: this_def mastodon_record_def)
next
  case (9 pre p post w0 out1 w1 target w2)
  from 9(1) have nd: "\<not> this_dryRun this" by (simp add: this_def)
  from 9(4) have k1: "\<not> older_than_lastSync E this (indexedAt p)"
    and k2: "\<not> (this_ignoreReposts this \<and> record_reply p)" by simp_all
  have "bluesky_post_step E this p w1 = (Some (bluesky_record this p target), w2)"
    by (rule bluesky_step_published [OF k1 k2 nd 9(5)])
  from syncFromBluesky_at [OF 9(2,3) this] nd show ?case
    by (simp add: bluesky_record_def)
next
  case (10 pre p post w0 out1 w1 target w2)
  from 10(1) have nd: "\<not> this_dryRun this" by (simp add: this_def)
  from 10(4) have k1: "\<not> older_than_lastSync E this (created_at p)"
    and k2: "\<not> (this_ignoreReposts this \<and> reblog p)"
    and k3: "toLowerCase (account_username p) = toLowerCase (mastodonUsername (this_config this))"
    by simp_all
  have "mastodon_post_step E this p w1 = (Some (mastodon_record this p target), w2)"
    by (rule mastodon_step_published [OF k1 k2 k3 nd 10(5)])
  from syncFromMastodon_at [OF 10(2,3) this] nd show ?case
    by (simp add: mastodon_record_def)
qed

theorem dry_run_sentinel_published_target_witness:
  "dryRun (demo_config True False (Some ''5''))
   \<and> filter is_publish (trace (snd (syncFromBluesky quiet (constructor (demo_config True False (Some ''5''))) start))) = []
   \<and> filter is_publish (trace (snd (syncFromMastodon quiet (constructor (demo_config True False (Some ''5''))) start))) = []
   \<and> fst (syncFromBluesky quiet (constructor (demo_config True False (Some ''5''))) start)
       = Inr [\<lparr>source = ''bluesky'', sourceId = ''at://a/3'', targetId = ''DRY_RUN'',
                synced_text = ''third'', simulated = True, timestamp = ''9''\<rparr>,
              \<lparr>source = ''bluesky'', sourceId = ''at://a/2'', targetId = ''DRY_RUN'',
                synced_text = ''second, a reply'', simulated = True, timestamp = ''8''\<rparr>]
   \<and> fst (syncFromMastodon quiet (constructor (demo_config True False (Some ''5''))) start)
       = Inr [\<lparr>source = ''mastodon'', sourceId = ''103'', targetId = ''DRY_RUN'',
                synced_text = ''Hi'', simulated = True, timestamp = ''9''\<rparr>,
              \<lparr>source = ''mastodon'', sourceId = ''102'', targetId = ''DRY_RUN'',
                synced_text = ''boost'', simulated = True, timestamp = ''8''\<rparr>]
   \<and> \<not> dryRun (demo_config False False (Some ''5''))
   \<and> (\<exists>rest w'. syncFromBluesky quiet (constructor (demo_config False False (Some ''5''))) start
         = (Inr ([\<lparr>source = ''bluesky'', sourceId = ''at://a/3'', targetId = ''m1'',
                    synced_text = ''third'', simulated = False, timestamp = ''9''\<rparr>]
                 @ \<lparr>source = ''bluesky'', sourceId = ''at://a/2'', targetId = ''m2'',
                    synced_text = ''second, a reply'', simulated = False, timestamp = ''8''\<rparr> # rest), w'))
   \<and> (\<exists>rest w'. syncFromMastodon quiet (constructor (demo_config False False (Some ''5''))) start
         = (Inr ([\<lparr>source = ''mastodon'', sourceId = ''103'', targetId = ''at://1'',
                    synced_text = ''Hi'', simulated = False, timestamp = ''9''\<rparr>]
                 @ \<lparr>source = ''mastodon'', sourceId = ''102'', targetId = ''at://2'',
                    synced_text = ''boost'', simulated = False, timestamp = ''8''\<rparr> # rest), w'))"
proof -
  let ?dry = "demo_config True False (Some ''5'')"
  let ?real = "demo_config False False (Some ''5'')"
  let ?b1 = "\<lparr>source = ''bluesky'', sourceId = ''at://a/3'', targetId = ''DRY_RUN'',
                synced_text = ''third'', simulated = True, timestamp = ''9''\<rparr>"
  let ?b2 = "\<lparr>source = ''bluesky'', sourceId = ''at://a/2'', targetId = ''DRY_RUN'',
                synced_text = ''second, a reply'', simulated = True, timestamp = ''8''\<rparr>"
  let ?m1 = "\<lparr>source = ''mastodon'', sourceId = ''103'', targetId = ''DRY_RUN'',
                synced_text = ''Hi'', simulated = True, timestamp = ''9''\<rparr>"
  let ?m2 = "\<lparr>source = ''mastodon'', sourceId = ''102'', targetId = ''DRY_RUN'',
                synced_text = ''boost'', simulated = True, timestamp = ''8''\<rparr>"
  have dry: "dryRun ?dry" by (simp add: demo_config_def)
  have real: "\<not> dryRun ?real" by (simp add: demo_config_def)
  note D = dry_run_sentinel_published_target
             [where E = quiet and config = ?dry and w = start, THEN conjunct1, rule_format, OF dry]
  note R = dry_run_sentinel_published_target
             [where E = quiet and config = ?real and w = start, THEN conjunct2, rule_format, OF real]
  have t0: "trace start = []" by (simp add: start_def)
  have p1: "filter is_publish (trace (snd (syncFromBluesky quiet (constructor ?dry) start))) = []"
    using D [THEN conjunct1] t0 by simp
  have p2: "filter is_publish (trace (snd (syncFromMastodon quiet (constructor ?dry) start))) = []"
    using D [THEN conjunct2, THEN conjunct1] t0 by simp
  have o1: "syncFromBluesky quiet (constructor ?dry) start
            = (Inr [?b1, ?b2], \<lparr>remote = 1, trace = [BskyGetAuthorFeed ''jerdog.dev'' 10]\<rparr>)"
    by code_simp
  have o2: "syncFromMastodon quiet (constructor ?dry) start
            = (Inr [?m1, ?m2],
               \<lparr>remote = 1,
                trace = [Fetch \<lparr>req_base = ''https://m.example'',
                                req_endpoint = ''/api/v1/timelines/home'', req_method = ''GET'',
                                req_bearer = Some ''token'', req_status_text = None\<rparr>]\<rparr>)"
    by code_simp
  have s1: "targetId ?b1 = ''DRY_RUN'' \<and> simulated ?b1"
    using D [THEN conjunct2, THEN conjunct2, THEN conjunct1, rule_format, OF o1, of ?b1] by simp
  have s2: "targetId ?m2 = ''DRY_RUN'' \<and> simulated ?m2"
    using D [THEN conjunct2, THEN conjunct2, THEN conjunct2, rule_format, OF o2, of ?m2] by simp
  have f1: "fetch_bluesky quiet (constructor ?real) start
            = (Inr ([skeet ''at://a/3'' ''9'' False ''third'']
                    @ skeet ''at://a/2'' ''8'' True ''second, a reply''
                    # [skeet ''at://a/1'' ''3'' False ''first'']),
               \<lparr>remote = 1, trace = [BskyGetAuthorFeed ''jerdog.dev'' 10]\<rparr>)"
    by code_simp
  have l1: "bluesky_loop quiet (constructor ?real) [skeet ''at://a/3'' ''9'' False ''third''] []
              \<lparr>remote = 1, trace = [BskyGetAuthorFeed ''jerdog.dev'' 10]\<rparr>
            = ([\<lparr>source = ''bluesky'', sourceId = ''at://a/3'', targetId = ''m1'',
                    synced_text = ''third'', simulated = False, timestamp = ''9''\<rparr>],
               \<lparr>remote = 2,
                trace = [BskyGetAuthorFeed ''jerdog.dev'' 10,
                         Fetch \<lparr>req_base = ''https://m.example'', req_endpoint = ''/api/v1/statuses'',
                                req_method = ''POST'', req_bearer = Some ''token'',
                                req_status_text = Some ''third''\<rparr>]\<rparr>)"
    by code_simp
  have k1: "bluesky_kept quiet (constructor ?real) (skeet ''at://a/2'' ''8'' True ''second, a reply'')"
    by code_simp
  have u1: "publish_to_mastodon quiet (constructor ?real)
              (record_text (skeet ''at://a/2'' ''8'' True ''second, a reply''))
              \<lparr>remote = 2,
                trace = [BskyGetAuthorFeed ''jerdog.dev'' 10,
                         Fetch \<lparr>req_base = ''https://m.example'', req_endpoint = ''/api/v1/statuses'',
                                req_method = ''POST'', req_bearer = Some ''token'',
                                req_status_text = Some ''third''\<rparr>]\<rparr>
            = (Inr ''m2'',
               \<lparr>remote = 3,
                trace = [BskyGetAuthorFeed ''jerdog.dev'' 10,
                         Fetch \<lparr>req_base = ''https://m.example'', req_endpoint = ''/api/v1/statuses'',
                                req_method = ''POST'', req_bearer = Some ''token'',
                                req_status_text = Some ''third''\<rparr>,
                         Fetch \<lparr>req_base = ''https://m.example'', req_endpoint = ''/api/v1/statuses'',
                                req_method = ''POST'', req_bearer = Some ''token'',
                                req_status_text = Some ''second, a reply''\<rparr>]\<rparr>)"
    by code_simp
  have r1: "\<exists>rest w'. syncFromBluesky quiet (constructor ?real) start
         = (Inr ([\<lparr>source = ''bluesky'', sourceId = ''at://a/3'', targetId = ''m1'',
                    synced_text = ''third'', simulated = False, timestamp = ''9''\<rparr>]
                 @ \<lparr>source = ''bluesky'', sourceId = ''at://a/2'', targetId = ''m2'',
                    synced_text = ''second, a reply'', simulated = False, timestamp = ''8''\<rparr> # rest), w')"
    using R [THEN conjunct2, THEN conjunct2, THEN conjunct1, rule_format, OF f1 l1 k1 u1]
    by (simp add: skeet_def)
  have f2: "fetch_mastodon quiet (constructor ?real) start
            = (Inr ([toot ''103'' ''9'' False ''JerDog'' ''<p>Hi</p>'']
                    @ toot ''102'' ''8'' True ''jerdog'' ''<p>boost</p>''
                    # [toot ''101'' ''7'' False ''alice'' ''<p>other</p>'',
                       toot ''100'' ''3'' False ''jerdog'' ''old'']),
               \<lparr>remote = 1,
                trace = [Fetch \<lparr>req_base = ''https://m.example'',
                                req_endpoint = ''/api/v1/timelines/home'', req_method = ''GET'',
                                req_bearer = Some ''token'', req_status_text = None\<rparr>]\<rparr>)"
    by code_simp
  have l2: "mastodon_loop quiet (constructor ?real) [toot ''103'' ''9'' False ''JerDog'' ''<p>Hi</p>''] []
              \<lparr>remote = 1,
                trace = [Fetch \<lparr>req_base = ''https://m.example'',
                                req_endpoint = ''/api/v1/timelines/home'', req_method = ''GET'',
                                req_bearer = Some ''token'', req_status_text = None\<rparr>]\<rparr>
            = ([\<lparr>source = ''mastodon'', sourceId = ''103'', targetId = ''at://1'',
                    synced_text = ''Hi'', simulated = False, timestamp = ''9''\<rparr>],
               \<lparr>remote = 2,
                trace = [Fetch \<lparr>req_base = ''https://m.example'',
                                req_endpoint = ''/api/v1/timelines/home'', req_method = ''GET'',
                                req_bearer = Some ''token'', req_status_text = None\<rparr>,
                         BskyPost ''Hi'' ''1'']\<rparr>)"
    by code_simp
  have k2: "mastodon_kept quiet (constructor ?real) (toot ''102'' ''8'' True ''jerdog'' ''<p>boost</p>'')"
    by code_simp
  have u2: "publish_to_bluesky quiet
              (cleanMastodonContent (content (toot ''102'' ''8'' True ''jerdog'' ''<p>boost</p>'')))
              \<lparr>remote = 2,
                trace = [Fetch \<lparr>req_base = ''https://m.example'',
                                req_endpoint = ''/api/v1/timelines/home'', req_method = ''GET'',
                                req_bearer = Some ''token'', req_status_text = None\<rparr>,
                         BskyPost ''Hi'' ''1'']\<rparr>
            = (Inr ''at://2'',
               \<lparr>remote = 3,
                trace = [Fetch \<lparr>req_base = ''https://m.example'',
                                req_endpoint = ''/api/v1/timelines/home'', req_method = ''GET'',
                                req_bearer = Some ''token'', req_status_text = None\<rparr>,
                         BskyPost ''Hi'' ''1'', BskyPost ''boost'' ''2'']\<rparr>)"
    by code_simp
  have c2: "cleanMastodonContent (content (toot ''102'' ''8'' True ''jerdog'' ''<p>boost</p>'')) = ''boost''"
    by code_simp
  have r2: "\<exists>rest w'. syncFromMastodon quiet (constructor ?real) start
         = (Inr ([\<lparr>source = ''mastodon'', sourceId = ''103'', targetId = ''at://1'',
                    synced_text = ''Hi'', simulated = False, timestamp = ''9''\<rparr>]
                 @ \<lparr>source = ''mastodon'', sourceId = ''102'', targetId = ''at://2'',
                    synced_text = ''boost'', simulated = False, timestamp = ''8''\<rparr> # rest), w')"
    using R [THEN conjunct2, THEN conjunct2, THEN conjunct2, rule_format, OF f2 l2 k2 u2]
    by (simp add: toot_def c2 [unfolded toot_def, simplified])
  from dry real p1 p2 o1 o2 r1 r2 show ?thesis by simp
qed

text \<open>
  C2. When \<open>lastSync\<close> is set (a non-empty string), no record of either output carries a
  timestamp at or before \<open>lastSync\<close>; so the record of a fetched post with such a timestamp
  is in neither output, whatever its \<open>targetId\<close>. Such posts are passed over without any
  effect: each loop gives the same result on the list without them.
\<close>

theorem watermark_filter:
  fixes E :: "'s platform" and config :: SyncConfig
  defines "this \<equiv> constructor config"
  assumes "lastSync config = Some ls" and "ls \<noteq> []"
  shows
   "(\<forall>out w'. syncFromBluesky E this w = (Inr out, w') \<longrightarrow>
        (\<forall>sp \<in> set out. \<not> date_le E (timestamp sp) ls)
      \<and> (\<forall>p target. date_le E (indexedAt p) ls \<longrightarrow> bluesky_record this p target \<notin> set out))
  \<and> (\<forall>out w'. syncFromMastodon E this w = (Inr out, w') \<longrightarrow>
        (\<forall>sp \<in> set out. \<not> date_le E (timestamp sp) ls)
      \<and> (\<forall>p target. date_le E (created_at p) ls \<longrightarrow> mastodon_record this p target \<notin> set out))
  \<and> bluesky_loop E this (filter (\<lambda>p. \<not> date_le E (indexedAt p) ls) feed) acc u
      = bluesky_loop E this feed acc u
  \<and> mastodon_loop E this (filter (\<lambda>p. \<not> date_le E (created_at p) ls) timeline) acc u
      = mastodon_loop E this timeline acc u"
proof -
  have ls: "this_lastSync this = Some ls" using assms by (simp add: this_def)
  note old = older_than_lastSync_iff [OF ls assms(3)]
  have b: "\<not> date_le E (timestamp sp) ls"
    if "syncFromBluesky E this w = (Inr out, w')" "sp \<in> set out" for out w' sp
    using syncFromBluesky_origin [OF that] by (auto simp: old bluesky_record_def)
  have m: "\<not> date_le E (timestamp sp) ls"
    if "syncFromMastodon E this w = (Inr out, w')" "sp \<in> set out" for out w' sp
    using syncFromMastodon_origin [OF that] by (auto simp: old mastodon_record_def)
  have b': "bluesky_record this p target \<notin> set out"
    if "syncFromBluesky E this w = (Inr out, w')" "date_le E (indexedAt p) ls" for out w' p target
  proof
    assume "bluesky_record this p target \<in> set out"
    from b [OF that(1) this] that(2) show False by (simp add: bluesky_record_def)
  qed
  have m': "mastodon_record this p target \<notin> set out"
    if "syncFromMastodon E this w = (Inr out, w')" "date_le E (created_at p) ls" for out w' p target
  proof
    assume "mastodon_record this p target \<in> set out"
    from m [OF that(1) this] that(2) show False by (simp add: mastodon_record_def)
  qed
  have fb: "bluesky_loop E this (filter (\<lambda>p. \<not> date_le E (indexedAt p) ls) feed) acc u
            = bluesky_loop E this feed acc u"
    by (rule bluesky_loop_filter) (simp add: bluesky_step_skip old)
  have fm: "mastodon_loop E this (filter (\<lambda>p. \<not> date_le E (created_at p) ls) timeline) acc u
            = mastodon_loop E this timeline acc u"
    by (rule mastodon_loop_filter) (simp add: mastodon_step_skip old)
  from b b' m m' fb fm show ?thesis by blast
qed

theorem watermark_filter_witness:
  "lastSync (demo_config False False (Some ''5'')) = Some ''5''
   \<and> date_le quiet (indexedAt (skeet ''at://a/1'' ''3'' False ''first'')) ''5''
   \<and> syncFromBluesky quiet (constructor (demo_config True False (Some ''5''))) start
       = (Inr [\<lparr>source = ''bluesky'', sourceId = ''at://a/3'', targetId = ''DRY_RUN'',
                synced_text = ''third'', simulated = True, timestamp = ''9''\<rparr>,
              \<lparr>source = ''bluesky'', sourceId = ''at://a/2'', targetId = ''DRY_RUN'',
                synced_text = ''second, a reply'', simulated = True, timestamp = ''8''\<rparr>],
          \<lparr>remote = 1, trace = [BskyGetAuthorFeed ''jerdog.dev'' 10]\<rparr>)
   \<and> \<not> date_le quiet ''9'' ''5''
   \<and> bluesky_record (constructor (demo_config True False (Some ''5'')))
        (skeet ''at://a/1'' ''3'' False ''first'') ''DRY_RUN''
      \<notin> set [\<lparr>source = ''bluesky'', sourceId = ''at://a/3'', targetId = ''DRY_RUN'',
                synced_text = ''third'', simulated = True, timestamp = ''9''\<rparr>,
              \<lparr>source = ''bluesky'', sourceId = ''at://a/2'', targetId = ''DRY_RUN'',
                synced_text = ''second, a reply'', simulated = True, timestamp = ''8''\<rparr>]
   \<and> date_le quiet (created_at (toot ''100'' ''3'' False ''jerdog'' ''old'')) ''5''
   \<and> mastodon_record (constructor (demo_config True False (Some ''5'')))
        (toot ''100'' ''3'' False ''jerdog'' ''old'') ''DRY_RUN''
      \<notin> set [\<lparr>source = ''mastodon'', sourceId = ''103'', targetId = ''DRY_RUN'',
                synced_text = ''Hi'', simulated = True, timestamp = ''9''\<rparr>,
              \<lparr>source = ''mastodon'', sourceId = ''102'', targetId = ''DRY_RUN'',
                synced_text = ''boost'', simulated = True, timestamp = ''8''\<rparr>]
   \<and> bluesky_loop quiet (constructor (demo_config True False (Some ''5'')))
        [skeet ''at://a/3'' ''9'' False ''third'', skeet ''at://a/2'' ''8'' True ''second, a reply''] [] start
      = bluesky_loop quiet (constructor (demo_config True False (Some ''5''))) skeets [] start"
proof -
  let ?cfg = "demo_config True False (Some ''5'')"
  let ?b1 = "\<lparr>source = ''bluesky'', sourceId = ''at://a/3'', targetId = ''DRY_RUN'',
                synced_text = ''third'', simulated = True, timestamp = ''9''\<rparr>"
  let ?b2 = "\<lparr>source = ''bluesky'', sourceId = ''at://a/2'', targetId = ''DRY_RUN'',
                synced_text = ''second, a reply'', simulated = True, timestamp = ''8''\<rparr>"
  let ?m1 = "\<lparr>source = ''mastodon'', sourceId = ''103'', targetId = ''DRY_RUN'',
                synced_text = ''Hi'', simulated = True, timestamp = ''9''\<rparr>"
  let ?m2 = "\<lparr>source = ''mastodon'', sourceId = ''102'', targetId = ''DRY_RUN'',
                synced_text = ''boost'', simulated = True, timestamp = ''8''\<rparr>"
  have h1: "lastSync ?cfg = Some ''5''" and h1': "lastSync (demo_config False False (Some ''5'')) = Some ''5''"
    by (simp_all add: demo_config_def)
  have h2: "''5'' \<noteq> []" by simp
  note W = watermark_filter [where E = quiet and config = ?cfg and w = start, OF h1 h2]
  have o1: "syncFromBluesky quiet (constructor ?cfg) start
            = (Inr [?b1, ?b2], \<lparr>remote = 1, trace = [BskyGetAuthorFeed ''jerdog.dev'' 10]\<rparr>)"
    by code_simp
  have o2: "syncFromMastodon quiet (constructor ?cfg) start
            = (Inr [?m1, ?m2],
               \<lparr>remote = 1,
                trace = [Fetch \<lparr>req_base = ''https://m.example'',
                                req_endpoint = ''/api/v1/timelines/home'', req_method = ''GET'',
                                req_bearer = Some ''token'', req_status_text = None\<rparr>]\<rparr>)"
    by code_simp
  have d1: "date_le quiet (indexedAt (skeet ''at://a/1'' ''3'' False ''first'')) ''5''" by code_simp
  have d2: "date_le quiet (created_at (toot ''100'' ''3'' False ''jerdog'' ''old'')) ''5''" by code_simp
  have a1: "\<not> date_le quiet ''9'' ''5''"
    using W [THEN conjunct1, rule_format, OF o1, THEN conjunct1, rule_format, of ?b1] by simp
  have a2: "bluesky_record (constructor ?cfg) (skeet ''at://a/1'' ''3'' False ''first'') ''DRY_RUN''
            \<notin> set [?b1, ?b2]"
    using W [THEN conjunct1, rule_format, OF o1, THEN conjunct2, rule_format, OF d1] .
  have a3: "mastodon_record (constructor ?cfg) (toot ''100'' ''3'' False ''jerdog'' ''old'') ''DRY_RUN''
            \<notin> set [?m1, ?m2]"
    using W [THEN conjunct2, THEN conjunct1, rule_format, OF o2, THEN conjunct2, rule_format, OF d2] .
  have a4: "bluesky_loop quiet (constructor ?cfg)
              (filter (\<lambda>p. \<not> date_le quiet (indexedAt p) ''5'') skeets) [] start
            = bluesky_loop quiet (constructor ?cfg) skeets [] start"
    using W [THEN conjunct2, THEN conjunct2, THEN conjunct1, of skeets "[]" start] .
  have fl: "filter (\<lambda>p. \<not> date_le quiet (indexedAt p) ''5'') skeets
            = [skeet ''at://a/3'' ''9'' False ''third'', skeet ''at://a/2'' ''8'' True ''second, a reply'']"
    by code_simp
  from h1' d1 o1 a1 a2 d2 a3 a4 [unfolded fl] show ?thesis by simp
qed

text \<open>
  C4. Once the list of posts is fetched, a direction returns a list: no failure of a post
  escapes it. When the publish call of a kept post fails, the loop goes on with the posts
  behind it, from the records and the world it had reached. With three kept posts of which
  exactly the second fails to publish, the result is exactly the records of the first and
  the third.
\<close>

theorem per_post_failure_is_contained:
  fixes E :: "'s platform" and config :: SyncConfig
  defines "this \<equiv> constructor config"
  shows
   "(\<forall>feed w0. fetch_bluesky E this w = (Inr feed, w0) \<longrightarrow>
        (\<exists>out w'. syncFromBluesky E this w = (Inr out, w')))
  \<and> (\<forall>timeline w0. fetch_mastodon E this w = (Inr timeline, w0) \<longrightarrow>
        (\<exists>out w'. syncFromMastodon E this w = (Inr out, w')))
  \<and> (\<forall>pre p post w0 out1 w1 e w2.
        \<not> dryRun config \<longrightarrow>
        fetch_bluesky E this w = (Inr (pre @ p # post), w0) \<longrightarrow>
        bluesky_loop E this pre [] w0 = (out1, w1) \<longrightarrow>
        bluesky_kept E this p \<longrightarrow>
        publish_to_mastodon E this (record_text p) w1 = (Inl e, w2) \<longrightarrow>
        syncFromBluesky E this w
        = (case bluesky_loop E this post out1 w2 of (out, w') \<Rightarrow> (Inr out, w')))
  \<and> (\<forall>pre p post w0 out1 w1 e w2.
        \<not> dryRun config \<longrightarrow>
        fetch_mastodon E this w = (Inr (pre @ p # post), w0) \<longrightarrow>
        mastodon_loop E this pre [] w0 = (out1, w1) \<longrightarrow>
        mastodon_kept E this p \<longrightarrow>
        publish_to_bluesky E (cleanMastodonContent (content p)) w1 = (Inl e, w2) \<longrightarrow>
        syncFromMastodon E this w
        = (case mastodon_loop E this post out1 w2 of (out, w') \<Rightarrow> (Inr out, w')))
  \<and> (\<forall>p1 p2 p3 w0 t1 w1 e w2 t3 w3.
        \<not> dryRun config \<longrightarrow>
        fetch_bluesky E this w = (Inr [p1, p2, p3], w0) \<longrightarrow>
        bluesky_kept E this p1 \<longrightarrow> bluesky_kept E this p2 \<longrightarrow> bluesky_kept E this p3 \<longrightarrow>
        publish_to_mastodon E this (record_text p1) w0 = (Inr t1, w1) \<longrightarrow>
        publish_to_mastodon E this (record_text p2) w1 = (Inl e, w2) \<longrightarrow>
        publish_to_mastodon E this (record_text p3) w2 = (Inr t3, w3) \<longrightarrow>
        syncFromBluesky E this w
        = (Inr [bluesky_record this p1 t1, bluesky_record this p3 t3], w3))
  \<and> (\<forall>p1 p2 p3 w0 t1 w1 e w2 t3 w3.
        \<not> dryRun config \<longrightarrow>
        fetch_mastodon E this w = (Inr [p1, p2, p3], w0) \<longrightarrow>
        mastodon_kept E this p1 \<longrightarrow> mastodon_kept E this p2 \<longrightarrow> mastodon_kept E this p3 \<longrightarrow>
        publish_to_bluesky E (cleanMastodonContent (content p1)) w0 = (Inr t1, w1) \<longrightarrow>
        publish_to_bluesky E (cleanMastodonContent (content p2)) w1 = (Inl e, w2) \<longrightarrow>
        publish_to_bluesky E (cleanMastodonContent (content p3)) w2 = (Inr t3, w3) \<longrightarrow>
        syncFromMastodon E this w
        = (Inr [mastodon_record this p1 t1, mastodon_record this p3 t3], w3))"
proof (intro conjI impI allI, goal_cases)
  case (1 feed w0)
  then show ?case by (simp add: syncFromBluesky_def split: prod.splits)
next
  case (2 timeline w0)
  then show ?case by (simp add: syncFromMastodon_def split: prod.splits)
next
  case (3 pre p post w0 out1 w1 e w2)
  from 3(1) have nd: "\<not> this_dryRun this" by (simp add: this_def)
  from 3(4) have "bluesky_post_step E this p w1 = (None, w2)"
    using bluesky_step_failed_eq [OF _ _ nd 3(5)] by simp
  from syncFromBluesky_past [OF 3(2,3) this] show ?case .
next
  case (4 pre p post w0 out1 w1 e w2)
  from 4(1) have nd: "\<not> this_dryRun this" by (simp add: this_def)
  from 4(4) have "mastodon_post_step E this p w1 = (None, w2)"
    using mastodon_step_failed_eq [OF _ _ _ nd 4(5)] by simp
  from syncFromMastodon_past [OF 4(2,3) this] show ?case .
next
  case (5 p1 p2 p3 w0 t1 w1 e w2 t3 w3)
  from 5(1) have nd: "\<not> this_dryRun this" by (simp add: this_def)
  have s1: "bluesky_post_step E this p1 w0 = (Some (bluesky_record this p1 t1), w1)"
    using bluesky_step_published [OF _ _ nd 5(6)] 5(3) by simp
  have s2: "bluesky_post_step E this p2 w1 = (None, w2)"
    using bluesky_step_failed_eq [OF _ _ nd 5(7)] 5(4) by simp
  have s3: "bluesky_post_step E this p3 w2 = (Some (bluesky_record this p3 t3), w3)"
    using bluesky_step_published [OF _ _ nd 5(8)] 5(5) by simp
  from 5(2) s1 s2 s3 show ?case by (simp add: syncFromBluesky_def)
next
  case (6 p1 p2 p3 w0 t1 w1 e w2 t3 w3)
  from 6(1) have nd: "\<not> this_dryRun this" by (simp add: this_def)
  have s1: "mastodon_post_step E this p1 w0 = (Some (mastodon_record this p1 t1), w1)"
    using mastodon_step_published [OF _ _ _ nd 6(6)] 6(3) by simp
  have s2: "mastodon_post_step E this p2 w1 = (None, w2)"
    using mastodon_step_failed_eq [OF _ _ _ nd 6(7)] 6(4) by simp
  have s3: "mastodon_post_step E this p3 w2 = (Some (mastodon_record this p3 t3), w3)"
    using mastodon_step_published [OF _ _ _ nd 6(8)] 6(5) by simp
  from 6(2) s1 s2 s3 show ?case by (simp add: syncFromMastodon_def)
qed

theorem per_post_failure_is_contained_witness:
  "\<not> dryRun (demo_config False True None)
   \<and> fst (syncFromBluesky flaky (constructor (demo_config False True None)) start)
     = Inr [bluesky_record (constructor (demo_config False True None))
              (skeet ''at://a/3'' ''9'' False ''third'') ''m1'',
            bluesky_record (constructor (demo_config False True None))
              (skeet ''at://a/1'' ''7'' False ''first'') ''m3'']
   \<and> fst (syncFromMastodon flaky (constructor (demo_config False True None)) start)
     = Inr [mastodon_record (constructor (demo_config False True None))
              (toot ''103'' ''9'' False ''jerdog'' ''<p>three</p>'') ''at://1'',
            mastodon_record (constructor (demo_config False True None))
              (toot ''101'' ''7'' False ''jerdog'' ''<p>one</p>'') ''at://3'']
   \<and> (\<exists>out w'. syncFromBluesky flaky (constructor (demo_config False True None)) start = (Inr out, w'))
   \<and> (\<exists>out w'. syncFromMastodon flaky (constructor (demo_config False True None)) start = (Inr out, w'))"
proof -
  let ?svc = "constructor (demo_config False True None)"
  let ?p1 = "skeet ''at://a/3'' ''9'' False ''third''"
  let ?p2 = "skeet ''at://a/2'' ''8'' False ''second''"
  let ?p3 = "skeet ''at://a/1'' ''7'' False ''first''"
  let ?q1 = "toot ''103'' ''9'' False ''jerdog'' ''<p>three</p>''"
  let ?q2 = "toot ''102'' ''8'' False ''jerdog'' ''<p>two</p>''"
  let ?q3 = "toot ''101'' ''7'' False ''jerdog'' ''<p>one</p>''"
  let ?w0 = "snd (fetch_bluesky flaky ?svc start)"
  let ?w1 = "snd (publish_to_mastodon flaky ?svc (record_text ?p1) ?w0)"
  let ?w2 = "snd (publish_to_mastodon flaky ?svc (record_text ?p2) ?w1)"
  let ?w3 = "snd (publish_to_mastodon flaky ?svc (record_text ?p3) ?w2)"
  let ?v0 = "snd (fetch_mastodon flaky ?svc start)"
  let ?v1 = "snd (publish_to_bluesky flaky (cleanMastodonContent (content ?q1)) ?v0)"
  let ?v2 = "snd (publish_to_bluesky flaky (cleanMastodonContent (content ?q2)) ?v1)"
  let ?v3 = "snd (publish_to_bluesky flaky (cleanMastodonContent (content ?q3)) ?v2)"
  have nd: "\<not> dryRun (demo_config False True None)" by (simp add: demo_config_def)
  note T = per_post_failure_is_contained [where E = flaky and config = "demo_config False True None" and w = start]
  have f: "fetch_bluesky flaky ?svc start = (Inr [?p1, ?p2, ?p3], ?w0)" by code_simp
  have k1: "bluesky_kept flaky ?svc ?p1" by code_simp
  have k2: "bluesky_kept flaky ?svc ?p2" by code_simp
  have k3: "bluesky_kept flaky ?svc ?p3" by code_simp
  have u1: "publish_to_mastodon flaky ?svc (record_text ?p1) ?w0 = (Inr ''m1'', ?w1)" by code_simp
  have u2: "publish_to_mastodon flaky ?svc (record_text ?p2) ?w1 = (Inl refused, ?w2)" by code_simp
  have u3: "publish_to_mastodon flaky ?svc (record_text ?p3) ?w2 = (Inr ''m3'', ?w3)" by code_simp
  have b: "syncFromBluesky flaky ?svc start
           = (Inr [bluesky_record ?svc ?p1 ''m1'', bluesky_record ?svc ?p3 ''m3''], ?w3)"
    using T [THEN conjunct2, THEN conjunct2, THEN conjunct2, THEN conjunct2, THEN conjunct1,
             rule_format, OF nd f k1 k2 k3 u1 u2 u3] .
  have g: "fetch_mastodon flaky ?svc start = (Inr [?q1, ?q2, ?q3], ?v0)" by code_simp
  have j1: "mastodon_kept flaky ?svc ?q1" by code_simp
  have j2: "mastodon_kept flaky ?svc ?q2" by code_simp
  have j3: "mastodon_kept flaky ?svc ?q3" by code_simp
  have x1: "publish_to_bluesky flaky (cleanMastodonContent (content ?q1)) ?v0 = (Inr ''at://1'', ?v1)"
    by code_simp
  have x2: "publish_to_bluesky flaky (cleanMastodonContent (content ?q2)) ?v1 = (Inl refused, ?v2)"
    by code_simp
  have x3: "publish_to_bluesky flaky (cleanMastodonContent (content ?q3)) ?v2 = (Inr ''at://3'', ?v3)"
    by code_simp
  have m: "syncFromMastodon flaky ?svc start
           = (Inr [mastodon_record ?svc ?q1 ''at://1'', mastodon_record ?svc ?q3 ''at://3''], ?v3)"
    using T [THEN conjunct2, THEN conjunct2, THEN conjunct2, THEN conjunct2, THEN conjunct2,
             rule_format, OF nd g j1 j2 j3 x1 x2 x3] .
  have e1: "\<exists>out w'. syncFromBluesky flaky ?svc start = (Inr out, w')"
    using T [THEN conjunct1, rule_format, OF f] .
  have e2: "\<exists>out w'. syncFromMastodon flaky ?svc start = (Inr out, w')"
    using T [THEN conjunct2, THEN conjunct1, rule_format, OF g] .
  from nd b m e1 e2 show ?thesis by simp
qed

text \<open>
  C3. With \<open>ignoreReposts = true\<close> the loop of \<open>syncFromBluesky\<close> skips a post when
  \<open>record.reply\<close> is present, under the comment "Skip reposts if configured". A repost
  in an author feed carries its mark in \<open>reason\<close>, and the post under it is no reply: the
  loop does not skip it. A feed of one repost is synced, in a dry run and in a real run,
  where the post of somebody else is published on Mastodon.
\<close>

theorem bluesky_repost_is_synced:
  "ignoreReposts (demo_config True True None)
   \<and> ignoreReposts (demo_config False True None)
   \<and> reason_repost (reposted ''at://b/7'' ''9'' ''a post of somebody else'')
   \<and> fst (fetch_bluesky reposting (constructor (demo_config True True None)) start)
     = Inr [reposted ''at://b/7'' ''9'' ''a post of somebody else'']
   \<and> fst (syncFromBluesky reposting (constructor (demo_config True True None)) start)
     = Inr [\<lparr>source = ''bluesky'', sourceId = ''at://b/7'', targetId = ''DRY_RUN'',
             synced_text = ''a post of somebody else'', simulated = True, timestamp = ''9''\<rparr>]
   \<and> syncFromBluesky reposting (constructor (demo_config False True None)) start
     = (Inr [\<lparr>source = ''bluesky'', sourceId = ''at://b/7'', targetId = ''m1'',
              synced_text = ''a post of somebody else'', simulated = False, timestamp = ''9''\<rparr>],
        \<lparr>remote = 2,
         trace = [BskyGetAuthorFeed ''jerdog.dev'' 10,
                  Fetch \<lparr>req_base = ''https://m.example'', req_endpoint = ''/api/v1/statuses'',
                         req_method = ''POST'', req_bearer = Some ''token'',
                         req_status_text = Some ''a post of somebody else''\<rparr>]\<rparr>)"
  by code_simp

text \<open>
  The filter on the marks the code does read has a second limit, which is by design: with
  \<open>ignoreReposts = false\<close>, a reply that passes the watermark and whose publish call fails
  is dropped by the \<open>catch\<close> of the loop body, and is not in the output.
\<close>

theorem failed_reply_is_dropped:
  "\<not> ignoreReposts (demo_config False False None)
   \<and> fst (fetch_bluesky down (constructor (demo_config False False None)) start)
       = Inr [skeet ''at://a/2'' ''8'' True ''second, a reply'']
   \<and> record_reply (skeet ''at://a/2'' ''8'' True ''second, a reply'')
   \<and> \<not> older_than_lastSync down (constructor (demo_config False False None))
          (indexedAt (skeet ''at://a/2'' ''8'' True ''second, a reply''))
   \<and> fst (syncFromBluesky down (constructor (demo_config False False None)) start) = Inr []"
  by code_simp

text \<open>
  X2. The filter on the marks the code reads, \<open>record.reply\<close> on Bluesky and \<open>reblog\<close> on
  Mastodon. With \<open>ignoreReposts = true\<close> a post with the mark never appears: a direction
  gives the result of its loop on the fetched list without the marked posts, and every
  record of its output is the record of a fetched post without the mark. With
  \<open>ignoreReposts = false\<close> a post with the mark that passes the other filters appears in the
  output, behind the records of the posts before it, when the run is a dry run or its
  publish call succeeds.
\<close>

theorem repost_filter:
  fixes E :: "'s platform" and config :: SyncConfig
  defines "this \<equiv> constructor config"
  shows
   "(ignoreReposts config \<longrightarrow>
       (\<forall>feed w0. fetch_bluesky E this w = (Inr feed, w0) \<longrightarrow>
           syncFromBluesky E this w
           = (case bluesky_loop E this (filter (\<lambda>p. \<not> record_reply p) feed) [] w0 of
                (out, w') \<Rightarrow> (Inr out, w'))
         \<and> (\<forall>out w'. syncFromBluesky E this w = (Inr out, w') \<longrightarrow>
               (\<forall>sp \<in> set out. \<exists>p \<in> set feed.
                   \<not> record_reply p \<and> (\<exists>target. sp = bluesky_record this p target))))
     \<and> (\<forall>timeline w0. fetch_mastodon E this w = (Inr timeline, w0) \<longrightarrow>
           syncFromMastodon E this w
           = (case mastodon_loop E this (filter (\<lambda>p. \<not> reblog p) timeline) [] w0 of
                (out, w') \<Rightarrow> (Inr out, w'))
         \<and> (\<forall>out w'. syncFromMastodon E this w = (Inr out, w') \<longrightarrow>
               (\<forall>sp \<in> set out. \<exists>p \<in> set timeline.
                   \<not> reblog p \<and> (\<exists>target. sp = mastodon_record this p target)))))
  \<and> (\<not> ignoreReposts config \<longrightarrow>
       (\<forall>pre p post w0 out1 w1.
           fetch_bluesky E this w = (Inr (pre @ p # post), w0) \<longrightarrow>
           bluesky_loop E this pre [] w0 = (out1, w1) \<longrightarrow>
           record_reply p \<longrightarrow>
           \<not> older_than_lastSync E this (indexedAt p) \<longrightarrow>
             (dryRun config \<longrightarrow>
                (\<exists>rest w'. syncFromBluesky E this w
                   = (Inr (out1 @ bluesky_record this p ''DRY_RUN'' # rest), w')))
           \<and> (\<forall>target w2. \<not> dryRun config \<longrightarrow>
                publish_to_mastodon E this (record_text p) w1 = (Inr target, w2) \<longrightarrow>
                (\<exists>rest w'. syncFromBluesky E this w
                   = (Inr (out1 @ bluesky_record this p target # rest), w'))))
     \<and> (\<forall>pre p post w0 out1 w1.
           fetch_mastodon E this w = (Inr (pre @ p # post), w0) \<longrightarrow>
           mastodon_loop E this pre [] w0 = (out1, w1) \<longrightarrow>
           reblog p \<longrightarrow>
           \<not> older_than_lastSync E this (created_at p) \<longrightarrow>
           toLowerCase (account_username p) = toLowerCase (mastodonUsername config) \<longrightarrow>
             (dryRun config \<longrightarrow>
                (\<exists>rest w'. syncFromMastodon E this w
                   = (Inr (out1 @ mastodon_record this p ''DRY_RUN'' # rest), w')))
           \<and> (\<forall>target w2. \<not> dryRun config \<longrightarrow>
                publish_to_bluesky E (cleanMastodonContent (content p)) w1 = (Inr target, w2) \<longrightarrow>
                (\<exists>rest w'. syncFromMastodon E this w
                   = (Inr (out1 @ mastodon_record this p target # rest), w')))))"
proof (intro conjI impI allI ballI, goal_cases)
  case (1 feed w0)
  then have ig: "this_ignoreReposts this" by (simp add: this_def)
  have "bluesky_loop E this (filter (\<lambda>p. \<not> record_reply p) feed) [] w0
        = bluesky_loop E this feed [] w0"
    by (rule bluesky_loop_filter) (simp add: bluesky_step_skip ig)
  with 1(2) show ?case by (simp add: syncFromBluesky_def)
next
  case (2 feed w0 out w' sp)
  then have ig: "this_ignoreReposts this" by (simp add: this_def)
  from syncFromBluesky_origin [OF 2(3,4)] 2(2) ig show ?case by auto
next
  case (3 timeline w0)
  then have ig: "this_ignoreReposts this" by (simp add: this_def)
  have "mastodon_loop E this (filter (\<lambda>p. \<not> reblog p) timeline) [] w0
        = mastodon_loop E this timeline [] w0"
    by (rule mastodon_loop_filter) (simp add: mastodon_step_skip ig)
  with 3(2) show ?case by (simp add: syncFromMastodon_def)
next
  case (4 timeline w0 out w' sp)
  then have ig: "this_ignoreReposts this" by (simp add: this_def)
  from syncFromMastodon_origin [OF 4(3,4)] 4(2) ig show ?case by auto
next
  case (5 pre p post w0 out1 w1)
  then have ni: "\<not> (this_ignoreReposts this \<and> record_reply p)" and d: "this_dryRun this"
    by (simp_all add: this_def)
  from syncFromBluesky_at [OF 5(2,3) bluesky_step_dry [OF 5(5) ni d]] show ?case .
next
  case (6 pre p post w0 out1 w1 target w2)
  then have ni: "\<not> (this_ignoreReposts this \<and> record_reply p)" and d: "\<not> this_dryRun this"
    by (simp_all add: this_def)
  from syncFromBluesky_at [OF 6(2,3) bluesky_step_published [OF 6(5) ni d 6(7)]] show ?case .
next
  case (7 pre p post w0 out1 w1)
  then have ni: "\<not> (this_ignoreReposts this \<and> reblog p)" and d: "this_dryRun this"
    and a: "toLowerCase (account_username p) = toLowerCase (mastodonUsername (this_config this))"
    by (simp_all add: this_def)
  from syncFromMastodon_at [OF 7(2,3) mastodon_step_dry [OF 7(5) ni a d]] show ?case .
next
  case (8 pre p post w0 out1 w1 target w2)
  then have ni: "\<not> (this_ignoreReposts this \<and> reblog p)" and d: "\<not> this_dryRun this"
    and a: "toLowerCase (account_username p) = toLowerCase (mastodonUsername (this_config this))"
    by (simp_all add: this_def)
  from syncFromMastodon_at [OF 8(2,3) mastodon_step_published [OF 8(5) ni a d 8(8)]] show ?case .
qed

theorem repost_filter_witness:
  "ignoreReposts (demo_config True True (Some ''5''))
   \<and> syncFromBluesky quiet (constructor (demo_config True True (Some ''5''))) start
     = (case bluesky_loop quiet (constructor (demo_config True True (Some ''5'')))
               [skeet ''at://a/3'' ''9'' False ''third'', skeet ''at://a/1'' ''3'' False ''first''] []
               (snd (fetch_bluesky quiet (constructor (demo_config True True (Some ''5''))) start)) of
          (out, w') \<Rightarrow> (Inr out, w'))
   \<and> syncFromMastodon quiet (constructor (demo_config True True (Some ''5''))) start
     = (case mastodon_loop quiet (constructor (demo_config True True (Some ''5'')))
               [toot ''103'' ''9'' False ''JerDog'' ''<p>Hi</p>'',
                toot ''101'' ''7'' False ''alice'' ''<p>other</p>'',
                toot ''100'' ''3'' False ''jerdog'' ''old''] []
               (snd (fetch_mastodon quiet (constructor (demo_config True True (Some ''5''))) start)) of
          (out, w') \<Rightarrow> (Inr out, w'))
   \<and> \<not> ignoreReposts (demo_config True False (Some ''5''))
   \<and> (\<exists>rest w'. syncFromBluesky quiet (constructor (demo_config True False (Some ''5''))) start
         = (Inr ([bluesky_record (constructor (demo_config True False (Some ''5'')))
                    (skeet ''at://a/3'' ''9'' False ''third'') ''DRY_RUN'']
                 @ bluesky_record (constructor (demo_config True False (Some ''5'')))
                     (skeet ''at://a/2'' ''8'' True ''second, a reply'') ''DRY_RUN'' # rest), w'))
   \<and> (\<exists>rest w'. syncFromMastodon quiet (constructor (demo_config True False (Some ''5''))) start
         = (Inr ([mastodon_record (constructor (demo_config True False (Some ''5'')))
                    (toot ''103'' ''9'' False ''JerDog'' ''<p>Hi</p>'') ''DRY_RUN'']
                 @ mastodon_record (constructor (demo_config True False (Some ''5'')))
                     (toot ''102'' ''8'' True ''jerdog'' ''<p>boost</p>'') ''DRY_RUN'' # rest), w'))
   \<and> (\<exists>rest w'. syncFromBluesky quiet (constructor (demo_config False False (Some ''5''))) start
         = (Inr ([bluesky_record (constructor (demo_config False False (Some ''5'')))
                    (skeet ''at://a/3'' ''9'' False ''third'') ''m1'']
                 @ bluesky_record (constructor (demo_config False False (Some ''5'')))
                     (skeet ''at://a/2'' ''8'' True ''second, a reply'') ''m2'' # rest), w'))
   \<and> (\<exists>rest w'. syncFromMastodon quiet (constructor (demo_config False False (Some ''5''))) start
         = (Inr ([mastodon_record (constructor (demo_config False False (Some ''5'')))
                    (toot ''103'' ''9'' False ''JerDog'' ''<p>Hi</p>'') ''at://1'']
                 @ mastodon_record (constructor (demo_config False False (Some ''5'')))
                     (toot ''102'' ''8'' True ''jerdog'' ''<p>boost</p>'') ''at://2'' # rest), w'))"
proof -
  let ?ign = "demo_config True True (Some ''5'')"
  let ?dry = "demo_config True False (Some ''5'')"
  let ?real = "demo_config False False (Some ''5'')"
  let ?p1 = "skeet ''at://a/3'' ''9'' False ''third''"
  let ?p2 = "skeet ''at://a/2'' ''8'' True ''second, a reply''"
  let ?p3 = "skeet ''at://a/1'' ''3'' False ''first''"
  let ?q1 = "toot ''103'' ''9'' False ''JerDog'' ''<p>Hi</p>''"
  let ?q2 = "toot ''102'' ''8'' True ''jerdog'' ''<p>boost</p>''"
  let ?q3 = "toot ''101'' ''7'' False ''alice'' ''<p>other</p>''"
  let ?q4 = "toot ''100'' ''3'' False ''jerdog'' ''old''"
  have ig: "ignoreReposts ?ign" by (simp add: demo_config_def)
  have nd: "\<not> ignoreReposts ?dry" and dd: "dryRun ?dry" by (simp_all add: demo_config_def)
  have nr: "\<not> ignoreReposts ?real" and rr: "\<not> dryRun ?real" by (simp_all add: demo_config_def)
  note I = repost_filter [where E = quiet and config = ?ign and w = start, THEN conjunct1, rule_format, OF ig]
  note D = repost_filter [where E = quiet and config = ?dry and w = start, THEN conjunct2, rule_format, OF nd]
  note R = repost_filter [where E = quiet and config = ?real and w = start, THEN conjunct2, rule_format, OF nr]
  \<comment> \<open>reposts ignored\<close>
  have f1: "fetch_bluesky quiet (constructor ?ign) start
            = (Inr [?p1, ?p2, ?p3], snd (fetch_bluesky quiet (constructor ?ign) start))"
    by code_simp
  have g1: "fetch_mastodon quiet (constructor ?ign) start
            = (Inr [?q1, ?q2, ?q3, ?q4], snd (fetch_mastodon quiet (constructor ?ign) start))"
    by code_simp
  have i1: "syncFromBluesky quiet (constructor ?ign) start
     = (case bluesky_loop quiet (constructor ?ign) [?p1, ?p3] []
               (snd (fetch_bluesky quiet (constructor ?ign) start)) of
          (out, w') \<Rightarrow> (Inr out, w'))"
    using I [THEN conjunct1, rule_format, OF f1, THEN conjunct1] by (simp add: skeet_def)
  have i2: "syncFromMastodon quiet (constructor ?ign) start
     = (case mastodon_loop quiet (constructor ?ign) [?q1, ?q3, ?q4] []
               (snd (fetch_mastodon quiet (constructor ?ign) start)) of
          (out, w') \<Rightarrow> (Inr out, w'))"
    using I [THEN conjunct2, rule_format, OF g1, THEN conjunct1] by (simp add: toot_def)
  \<comment> \<open>reposts kept, dry run\<close>
  have f2: "fetch_bluesky quiet (constructor ?dry) start
            = (Inr ([?p1] @ ?p2 # [?p3]), snd (fetch_bluesky quiet (constructor ?dry) start))"
    by code_simp
  have l2: "bluesky_loop quiet (constructor ?dry) [?p1] [] (snd (fetch_bluesky quiet (constructor ?dry) start))
            = ([bluesky_record (constructor ?dry) ?p1 ''DRY_RUN''],
               snd (fetch_bluesky quiet (constructor ?dry) start))"
    by code_simp
  have y2: "record_reply ?p2" by (simp add: skeet_def)
  have o2: "\<not> older_than_lastSync quiet (constructor ?dry) (indexedAt ?p2)" by code_simp
  have d1: "\<exists>rest w'. syncFromBluesky quiet (constructor ?dry) start
         = (Inr ([bluesky_record (constructor ?dry) ?p1 ''DRY_RUN'']
                 @ bluesky_record (constructor ?dry) ?p2 ''DRY_RUN'' # rest), w')"
    using D [THEN conjunct1, rule_format, OF f2 l2 y2 o2, THEN conjunct1, rule_format, OF dd] .
  have g2: "fetch_mastodon quiet (constructor ?dry) start
            = (Inr ([?q1] @ ?q2 # [?q3, ?q4]), snd (fetch_mastodon quiet (constructor ?dry) start))"
    by code_simp
  have m2: "mastodon_loop quiet (constructor ?dry) [?q1] [] (snd (fetch_mastodon quiet (constructor ?dry) start))
            = ([mastodon_record (constructor ?dry) ?q1 ''DRY_RUN''],
               snd (fetch_mastodon quiet (constructor ?dry) start))"
    by code_simp
  have z2: "reblog ?q2" by (simp add: toot_def)
  have n2: "\<not> older_than_lastSync quiet (constructor ?dry) (created_at ?q2)" by code_simp
  have a2: "toLowerCase (account_username ?q2) = toLowerCase (mastodonUsername ?dry)" by code_simp
  have d2: "\<exists>rest w'. syncFromMastodon quiet (constructor ?dry) start
         = (Inr ([mastodon_record (constructor ?dry) ?q1 ''DRY_RUN'']
                 @ mastodon_record (constructor ?dry) ?q2 ''DRY_RUN'' # rest), w')"
    using D [THEN conjunct2, rule_format, OF g2 m2 z2 n2 a2, THEN conjunct1, rule_format, OF dd] .
  \<comment> \<open>reposts kept, published\<close>
  let ?w0 = "snd (fetch_bluesky quiet (constructor ?real) start)"
  let ?w1 = "snd (bluesky_loop quiet (constructor ?real) [?p1] [] ?w0)"
  let ?v0 = "snd (fetch_mastodon quiet (constructor ?real) start)"
  let ?v1 = "snd (mastodon_loop quiet (constructor ?real) [?q1] [] ?v0)"
  have f3: "fetch_bluesky quiet (constructor ?real) start = (Inr ([?p1] @ ?p2 # [?p3]), ?w0)"
    by code_simp
  have l3: "bluesky_loop quiet (constructor ?real) [?p1] [] ?w0
            = ([bluesky_record (constructor ?real) ?p1 ''m1''], ?w1)"
    by code_simp
  have o3: "\<not> older_than_lastSync quiet (constructor ?real) (indexedAt ?p2)" by code_simp
  have u3: "publish_to_mastodon quiet (constructor ?real) (record_text ?p2) ?w1
            = (Inr ''m2'', snd (publish_to_mastodon quiet (constructor ?real) (record_text ?p2) ?w1))"
    by code_simp
  have r1: "\<exists>rest w'. syncFromBluesky quiet (constructor ?real) start
         = (Inr ([bluesky_record (constructor ?real) ?p1 ''m1'']
                 @ bluesky_record (constructor ?real) ?p2 ''m2'' # rest), w')"
    using R [THEN conjunct1, rule_format, OF f3 l3 y2 o3, THEN conjunct2, rule_format, OF rr u3] .
  have g3: "fetch_mastodon quiet (constructor ?real) start = (Inr ([?q1] @ ?q2 # [?q3, ?q4]), ?v0)"
    by code_simp
  have m3: "mastodon_loop quiet (constructor ?real) [?q1] [] ?v0
            = ([mastodon_record (constructor ?real) ?q1 ''at://1''], ?v1)"
    by code_simp
  have n3: "\<not> older_than_lastSync quiet (constructor ?real) (created_at ?q2)" by code_simp
  have a3: "toLowerCase (account_username ?q2) = toLowerCase (mastodonUsername ?real)" by code_simp
  have x3: "publish_to_bluesky quiet (cleanMastodonContent (content ?q2)) ?v1
            = (Inr ''at://2'', snd (publish_to_bluesky quiet (cleanMastodonContent (content ?q2)) ?v1))"
    by code_simp
  have r2: "\<exists>rest w'. syncFromMastodon quiet (constructor ?real) start
         = (Inr ([mastodon_record (constructor ?real) ?q1 ''at://1'']
                 @ mastodon_record (constructor ?real) ?q2 ''at://2'' # rest), w')"
    using R [THEN conjunct2, rule_format, OF g3 m3 z2 n3 a3, THEN conjunct2, rule_format, OF rr x3] .
  show ?thesis
    apply (intro conjI)
    by (rule ig i1 i2 nd d1 d2 r1 r2)+
qed

text \<open>
  C6, as the claim states it, fails: a timeline post of \<open>JerDog\<close>, with \<open>jerdog\<close> configured,
  has an author name that differs from the configured one, and is synced.
\<close>

theorem author_filter_counterexample:
  "account_username (toot ''103'' ''9'' False ''JerDog'' ''<p>Hi</p>'')
     \<noteq> mastodonUsername (demo_config True True None)
   \<and> fst (fetch_mastodon (scripted [] [toot ''103'' ''9'' False ''JerDog'' ''<p>Hi</p>''] None (\<lambda>n. None))
            (constructor (demo_config True True None)) start)
     = Inr [toot ''103'' ''9'' False ''JerDog'' ''<p>Hi</p>'']
   \<and> fst (syncFromMastodon (scripted [] [toot ''103'' ''9'' False ''JerDog'' ''<p>Hi</p>''] None (\<lambda>n. None))
            (constructor (demo_config True True None)) start)
     = Inr [\<lparr>source = ''mastodon'', sourceId = ''103'', targetId = ''DRY_RUN'',
             synced_text = ''Hi'', simulated = True, timestamp = ''9''\<rparr>]"
  by code_simp


text \<open>
  C6, amended. A fetched timeline post whose author name differs from the configured name
  by more than letter case is passed over, whatever its timestamp, its reblog mark or the
  mode of the run: the body of the loop does nothing for it, the direction gives the result
  of its loop on the list without such posts, and every record of the output is the record
  of a fetched post whose author name equals the configured one up to letter case.
\<close>

theorem author_filter:
  fixes E :: "'s platform" and config :: SyncConfig
  defines "this \<equiv> constructor config"
  shows
   "(\<forall>p u. toLowerCase (account_username p) \<noteq> toLowerCase (mastodonUsername config) \<longrightarrow>
        mastodon_post_step E this p u = (None, u))
  \<and> (\<forall>timeline w0. fetch_mastodon E this w = (Inr timeline, w0) \<longrightarrow>
        syncFromMastodon E this w
        = (case mastodon_loop E this
                  (filter (\<lambda>p. toLowerCase (account_username p)
                                = toLowerCase (mastodonUsername config)) timeline) [] w0 of
             (out, w') \<Rightarrow> (Inr out, w'))
      \<and> (\<forall>out w'. syncFromMastodon E this w = (Inr out, w') \<longrightarrow>
            (\<forall>sp \<in> set out. \<exists>p \<in> set timeline.
                toLowerCase (account_username p) = toLowerCase (mastodonUsername config)
                \<and> (\<exists>target. sp = mastodon_record this p target))))"
proof (intro conjI impI allI ballI, goal_cases)
  case (1 p u)
  then show ?case by (simp add: mastodon_step_skip this_def)
next
  case (2 timeline w0)
  have "mastodon_loop E this
          (filter (\<lambda>p. toLowerCase (account_username p) = toLowerCase (mastodonUsername config))
             timeline) [] w0
        = mastodon_loop E this timeline [] w0"
    by (rule mastodon_loop_filter) (simp add: mastodon_step_skip this_def)
  with 2 show ?case by (simp add: syncFromMastodon_def)
next
  case (3 timeline w0 out w' sp)
  from syncFromMastodon_origin [OF 3(2,3)] 3(1) show ?case by (auto simp: this_def)
qed

theorem author_filter_witness:
  "toLowerCase (account_username (toot ''101'' ''7'' False ''alice'' ''<p>other</p>''))
     \<noteq> toLowerCase (mastodonUsername (demo_config True False None))
   \<and> mastodon_post_step quiet (constructor (demo_config True False None))
        (toot ''101'' ''7'' False ''alice'' ''<p>other</p>'') start = (None, start)
   \<and> syncFromMastodon quiet (constructor (demo_config True False None)) start
     = (case mastodon_loop quiet (constructor (demo_config True False None))
               [toot ''103'' ''9'' False ''JerDog'' ''<p>Hi</p>'',
                toot ''102'' ''8'' True ''jerdog'' ''<p>boost</p>'',
                toot ''100'' ''3'' False ''jerdog'' ''old''] []
               (snd (fetch_mastodon quiet (constructor (demo_config True False None)) start)) of
          (out, w') \<Rightarrow> (Inr out, w'))"
proof -
  let ?cfg = "demo_config True False None"
  let ?q1 = "toot ''103'' ''9'' False ''JerDog'' ''<p>Hi</p>''"
  let ?q2 = "toot ''102'' ''8'' True ''jerdog'' ''<p>boost</p>''"
  let ?q3 = "toot ''101'' ''7'' False ''alice'' ''<p>other</p>''"
  let ?q4 = "toot ''100'' ''3'' False ''jerdog'' ''old''"
  note A = author_filter [where E = quiet and config = ?cfg and w = start]
  have ne: "toLowerCase (account_username ?q3) \<noteq> toLowerCase (mastodonUsername ?cfg)"
    by code_simp
  have a1: "mastodon_post_step quiet (constructor ?cfg) ?q3 start = (None, start)"
    using A [THEN conjunct1, rule_format, OF ne] .
  have g: "fetch_mastodon quiet (constructor ?cfg) start
           = (Inr [?q1, ?q2, ?q3, ?q4], snd (fetch_mastodon quiet (constructor ?cfg) start))"
    by code_simp
  have fl: "filter (\<lambda>p. toLowerCase (account_username p) = toLowerCase (mastodonUsername ?cfg))
              [?q1, ?q2, ?q3, ?q4] = [?q1, ?q2, ?q4]"
    by code_simp
  have a2: "syncFromMastodon quiet (constructor ?cfg) start
     = (case mastodon_loop quiet (constructor ?cfg) [?q1, ?q2, ?q4] []
               (snd (fetch_mastodon quiet (constructor ?cfg) start)) of
          (out, w') \<Rightarrow> (Inr out, w'))"
    using A [THEN conjunct2, rule_format, OF g, THEN conjunct1] unfolding fl .
  show ?thesis
    apply (intro conjI)
    by (rule ne a1 a2)+
qed


text \<open>
  C10. For a fetched timeline post that passes the watermark and the reblog filter, the
  author check is the comparison of the two names in lower case. When they differ the post
  is passed over with no effect. When they are equal the post goes on to be synced: in a
  dry run its record is in the output, outside a dry run its record is in the output when
  the publish call succeeds, and the publish call has been made when it fails. So a post
  whose author name differs from the configured one in letter case only is synced.
\<close>

theorem author_check_ignores_case:
  fixes E :: "'s platform" and config :: SyncConfig
  defines "this \<equiv> constructor config"
  assumes "fetch_mastodon E this w = (Inr (pre @ p # post), w0)"
    and "mastodon_loop E this pre [] w0 = (out1, w1)"
    and "\<not> older_than_lastSync E this (created_at p)"
    and "\<not> (ignoreReposts config \<and> reblog p)"
  shows
   "(toLowerCase (account_username p) \<noteq> toLowerCase (mastodonUsername config) \<longrightarrow>
        mastodon_post_step E this p w1 = (None, w1)
      \<and> syncFromMastodon E this w
        = (case mastodon_loop E this post out1 w1 of (out, w') \<Rightarrow> (Inr out, w')))
  \<and> (toLowerCase (account_username p) = toLowerCase (mastodonUsername config) \<longrightarrow>
        (dryRun config \<longrightarrow>
           (\<exists>rest w'. syncFromMastodon E this w
              = (Inr (out1 @ mastodon_record this p ''DRY_RUN'' # rest), w')))
      \<and> (\<forall>target w2. \<not> dryRun config \<longrightarrow>
           publish_to_bluesky E (cleanMastodonContent (content p)) w1 = (Inr target, w2) \<longrightarrow>
           (\<exists>rest w'. syncFromMastodon E this w
              = (Inr (out1 @ mastodon_record this p target # rest), w')))
      \<and> (\<forall>e w2. \<not> dryRun config \<longrightarrow>
           publish_to_bluesky E (cleanMastodonContent (content p)) w1 = (Inl e, w2) \<longrightarrow>
           syncFromMastodon E this w
           = (case mastodon_loop E this post out1 w2 of (out, w') \<Rightarrow> (Inr out, w'))))"
proof -
  have f: "fetch_mastodon E this w = (Inr (pre @ p # post), w0)" using assms(2) .
  have l: "mastodon_loop E this pre [] w0 = (out1, w1)" using assms(3) .
  have o: "\<not> older_than_lastSync E this (created_at p)" using assms(4) .
  have r: "\<not> (this_ignoreReposts this \<and> reblog p)" using assms(5) by (simp add: this_def)
  show ?thesis
  proof (intro conjI impI allI, goal_cases)
    case 1
    then show ?case by (simp add: mastodon_step_skip this_def)
  next
    case 2
    then have "mastodon_post_step E this p w1 = (None, w1)"
      by (simp add: mastodon_step_skip this_def)
    from syncFromMastodon_past [OF f l this] show ?case .
  next
    case 3
    then have a: "toLowerCase (account_username p) = toLowerCase (mastodonUsername (this_config this))"
      and d: "this_dryRun this" by (simp_all add: this_def)
    from syncFromMastodon_at [OF f l mastodon_step_dry [OF o r a d]] show ?case .
  next
    case (4 target w2)
    then have a: "toLowerCase (account_username p) = toLowerCase (mastodonUsername (this_config this))"
      and d: "\<not> this_dryRun this" by (simp_all add: this_def)
    from syncFromMastodon_at [OF f l mastodon_step_published [OF o r a d 4(3)]] show ?case .
  next
    case (5 e w2)
    then have a: "toLowerCase (account_username p) = toLowerCase (mastodonUsername (this_config this))"
      and d: "\<not> this_dryRun this" by (simp_all add: this_def)
    from syncFromMastodon_past [OF f l mastodon_step_failed_eq [OF o r a d 5(3)]] show ?case .
  qed
qed

theorem author_check_ignores_case_witness:
  "account_username (toot ''103'' ''9'' False ''JerDog'' ''<p>Hi</p>'')
     \<noteq> mastodonUsername (demo_config True True (Some ''5''))
   \<and> toLowerCase (account_username (toot ''103'' ''9'' False ''JerDog'' ''<p>Hi</p>''))
     = toLowerCase (mastodonUsername (demo_config True True (Some ''5'')))
   \<and> (\<exists>rest w'. syncFromMastodon quiet (constructor (demo_config True True (Some ''5''))) start
         = (Inr ([] @ mastodon_record (constructor (demo_config True True (Some ''5'')))
                        (toot ''103'' ''9'' False ''JerDog'' ''<p>Hi</p>'') ''DRY_RUN'' # rest), w'))
   \<and> (\<exists>rest w'. syncFromMastodon quiet (constructor (demo_config False True (Some ''5''))) start
         = (Inr ([] @ mastodon_record (constructor (demo_config False True (Some ''5'')))
                        (toot ''103'' ''9'' False ''JerDog'' ''<p>Hi</p>'') ''at://1'' # rest), w'))
   \<and> toLowerCase (account_username (toot ''101'' ''7'' False ''alice'' ''<p>other</p>''))
     \<noteq> toLowerCase (mastodonUsername (demo_config False False (Some ''5'')))
   \<and> syncFromMastodon quiet (constructor (demo_config False False (Some ''5''))) start
     = (case mastodon_loop quiet (constructor (demo_config False False (Some ''5'')))
               [toot ''100'' ''3'' False ''jerdog'' ''old'']
               (fst (mastodon_loop quiet (constructor (demo_config False False (Some ''5'')))
                       [toot ''103'' ''9'' False ''JerDog'' ''<p>Hi</p>'',
                        toot ''102'' ''8'' True ''jerdog'' ''<p>boost</p>''] []
                       (snd (fetch_mastodon quiet (constructor (demo_config False False (Some ''5''))) start))))
               (snd (mastodon_loop quiet (constructor (demo_config False False (Some ''5'')))
                       [toot ''103'' ''9'' False ''JerDog'' ''<p>Hi</p>'',
                        toot ''102'' ''8'' True ''jerdog'' ''<p>boost</p>''] []
                       (snd (fetch_mastodon quiet (constructor (demo_config False False (Some ''5''))) start)))) of
          (out, w') \<Rightarrow> (Inr out, w'))
   \<and> syncFromMastodon flaky (constructor (demo_config False True None)) start
     = (case mastodon_loop flaky (constructor (demo_config False True None))
               [toot ''101'' ''7'' False ''jerdog'' ''<p>one</p>'']
               (fst (mastodon_loop flaky (constructor (demo_config False True None))
                       [toot ''103'' ''9'' False ''jerdog'' ''<p>three</p>''] []
                       (snd (fetch_mastodon flaky (constructor (demo_config False True None)) start))))
               (snd (publish_to_bluesky flaky
                       (cleanMastodonContent (content (toot ''102'' ''8'' False ''jerdog'' ''<p>two</p>'')))
                       (snd (mastodon_loop flaky (constructor (demo_config False True None))
                              [toot ''103'' ''9'' False ''jerdog'' ''<p>three</p>''] []
                              (snd (fetch_mastodon flaky (constructor (demo_config False True None)) start)))))) of
          (out, w') \<Rightarrow> (Inr out, w'))"
proof -
  let ?dry = "demo_config True True (Some ''5'')"
  let ?real = "demo_config False True (Some ''5'')"
  let ?keep = "demo_config False False (Some ''5'')"
  let ?fl = "demo_config False True None"
  let ?q1 = "toot ''103'' ''9'' False ''JerDog'' ''<p>Hi</p>''"
  let ?q2 = "toot ''102'' ''8'' True ''jerdog'' ''<p>boost</p>''"
  let ?q3 = "toot ''101'' ''7'' False ''alice'' ''<p>other</p>''"
  let ?q4 = "toot ''100'' ''3'' False ''jerdog'' ''old''"
  let ?r1 = "toot ''103'' ''9'' False ''jerdog'' ''<p>three</p>''"
  let ?r2 = "toot ''102'' ''8'' False ''jerdog'' ''<p>two</p>''"
  let ?r3 = "toot ''101'' ''7'' False ''jerdog'' ''<p>one</p>''"
  have ne: "account_username ?q1 \<noteq> mastodonUsername ?dry" by code_simp
  have eq: "toLowerCase (account_username ?q1) = toLowerCase (mastodonUsername ?dry)" by code_simp
  \<comment> \<open>the first post, in a dry run\<close>
  have g1: "fetch_mastodon quiet (constructor ?dry) start
            = (Inr ([] @ ?q1 # [?q2, ?q3, ?q4]), snd (fetch_mastodon quiet (constructor ?dry) start))"
    by code_simp
  have l1: "mastodon_loop quiet (constructor ?dry) [] [] (snd (fetch_mastodon quiet (constructor ?dry) start))
            = ([], snd (fetch_mastodon quiet (constructor ?dry) start))"
    by simp
  have o1: "\<not> older_than_lastSync quiet (constructor ?dry) (created_at ?q1)" by code_simp
  have b1: "\<not> (ignoreReposts ?dry \<and> reblog ?q1)" by code_simp
  have dd: "dryRun ?dry" by (simp add: demo_config_def)
  have c1: "\<exists>rest w'. syncFromMastodon quiet (constructor ?dry) start
         = (Inr ([] @ mastodon_record (constructor ?dry) ?q1 ''DRY_RUN'' # rest), w')"
    using author_check_ignores_case [OF g1 l1 o1 b1, THEN conjunct2, rule_format, OF eq,
            THEN conjunct1, rule_format, OF dd] .
  \<comment> \<open>the first post, published\<close>
  have eq2: "toLowerCase (account_username ?q1) = toLowerCase (mastodonUsername ?real)" by code_simp
  have g2: "fetch_mastodon quiet (constructor ?real) start
            = (Inr ([] @ ?q1 # [?q2, ?q3, ?q4]), snd (fetch_mastodon quiet (constructor ?real) start))"
    by code_simp
  have l2: "mastodon_loop quiet (constructor ?real) [] [] (snd (fetch_mastodon quiet (constructor ?real) start))
            = ([], snd (fetch_mastodon quiet (constructor ?real) start))"
    by simp
  have o2: "\<not> older_than_lastSync quiet (constructor ?real) (created_at ?q1)" by code_simp
  have b2: "\<not> (ignoreReposts ?real \<and> reblog ?q1)" by code_simp
  have nd: "\<not> dryRun ?real" by (simp add: demo_config_def)
  have u2: "publish_to_bluesky quiet (cleanMastodonContent (content ?q1))
              (snd (fetch_mastodon quiet (constructor ?real) start))
            = (Inr ''at://1'',
               snd (publish_to_bluesky quiet (cleanMastodonContent (content ?q1))
                      (snd (fetch_mastodon quiet (constructor ?real) start))))"
    by code_simp
  have c2: "\<exists>rest w'. syncFromMastodon quiet (constructor ?real) start
         = (Inr ([] @ mastodon_record (constructor ?real) ?q1 ''at://1'' # rest), w')"
    using author_check_ignores_case [OF g2 l2 o2 b2, THEN conjunct2, rule_format, OF eq2,
            THEN conjunct2, THEN conjunct1, rule_format, OF nd u2] .
  \<comment> \<open>a post of another account\<close>
  let ?v0 = "snd (fetch_mastodon quiet (constructor ?keep) start)"
  have ne3: "toLowerCase (account_username ?q3) \<noteq> toLowerCase (mastodonUsername ?keep)" by code_simp
  have g3: "fetch_mastodon quiet (constructor ?keep) start = (Inr ([?q1, ?q2] @ ?q3 # [?q4]), ?v0)"
    by code_simp
  have l3: "mastodon_loop quiet (constructor ?keep) [?q1, ?q2] [] ?v0
            = (fst (mastodon_loop quiet (constructor ?keep) [?q1, ?q2] [] ?v0),
               snd (mastodon_loop quiet (constructor ?keep) [?q1, ?q2] [] ?v0))"
    by simp
  have o3: "\<not> older_than_lastSync quiet (constructor ?keep) (created_at ?q3)" by code_simp
  have b3: "\<not> (ignoreReposts ?keep \<and> reblog ?q3)" by code_simp
  have c3: "syncFromMastodon quiet (constructor ?keep) start
     = (case mastodon_loop quiet (constructor ?keep) [?q4]
               (fst (mastodon_loop quiet (constructor ?keep) [?q1, ?q2] [] ?v0))
               (snd (mastodon_loop quiet (constructor ?keep) [?q1, ?q2] [] ?v0)) of
          (out, w') \<Rightarrow> (Inr out, w'))"
    using author_check_ignores_case [OF g3 l3 o3 b3, THEN conjunct1, rule_format, OF ne3,
            THEN conjunct2] .
  \<comment> \<open>a post of the account whose publication fails\<close>
  let ?u0 = "snd (fetch_mastodon flaky (constructor ?fl) start)"
  let ?u1 = "snd (mastodon_loop flaky (constructor ?fl) [?r1] [] ?u0)"
  have eq4: "toLowerCase (account_username ?r2) = toLowerCase (mastodonUsername ?fl)" by code_simp
  have g4: "fetch_mastodon flaky (constructor ?fl) start = (Inr ([?r1] @ ?r2 # [?r3]), ?u0)"
    by code_simp
  have l4: "mastodon_loop flaky (constructor ?fl) [?r1] [] ?u0
            = (fst (mastodon_loop flaky (constructor ?fl) [?r1] [] ?u0), ?u1)"
    by simp
  have o4: "\<not> older_than_lastSync flaky (constructor ?fl) (created_at ?r2)" by code_simp
  have b4: "\<not> (ignoreReposts ?fl \<and> reblog ?r2)" by code_simp
  have n4: "\<not> dryRun ?fl" by (simp add: demo_config_def)
  have x4: "publish_to_bluesky flaky (cleanMastodonContent (content ?r2)) ?u1
            = (Inl refused, snd (publish_to_bluesky flaky (cleanMastodonContent (content ?r2)) ?u1))"
    by code_simp
  have c4: "syncFromMastodon flaky (constructor ?fl) start
     = (case mastodon_loop flaky (constructor ?fl) [?r3]
               (fst (mastodon_loop flaky (constructor ?fl) [?r1] [] ?u0))
               (snd (publish_to_bluesky flaky (cleanMastodonContent (content ?r2)) ?u1)) of
          (out, w') \<Rightarrow> (Inr out, w'))"
    using author_check_ignores_case [OF g4 l4 o4 b4, THEN conjunct2, rule_format, OF eq4,
            THEN conjunct2, THEN conjunct2, rule_format, OF n4 x4] .
  show ?thesis
    apply (intro conjI)
    by (rule ne eq c1 c2 ne3 c3 c4)+
qed

text \<open>
  C8, as the claim states it, fails: \<open>POSTS_TO_SYNC = "-5"\<close> gives \<open>postsToSync = -5\<close>, in the
  configuration and in the service constructed from it.
\<close>

theorem posts_to_sync_counterexample:
  "postsToSync (make_config (demo_env (Some ''-5'') (Some ''true'')) None) = - 5
   \<and> this_postsToSync (constructor (make_config (demo_env (Some ''-5'') (Some ''true'')) None)) = - 5
   \<and> \<not> 0 < postsToSync (make_config (demo_env (Some ''-5'') (Some ''true'')) None)"
  by code_simp


text \<open>
  C8, amended. \<open>postsToSync\<close> is never 0, and the constructor copies it unchanged. It is 10
  when \<open>POSTS_TO_SYNC\<close> is absent, when \<open>parseInt\<close> finds no number in it (NaN), and when the
  number is 0; otherwise it is the number \<open>parseInt\<close> reads. So it is positive unless that
  number is negative, which needs a minus sign in front of the digits.
\<close>

theorem posts_to_sync_never_zero:
  "postsToSync (make_config env stored) \<noteq> 0
   \<and> this_postsToSync (constructor (make_config env stored)) = postsToSync (make_config env stored)
   \<and> (POSTS_TO_SYNC env = None \<longrightarrow> postsToSync (make_config env stored) = 10)
   \<and> (parseInt (POSTS_TO_SYNC env) = None \<longrightarrow> postsToSync (make_config env stored) = 10)
   \<and> (parseInt (POSTS_TO_SYNC env) = Some 0 \<longrightarrow> postsToSync (make_config env stored) = 10)
   \<and> (\<forall>n. parseInt (POSTS_TO_SYNC env) = Some n \<longrightarrow> n \<noteq> 0 \<longrightarrow>
          postsToSync (make_config env stored) = n)
   \<and> (0 < postsToSync (make_config env stored)
        \<longleftrightarrow> \<not> (\<exists>n. n < 0 \<and> parseInt (POSTS_TO_SYNC env) = Some n))
   \<and> (\<forall>n. parseInt (POSTS_TO_SYNC env) = Some n \<longrightarrow> n < 0 \<longrightarrow>
          (\<exists>t. dropWhile is_js_space
                  (case POSTS_TO_SYNC env of None \<Rightarrow> ''undefined'' | Some s \<Rightarrow> s)
                = CHR ''-'' # t))"
proof (intro conjI impI allI, goal_cases)
  case 1
  show ?case by (simp add: make_config_def posts_to_sync_def split: option.splits)
next
  case 2
  show ?case by (simp add: constructor_def)
next
  case 3
  then show ?case by (simp add: make_config_def posts_to_sync_def parseInt_undefined)
next
  case 4
  then show ?case by (simp add: make_config_def posts_to_sync_def)
next
  case 5
  then show ?case by (simp add: make_config_def posts_to_sync_def)
next
  case (6 n)
  then show ?case by (simp add: make_config_def posts_to_sync_def)
next
  case 7
  show ?case
    by (cases "parseInt (POSTS_TO_SYNC env)") (auto simp: make_config_def posts_to_sync_def)
next
  case (8 n)
  then show ?case by (rule parseInt_negative)
qed

theorem posts_to_sync_never_zero_witness:
  "POSTS_TO_SYNC (demo_env None None) = None
   \<and> postsToSync (make_config (demo_env None None) None) = 10
   \<and> parseInt (POSTS_TO_SYNC (demo_env (Some ''many'') None)) = None
   \<and> postsToSync (make_config (demo_env (Some ''many'') None) None) = 10
   \<and> parseInt (POSTS_TO_SYNC (demo_env (Some ''0'') None)) = Some 0
   \<and> postsToSync (make_config (demo_env (Some ''0'') None) None) = 10
   \<and> parseInt (POSTS_TO_SYNC (demo_env (Some '' 25 posts'') None)) = Some 25
   \<and> postsToSync (make_config (demo_env (Some '' 25 posts'') None) None) = 25
   \<and> parseInt (POSTS_TO_SYNC (demo_env (Some ''-5'') None)) = Some (- 5)
   \<and> postsToSync (make_config (demo_env (Some ''-5'') None) None) = - 5
   \<and> (\<exists>t. dropWhile is_js_space ''-5'' = CHR ''-'' # t)
   \<and> 0 < postsToSync (make_config (demo_env (Some ''0x1F'') None) None)"
proof -
  note T = posts_to_sync_never_zero
  have h1: "POSTS_TO_SYNC (demo_env None None) = None" by (simp add: demo_env_def)
  have c1: "postsToSync (make_config (demo_env None None) None) = 10"
    using T [where env = "demo_env None None" and stored = None,
             THEN conjunct2, THEN conjunct2, THEN conjunct1, rule_format, OF h1] .
  have h2: "parseInt (POSTS_TO_SYNC (demo_env (Some ''many'') None)) = None" by code_simp
  have c2: "postsToSync (make_config (demo_env (Some ''many'') None) None) = 10"
    using T [where env = "demo_env (Some ''many'') None" and stored = None,
             THEN conjunct2, THEN conjunct2, THEN conjunct2, THEN conjunct1, rule_format, OF h2] .
  have h3: "parseInt (POSTS_TO_SYNC (demo_env (Some ''0'') None)) = Some 0" by code_simp
  have c3: "postsToSync (make_config (demo_env (Some ''0'') None) None) = 10"
    using T [where env = "demo_env (Some ''0'') None" and stored = None,
             THEN conjunct2, THEN conjunct2, THEN conjunct2, THEN conjunct2, THEN conjunct1,
             rule_format, OF h3] .
  have h4: "parseInt (POSTS_TO_SYNC (demo_env (Some '' 25 posts'') None)) = Some 25" by code_simp
  have c4: "postsToSync (make_config (demo_env (Some '' 25 posts'') None) None) = 25"
    using T [where env = "demo_env (Some '' 25 posts'') None" and stored = None,
             THEN conjunct2, THEN conjunct2, THEN conjunct2, THEN conjunct2, THEN conjunct2,
             THEN conjunct1, rule_format, OF h4] by simp
  have h5: "parseInt (POSTS_TO_SYNC (demo_env (Some ''-5'') None)) = Some (- 5)" by code_simp
  have c5: "postsToSync (make_config (demo_env (Some ''-5'') None) None) = - 5"
    using T [where env = "demo_env (Some ''-5'') None" and stored = None,
             THEN conjunct2, THEN conjunct2, THEN conjunct2, THEN conjunct2, THEN conjunct2,
             THEN conjunct1, rule_format, OF h5] by simp
  have c6: "\<exists>t. dropWhile is_js_space ''-5'' = CHR ''-'' # t"
    using T [where env = "demo_env (Some ''-5'') None" and stored = None,
             THEN conjunct2, THEN conjunct2, THEN conjunct2, THEN conjunct2, THEN conjunct2,
             THEN conjunct2, THEN conjunct2, rule_format, OF h5]
    by (simp add: demo_env_def)
  have h7: "\<not> (\<exists>n. n < 0 \<and> parseInt (POSTS_TO_SYNC (demo_env (Some ''0x1F'') None)) = Some n)"
  proof -
    have "parseInt (POSTS_TO_SYNC (demo_env (Some ''0x1F'') None)) = Some 31" by code_simp
    then show ?thesis by simp
  qed
  have c7: "0 < postsToSync (make_config (demo_env (Some ''0x1F'') None) None)"
    using T [where env = "demo_env (Some ''0x1F'') None" and stored = None,
             THEN conjunct2, THEN conjunct2, THEN conjunct2, THEN conjunct2, THEN conjunct2,
             THEN conjunct2, THEN conjunct1] h7 by blast
  show ?thesis
    apply (intro conjI)
    by (rule h1 c1 h2 c2 h3 c3 h4 c4 h5 c5 c6 c7)+
qed

text \<open>
  C9, as the claim states it, fails twice. The text \<open>a\n\n\nb\<close> has no markup and nothing to
  trim, and \<open>cleanMastodonContent\<close> returns \<open>a\n\nb\<close>. The text \<open>if 1 < 2 and 3 > 2\<close> has
  no markup and nothing to trim, and \<open>cleanMastodonContent\<close> returns \<open>if 1  2\<close>: what stands
  between a \<open><\<close> and the next \<open>>\<close> is removed as a tag.
\<close>

theorem normalize_plain_text_counterexample:
  "cleanMastodonContent [CHR ''a'', newline, newline, newline, CHR ''b'']
     = [CHR ''a'', newline, newline, CHR ''b'']
   \<and> trim [CHR ''a'', newline, newline, newline, CHR ''b'']
     = [CHR ''a'', newline, newline, newline, CHR ''b'']
   \<and> cleanMastodonContent [CHR ''a'', newline, newline, newline, CHR ''b'']
     \<noteq> trim [CHR ''a'', newline, newline, newline, CHR ''b'']
   \<and> cleanMastodonContent ''if 1 < 2 and 3 > 2'' = ''if 1  2''
   \<and> trim ''if 1 < 2 and 3 > 2'' = ''if 1 < 2 and 3 > 2''
   \<and> cleanMastodonContent ''if 1 < 2 and 3 > 2'' \<noteq> trim ''if 1 < 2 and 3 > 2''"
  by code_simp

text \<open>
  C9, amended. Take a text in which no \<open><\<close> has a \<open>>\<close> anywhere behind it; a text without
  \<open><\<close>, or without \<open>>\<close>, is one, and these are the texts at no position of which the tag
  pattern \<open><[^>]*>\<close> of the source matches. For such a text the first four replacements of
  \<open>cleanMastodonContent\<close> change nothing: the result is the text with every match of
  \<open>\n{3,}\<close> replaced by two newlines, trimmed. When the text has no three newlines in a
  row, the result is the text unchanged except for the trimming.
\<close>

theorem normalize_tag_free_text:
  "(\<not> (\<exists>pre mid post. s = pre @ CHR ''<'' # mid @ CHR ''>'' # post) \<longrightarrow>
       cleanMastodonContent s = trim (replace_all match_newlines s)
     \<and> (\<not> str_includes s [newline, newline, newline] \<longrightarrow> cleanMastodonContent s = trim s))
   \<and> (CHR ''<'' \<notin> set s \<longrightarrow>
        \<not> (\<exists>pre mid post. s = pre @ CHR ''<'' # mid @ CHR ''>'' # post))
   \<and> (CHR ''>'' \<notin> set s \<longrightarrow>
        \<not> (\<exists>pre mid post. s = pre @ CHR ''<'' # mid @ CHR ''>'' # post))
   \<and> ((\<exists>pre mid post. s = pre @ CHR ''<'' # mid @ CHR ''>'' # post)
        \<longleftrightarrow> (\<exists>i. match_tag (drop i s) \<noteq> None))"
proof (intro conjI impI, goal_cases)
  case 1
  then have "\<And>i. match_tag (drop i s) = None" using tag_free_iff [of s] by blast
  then show ?case by (rule clean_tag_free)
next
  case 2
  then have "\<And>i. match_tag (drop i s) = None" using tag_free_iff [of s] by blast
  then have "cleanMastodonContent s = trim (replace_all match_newlines s)"
    by (rule clean_tag_free)
  with 2(2) show ?case by (simp add: replace_all_newlines_id)
next
  case 3
  then show ?case by auto
next
  case 4
  then show ?case by auto
next
  case 5
  show ?case by (rule tag_free_iff)
qed

theorem normalize_tag_free_text_witness:
  "CHR ''>'' \<notin> set ''  a < b ''
   \<and> \<not> str_includes ''  a < b '' [newline, newline, newline]
   \<and> cleanMastodonContent ''  a < b '' = ''a < b''
   \<and> CHR ''<'' \<notin> set ([CHR ''x'', newline, newline, newline, newline] @ ''y '')
   \<and> cleanMastodonContent ([CHR ''x'', newline, newline, newline, newline] @ ''y '')
     = [CHR ''x'', newline, newline, CHR ''y'']"
proof -
  note T = normalize_tag_free_text
  let ?s = "''  a < b ''"
  let ?t = "[CHR ''x'', newline, newline, newline, newline] @ ''y ''"
  have h1: "CHR ''>'' \<notin> set ?s" by simp
  have h2: "\<not> str_includes ?s [newline, newline, newline]" by code_simp
  have f1: "\<not> (\<exists>pre mid post. ?s = pre @ CHR ''<'' # mid @ CHR ''>'' # post)"
    using T [where s = ?s, THEN conjunct2, THEN conjunct2, THEN conjunct1, THEN mp, OF h1] .
  have "cleanMastodonContent ?s = trim ?s"
    using T [where s = ?s, THEN conjunct1, THEN mp, OF f1, THEN conjunct2, THEN mp, OF h2] .
  moreover have "trim ?s = ''a < b''" by code_simp
  ultimately have c1: "cleanMastodonContent ?s = ''a < b''" by simp
  have h3: "CHR ''<'' \<notin> set ?t" by (simp add: newline_def)
  have f2: "\<not> (\<exists>pre mid post. ?t = pre @ CHR ''<'' # mid @ CHR ''>'' # post)"
    using T [where s = ?t, THEN conjunct2, THEN conjunct1, THEN mp, OF h3] .
  have "cleanMastodonContent ?t = trim (replace_all match_newlines ?t)"
    using T [where s = ?t, THEN conjunct1, THEN mp, OF f2, THEN conjunct1] .
  moreover have "trim (replace_all match_newlines ?t) = [CHR ''x'', newline, newline, CHR ''y'']"
    by code_simp
  ultimately have c2: "cleanMastodonContent ?t = [CHR ''x'', newline, newline, CHR ''y'']" by simp
  show ?thesis
    apply (intro conjI)
    by (rule h1 h2 c1 h3 c2)+
qed

text \<open>
  C7. The value that \<open>handleSync\<close> writes as the watermark is \<open>results.timestamp\<close>, which
  \<open>sync\<close> reads from the clock after \<open>initialize\<close> and before the two directions run. In a
  world where every call takes one tick, a pass with four posts to publish writes \<open>4\<close>, the
  time of that reading, while the clock shows \<open>10\<close> when the pass completes: the value
  written is not the completion time of the pass.
\<close>

theorem watermark_is_read_before_the_directions:
  "fst (handleSync quiet (demo_env (Some ''10'') (Some ''false'')) start)
     = Inr (Succeeded False ''4'' 2 2 None)
   \<and> kv_puts (snd (handleSync quiet (demo_env (Some ''10'') (Some ''false'')) start))
     = [KvPut ''lastSync'' ''4'']
   \<and> clock quiet
       (remote (snd (sync quiet
                       (constructor (make_config (demo_env (Some ''10'') (Some ''false'')) None))
                       (snd (perform (KvGet ''lastSync'') (kv_get quiet ''lastSync'') start)))))
     = ''10''"
  by code_simp


text \<open>
  X1. What holds of C7: once the stored watermark is read, \<open>handleSync\<close> writes to the store
  exactly when \<open>sync\<close> returns and \<open>DRY_RUN\<close> is not \<open>'true'\<close>, and then it writes one value,
  the \<open>timestamp\<close> of the results, which is the clock's reading in the world that
  \<open>initialize\<close> left. When \<open>sync\<close> throws, nothing is written and the report has
  \<open>success = false\<close>; in a dry run nothing is written and the report has \<open>success = true\<close>.
\<close>

theorem watermark_commit:
  fixes E :: "'s platform"
  assumes "perform (KvGet ''lastSync'') (kv_get E ''lastSync'') w = (Inr stored, w0)"
  shows
   "(\<forall>error w1. sync E (constructor (make_config env stored)) w0 = (Inl error, w1) \<longrightarrow>
        (\<exists>report. handleSync E env w = (Inr report, w1) \<and> \<not> success report)
      \<and> kv_puts (snd (handleSync E env w)) = kv_puts w)
  \<and> (\<forall>results w1. sync E (constructor (make_config env stored)) w0 = (Inr results, w1) \<longrightarrow>
        (DRY_RUN env = Some ''true'' \<longrightarrow>
           (\<exists>report. handleSync E env w = (Inr report, w1) \<and> success report)
         \<and> kv_puts (snd (handleSync E env w)) = kv_puts w)
      \<and> (DRY_RUN env \<noteq> Some ''true'' \<longrightarrow>
           kv_puts (snd (handleSync E env w))
           = kv_puts w @ [KvPut ''lastSync'' (results_timestamp results)])
      \<and> (\<exists>wi. initialize E (constructor (make_config env stored)) w0 = (Inr (), wi)
              \<and> results_timestamp results = clock E (remote wi)))"
proof -
  have k0: "kv_puts w0 = kv_puts w"
    using perform_kv_puts [of "KvGet ''lastSync''" "kv_get E ''lastSync''" w] assms
    by (simp add: is_kv_put_def)
  have dr: "dryRun (make_config env stored) = (DRY_RUN env = Some ''true'')"
    by (simp add: make_config_def)
  show ?thesis
  proof (intro conjI impI allI, goal_cases)
    case (1 error w1)
    with assms show ?case by (simp add: handleSync_def Let_def)
  next
    case (2 error w1)
    have "kv_puts w1 = kv_puts w0"
      using sync_kv_puts [of E "constructor (make_config env stored)" w0] 2 by simp
    with assms 2 k0 show ?case by (simp add: handleSync_def Let_def)
  next
    case (3 results w1)
    with assms dr show ?case by (simp add: handleSync_def Let_def)
  next
    case (4 results w1)
    have "kv_puts w1 = kv_puts w0"
      using sync_kv_puts [of E "constructor (make_config env stored)" w0] 4 by simp
    with assms 4 dr k0 show ?case by (simp add: handleSync_def Let_def)
  next
    case (5 results w1)
    have k1: "kv_puts w1 = kv_puts w0"
      using sync_kv_puts [of E "constructor (make_config env stored)" w0] 5 by simp
    obtain r s' where op: "kv_put E ''lastSync'' (results_timestamp results) (remote w1) = (r, s')"
      by (cases "kv_put E ''lastSync'' (results_timestamp results) (remote w1)")
    have "kv_puts (snd (perform (KvPut ''lastSync'' (results_timestamp results))
                          (kv_put E ''lastSync'' (results_timestamp results)) w1))
          = kv_puts w1 @ [KvPut ''lastSync'' (results_timestamp results)]"
      by (simp add: perform_def op kv_puts_def is_kv_put_def)
    with assms 5 dr k0 k1 show ?case
      by (auto simp: handleSync_def Let_def split: prod.splits sum.splits)
  next
    case (6 results w1)
    then show ?case by (rule sync_timestamp)
  qed
qed

theorem watermark_commit_witness:
  "perform (KvGet ''lastSync'') (kv_get quiet ''lastSync'') start
     = (Inr None, \<lparr>remote = 1, trace = [KvGet ''lastSync'']\<rparr>)
   \<and> kv_puts (snd (handleSync quiet (demo_env (Some ''10'') (Some ''false'')) start))
     = kv_puts start @ [KvPut ''lastSync'' ''4'']
   \<and> kv_puts (snd (handleSync quiet (demo_env (Some ''10'') (Some ''true'')) start)) = kv_puts start
   \<and> kv_puts (snd (handleSync (scripted skeets toots None (\<lambda>n. if n = 3 then Some refused else None))
                     (demo_env (Some ''10'') (Some ''false'')) start)) = kv_puts start
   \<and> fst (handleSync (scripted skeets toots None (\<lambda>n. if n = 3 then Some refused else None))
            (demo_env (Some ''10'') (Some ''false'')) start)
     = Inr (Failed False ''Mastodon API error: 422 Validation failed'' None)"
proof -
  let ?w0 = "\<lparr>remote = 1, trace = [KvGet ''lastSync'']\<rparr> :: nat world"
  let ?real = "demo_env (Some ''10'') (Some ''false'')"
  let ?dry = "demo_env (Some ''10'') (Some ''true'')"
  let ?bad = "scripted skeets toots None (\<lambda>n. if n = 3 then Some refused else None)"
  have g: "perform (KvGet ''lastSync'') (kv_get quiet ''lastSync'') start = (Inr None, ?w0)"
    by code_simp
  have gb: "perform (KvGet ''lastSync'') (kv_get ?bad ''lastSync'') start = (Inr None, ?w0)"
    by code_simp
  have s1: "sync quiet (constructor (make_config ?real None)) ?w0
            = (Inr \<lparr>results_timestamp = ''4'',
                    blueskyToMastodon = fst (bluesky_loop quiet (constructor (make_config ?real None)) skeets []
                        (snd (fetch_bluesky quiet (constructor (make_config ?real None))
                               (snd (initialize quiet (constructor (make_config ?real None)) ?w0))))),
                    mastodonToBluesky = fst (mastodon_loop quiet (constructor (make_config ?real None)) toots []
                        (snd (fetch_mastodon quiet (constructor (make_config ?real None))
                               (snd (syncFromBluesky quiet (constructor (make_config ?real None))
                                  (snd (initialize quiet (constructor (make_config ?real None)) ?w0))))))),
                    results_dryRun = False\<rparr>,
               snd (sync quiet (constructor (make_config ?real None)) ?w0))"
    by code_simp
  have n1: "DRY_RUN ?real \<noteq> Some ''true''" by (simp add: demo_env_def)
  have c1: "kv_puts (snd (handleSync quiet ?real start)) = kv_puts start @ [KvPut ''lastSync'' ''4'']"
    using watermark_commit [OF g, where env = ?real, THEN conjunct2, rule_format, OF s1,
            THEN conjunct2, THEN conjunct1, rule_format, OF n1] by simp
  have s2: "sync quiet (constructor (make_config ?dry None)) ?w0
            = (Inr (projr (fst (sync quiet (constructor (make_config ?dry None)) ?w0))),
               snd (sync quiet (constructor (make_config ?dry None)) ?w0))"
    by code_simp
  have d2: "DRY_RUN ?dry = Some ''true''" by (simp add: demo_env_def)
  have c2: "kv_puts (snd (handleSync quiet ?dry start)) = kv_puts start"
    using watermark_commit [OF g, where env = ?dry, THEN conjunct2, rule_format, OF s2,
            THEN conjunct1, rule_format, OF d2, THEN conjunct2] .
  have s3: "sync ?bad (constructor (make_config ?real None)) ?w0
            = (Inl refused, snd (sync ?bad (constructor (make_config ?real None)) ?w0))"
    by code_simp
  have c3: "kv_puts (snd (handleSync ?bad ?real start)) = kv_puts start"
    using watermark_commit [OF gb, where env = ?real, THEN conjunct1, rule_format, OF s3,
            THEN conjunct2] .
  have c4: "fst (handleSync ?bad ?real start)
            = Inr (Failed False ''Mastodon API error: 422 Validation failed'' None)"
    by code_simp
  show ?thesis
    apply (intro conjI)
    by (rule g c1 c2 c3 c4)+
qed

end
